(* ===== verification/Prelude.thy ===== *)
theory Prelude
  imports Main "HOL-Library.Word" "HOL-Library.Finite_Map" "HOL-Library.List_Lexorder"
    "HOL-Library.Char_ord"
begin

text \<open>
  Shared vocabulary of the development: Rust's \<open>Result\<close> with panics kept apart from
  errors, state-passing computations for methods that take \<open>&mut self\<close>, 64-bit
  arithmetic (checked, saturating, panicking), the string routines of the standard library
  the node uses, and sums over finite maps. Everything else of the development imports it.

  Strings are byte sequences: a \<^typ>\<open>char\<close> is one byte of the UTF-8 text, so \<open>len()\<close> is
  \<^const>\<open>length\<close> and the order of \<open>BTreeMap<String, _>\<close> keys is the lexicographic one.
\<close>

named_theorems exec_ok \<open>when a computation succeeds, and with which state\<close>
named_theorems exec_panic \<open>when a computation panics\<close>
named_theorems u64_simps \<open>64-bit arithmetic read as natural numbers\<close>
named_theorems ledger_simps \<open>sums over finite maps\<close>


section \<open>Results\<close>

text \<open>
  A Rust computation returns, returns \<open>Err\<close>, or panics (overflow with
  \<open>overflow-checks = true\<close>, as Cargo.toml sets for release builds, an index out of range,
  \<open>unwrap\<close> on \<open>None\<close>, division by zero).
\<close>

datatype 'e failure = Err 'e | Panic

type_synonym ('e, 'a) result = "'e failure + 'a"
type_synonym 'a outcome = "(string, 'a) result"

definition is_ok :: "('e, 'a) result \<Rightarrow> bool" where
  "is_ok r \<longleftrightarrow> (case r of Inl _ \<Rightarrow> False | Inr _ \<Rightarrow> True)"

definition bindR :: "('e, 'a) result \<Rightarrow> ('a \<Rightarrow> ('e, 'b) result) \<Rightarrow> ('e, 'b) result" where
  "bindR m f = (case m of Inl e \<Rightarrow> Inl e | Inr x \<Rightarrow> f x)"

definition ok_or :: "'a option \<Rightarrow> 'e \<Rightarrow> ('e, 'a) result" where
  "ok_or x e = (case x of None \<Rightarrow> Inl (Err e) | Some v \<Rightarrow> Inr v)"

text \<open>The early return \<open>if !b { return Err(e) }\<close>.\<close>

definition require :: "bool \<Rightarrow> 'e \<Rightarrow> ('e, unit) result" where
  "require b e = (if b then Inr () else Inl (Err e))"

definition map_err :: "('e \<Rightarrow> 'g) \<Rightarrow> ('e, 'a) result \<Rightarrow> ('g, 'a) result" where
  "map_err f r = (case r of Inl (Err e) \<Rightarrow> Inl (Err (f e)) | Inl Panic \<Rightarrow> Inl Panic | Inr x \<Rightarrow> Inr x)"

text \<open>The result of a library call, which returns an error text or a value and does not panic.\<close>

definition from_lib :: "string + 'a \<Rightarrow> 'a outcome" where
  "from_lib r = (case r of Inl e \<Rightarrow> Inl (Err e) | Inr x \<Rightarrow> Inr x)"

lemma from_lib_simps [simp]: "from_lib (Inl e) = Inl (Err e)" "from_lib (Inr x) = Inr x"
  by (simp_all add: from_lib_def)

lemma from_lib_ok [exec_ok]: "from_lib r = Inr x \<longleftrightarrow> r = Inr x"
  by (cases r) simp_all

lemma from_lib_panic [exec_panic]: "from_lib r \<noteq> Inl Panic"
  by (cases r) simp_all

lemma is_ok_iff: "is_ok r \<longleftrightarrow> (\<exists>x. r = Inr x)"
  by (cases r) (simp_all add: is_ok_def)

lemma is_ok_simps [simp]: "is_ok (Inr x)" "\<not> is_ok (Inl e)"
  by (simp_all add: is_ok_def)

lemma bindR_simps [simp]: "bindR (Inr x) f = f x" "bindR (Inl e) f = Inl e"
  by (simp_all add: bindR_def)

lemma bindR_ok [exec_ok]: "bindR m f = Inr y \<longleftrightarrow> (\<exists>x. m = Inr x \<and> f x = Inr y)"
  by (cases m) simp_all

lemma bindR_panic [exec_panic]:
  "bindR m f = Inl Panic \<longleftrightarrow> m = Inl Panic \<or> (\<exists>x. m = Inr x \<and> f x = Inl Panic)"
  by (cases m) simp_all

lemma ok_or_simps [simp]: "ok_or (Some x) e = Inr x" "ok_or None e = Inl (Err e)"
  by (simp_all add: ok_or_def)

lemma ok_or_ok [exec_ok]: "ok_or x e = Inr v \<longleftrightarrow> x = Some v"
  by (cases x) simp_all

lemma ok_or_panic [exec_panic]: "ok_or x e \<noteq> Inl Panic"
  by (cases x) simp_all

lemma require_ok [exec_ok]: "require b e = Inr u \<longleftrightarrow> b"
  by (simp add: require_def)

lemma require_panic [exec_panic]: "require b e \<noteq> Inl Panic"
  by (simp add: require_def)

lemma require_simps [simp]: "require True e = Inr ()" "require False e = Inl (Err e)"
  by (simp_all add: require_def)

lemma map_err_simps [simp]:
  "map_err f (Inr x) = Inr x" "map_err f (Inl (Err e)) = Inl (Err (f e))"
  "map_err f (Inl Panic) = Inl Panic"
  by (simp_all add: map_err_def)

lemma map_err_ok [exec_ok]: "map_err f r = Inr x \<longleftrightarrow> r = Inr x"
  by (cases r; simp; case_tac a; simp)

lemma map_err_panic [exec_panic]: "map_err f r = Inl Panic \<longleftrightarrow> r = Inl Panic"
  by (cases r; simp; case_tac a; simp)


section \<open>State-passing computations\<close>

text \<open>
  A method on \<open>&mut self\<close> returns its result and the state it leaves behind, on the error
  paths too: an \<open>Err\<close> returned half way through leaves the writes already made.
\<close>

type_synonym ('s, 'a) exec = "'s \<Rightarrow> 'a outcome \<times> 's"

definition ret :: "'a \<Rightarrow> ('s, 'a) exec" where
  "ret x = (\<lambda>s. (Inr x, s))"

definition bindE :: "('s, 'a) exec \<Rightarrow> ('a \<Rightarrow> ('s, 'b) exec) \<Rightarrow> ('s, 'b) exec" where
  "bindE m f = (\<lambda>s. case m s of (Inl e, t) \<Rightarrow> (Inl e, t) | (Inr x, t) \<Rightarrow> f x t)"

text \<open>A pure result inside a stateful method (the \<open>?\<close> operator on it).\<close>

definition lift :: "'a outcome \<Rightarrow> ('s, 'a) exec" where
  "lift r = (\<lambda>s. (r, s))"

definition gets :: "('s \<Rightarrow> 'a) \<Rightarrow> ('s, 'a) exec" where
  "gets f = (\<lambda>s. (Inr (f s), s))"

definition modify :: "('s \<Rightarrow> 's) \<Rightarrow> ('s, unit) exec" where
  "modify f = (\<lambda>s. (Inr (), f s))"

abbreviation ensure :: "bool \<Rightarrow> string \<Rightarrow> ('s, unit) exec" where
  "ensure b e \<equiv> lift (require b e)"

abbreviation need :: "'a option \<Rightarrow> string \<Rightarrow> ('s, 'a) exec" where
  "need x e \<equiv> lift (ok_or x e)"

lemma ret_run [simp]: "ret x s = (Inr x, s)"
  by (simp add: ret_def)

lemma lift_run [simp]: "lift r s = (r, s)"
  by (simp add: lift_def)

lemma gets_run [simp]: "gets f s = (Inr (f s), s)"
  by (simp add: gets_def)

lemma modify_run [simp]: "modify f s = (Inr (), f s)"
  by (simp add: modify_def)

lemma bindE_ok [exec_ok]:
  "bindE m f s = (Inr y, t) \<longleftrightarrow> (\<exists>x u. m s = (Inr x, u) \<and> f x u = (Inr y, t))"
  by (auto simp: bindE_def split: prod.splits sum.splits)

lemma bindE_panic [exec_panic]:
  "bindE m f s = (Inl Panic, t) \<longleftrightarrow>
     m s = (Inl Panic, t) \<or> (\<exists>x u. m s = (Inr x, u) \<and> f x u = (Inl Panic, t))"
  by (auto simp: bindE_def split: prod.splits sum.splits)

lemma bindE_run [simp]:
  "m s = (Inr x, u) \<Longrightarrow> bindE m f s = f x u"
  "m s = (Inl e, u) \<Longrightarrow> bindE m f s = (Inl e, u)"
  by (simp_all add: bindE_def)

lemma bindE_prim [simp]:
  "bindE (ret x) f s = f x s" "bindE (lift (Inr x)) f s = f x s"
  "bindE (lift (Inl e)) f s = (Inl e, s)" "bindE (gets g) f s = f (g s) s"
  "bindE (modify h) f' s = f' () (h s)"
  by (simp_all add: bindE_def)


section \<open>64-bit words\<close>

type_synonym u64 = "64 word"

abbreviation u64_max :: u64 where "u64_max \<equiv> 18446744073709551615"

text \<open>Rust's \<open>+\<close>, \<open>-\<close> with overflow checks, the \<open>checked_\<close> and the \<open>saturating_\<close> operations.\<close>

definition checked_add :: "u64 \<Rightarrow> u64 \<Rightarrow> u64 option" where
  "checked_add a b = (if unat a + unat b < 2 ^ 64 then Some (a + b) else None)"

definition add_u64 :: "u64 \<Rightarrow> u64 \<Rightarrow> ('e, u64) result" where
  "add_u64 a b = (case checked_add a b of None \<Rightarrow> Inl Panic | Some c \<Rightarrow> Inr c)"

definition sub_u64 :: "u64 \<Rightarrow> u64 \<Rightarrow> ('e, u64) result" where
  "sub_u64 a b = (if b \<le> a then Inr (a - b) else Inl Panic)"

definition sat_add :: "u64 \<Rightarrow> u64 \<Rightarrow> u64" where
  "sat_add a b = (case checked_add a b of None \<Rightarrow> u64_max | Some c \<Rightarrow> c)"

definition sat_sub :: "u64 \<Rightarrow> u64 \<Rightarrow> u64" where
  "sat_sub a b = (if b \<le> a then a - b else 0)"

definition sat_mul :: "u64 \<Rightarrow> u64 \<Rightarrow> u64" where
  "sat_mul a b = (if unat a * unat b < 2 ^ 64 then a * b else u64_max)"

text \<open>\<open>x as u64\<close> of a wider unsigned value drops the high bits.\<close>

definition as_u64 :: "nat \<Rightarrow> u64" where
  "as_u64 n = word_of_nat n"

definition clampW :: "u64 \<Rightarrow> u64 \<Rightarrow> u64 \<Rightarrow> u64" where
  "clampW lo hi x = (if x < lo then lo else if hi < x then hi else x)"

lemma unat_u64_less [simp]: "unat (x :: u64) < 18446744073709551616"
  using unsigned_less [of x] by simp

lemma checked_add_Some [u64_simps]:
  "checked_add a b = Some c \<longleftrightarrow> unat a + unat b < 2 ^ 64 \<and> c = a + b"
  by (auto simp: checked_add_def)

lemma checked_add_None: "checked_add a b = None \<longleftrightarrow> 2 ^ 64 \<le> unat a + unat b"
  by (auto simp: checked_add_def)

lemma unat_plus [u64_simps]: "unat (a :: u64) + unat b < 2 ^ 64 \<Longrightarrow> unat (a + b) = unat a + unat b"
  by (simp add: unat_add_lem [THEN iffD1])

lemma unat_minus [u64_simps]: "(b :: u64) \<le> a \<Longrightarrow> unat (a - b) = unat a - unat b"
  by (rule unat_sub)

lemma add_u64_ok [exec_ok]:
  "add_u64 a b = Inr c \<longleftrightarrow> unat a + unat b < 2 ^ 64 \<and> c = a + b"
  by (auto simp: add_u64_def checked_add_def)

lemma add_u64_panic [exec_panic]: "add_u64 a b = Inl Panic \<longleftrightarrow> 2 ^ 64 \<le> unat a + unat b"
  by (auto simp: add_u64_def checked_add_def)

lemma sub_u64_ok [exec_ok]: "sub_u64 a b = Inr c \<longleftrightarrow> b \<le> a \<and> c = a - b"
  by (auto simp: sub_u64_def)

lemma sub_u64_panic [exec_panic]: "sub_u64 a b = Inl Panic \<longleftrightarrow> a < b"
  by (auto simp: sub_u64_def)

lemma unat_sat_add: "unat (sat_add a b) = min (unat a + unat b) (2 ^ 64 - 1)"
  by (auto simp: sat_add_def checked_add_def unat_plus)

lemma unat_sat_add_exact [u64_simps]:
  "unat a + unat b < 2 ^ 64 \<Longrightarrow> unat (sat_add a b) = unat a + unat b"
  by (simp add: unat_sat_add)

lemma unat_sat_sub [u64_simps]: "unat (sat_sub a b) = unat a - unat b"
  by (auto simp: sat_sub_def unat_minus word_le_nat_alt)

lemma unat_sat_mul: "unat (sat_mul a b) = min (unat a * unat b) (2 ^ 64 - 1)"
  by (auto simp: sat_mul_def unat_mult_lem [THEN iffD1])

lemma unat_as_u64: "unat (as_u64 n) = n mod 2 ^ 64"
  by (simp add: as_u64_def unat_of_nat)

lemma unat_as_u64_small [u64_simps]: "n < 2 ^ 64 \<Longrightarrow> unat (as_u64 n) = n"
  by (simp add: unat_as_u64)

lemma unat_as_u64_le: "unat (as_u64 n) \<le> n"
  by (simp add: unat_as_u64)

lemma clampW_bounds: "lo \<le> hi \<Longrightarrow> lo \<le> clampW lo hi x \<and> clampW lo hi x \<le> hi"
  by (auto simp: clampW_def)

text \<open>\<open>iter().sum()\<close> over \<open>u64\<close>, and a run of big-endian bytes read as a number.\<close>

fun sum_u64_from :: "u64 \<Rightarrow> u64 list \<Rightarrow> ('e, u64) result" where
  "sum_u64_from acc [] = Inr acc"
| "sum_u64_from acc (x # xs) = bindR (add_u64 acc x) (\<lambda>a. sum_u64_from a xs)"

definition sum_u64 :: "u64 list \<Rightarrow> ('e, u64) result" where
  "sum_u64 xs = sum_u64_from 0 xs"

definition be_value :: "string \<Rightarrow> nat" where
  "be_value bs = foldl (\<lambda>acc c. acc * 256 + of_char c) 0 bs"

lemma sum_u64_from_ok:
  "sum_u64_from acc xs = Inr t \<longleftrightarrow>
     unat acc + sum_list (map unat xs) < 2 ^ 64 \<and> unat t = unat acc + sum_list (map unat xs)"
proof (induction xs arbitrary: acc)
  case Nil
  then show ?case by (auto simp: word_unat_eq_iff)
next
  case (Cons x xs)
  show ?case
    by (auto simp: exec_ok Cons unat_plus add.assoc)
qed

lemma sum_u64_from_panic:
  "sum_u64_from acc xs = Inl e \<longleftrightarrow> e = Panic \<and> 2 ^ 64 \<le> unat acc + sum_list (map unat xs)"
proof (induction xs arbitrary: acc)
  case Nil
  then show ?case by (simp add: not_le unat_u64_less)
next
  case (Cons x xs)
  show ?case
    by (cases "unat acc + unat x < 2 ^ 64")
       (auto simp: add_u64_def checked_add_def Cons unat_plus add.assoc not_less)
qed

lemma sum_u64_ok [exec_ok]:
  "sum_u64 xs = Inr t \<longleftrightarrow> sum_list (map unat xs) < 2 ^ 64 \<and> unat t = sum_list (map unat xs)"
  by (simp add: sum_u64_def sum_u64_from_ok)

lemma sum_u64_panic [exec_panic]:
  "sum_u64 xs = Inl e \<longleftrightarrow> e = Panic \<and> 2 ^ 64 \<le> sum_list (map unat xs)"
  by (simp add: sum_u64_def sum_u64_from_panic)


section \<open>Text\<close>

text \<open>Decimal output of an unsigned integer, and \<open>str::parse::<u64>\<close> (an optional \<open>+\<close>, digits, no overflow).\<close>

definition digit_char :: "nat \<Rightarrow> char" where
  "digit_char d = char_of (48 + d)"

fun dec_string :: "nat \<Rightarrow> string" where
  "dec_string n =
     (if n < 10 then [digit_char n] else dec_string (n div 10) @ [digit_char (n mod 10)])"

declare dec_string.simps [simp del]

definition show_u64 :: "u64 \<Rightarrow> string" where
  "show_u64 w = dec_string (unat w)"

definition show_bool :: "bool \<Rightarrow> string" where
  "show_bool b = (if b then ''true'' else ''false'')"

definition is_digit :: "char \<Rightarrow> bool" where
  "is_digit c \<longleftrightarrow> 48 \<le> (of_char c :: nat) \<and> (of_char c :: nat) \<le> 57"

definition digit_val :: "char \<Rightarrow> nat" where
  "digit_val c = of_char c - 48"

definition dec_value :: "string \<Rightarrow> nat" where
  "dec_value s = foldl (\<lambda>acc c. acc * 10 + digit_val c) 0 s"

definition parse_digits :: "string \<Rightarrow> u64 option" where
  "parse_digits s =
     (if s \<noteq> [] \<and> list_all is_digit s \<and> dec_value s < 2 ^ 64 then Some (as_u64 (dec_value s))
      else None)"

definition parse_u64 :: "string \<Rightarrow> u64 option" where
  "parse_u64 s = (case s of [] \<Rightarrow> None | c # cs \<Rightarrow> if c = CHR ''+'' then parse_digits cs else parse_digits s)"

lemma dec_string_small: "n < 10 \<Longrightarrow> dec_string n = [digit_char n]"
  by (simp add: dec_string.simps)

lemma dec_string_step: "\<not> n < 10 \<Longrightarrow> dec_string n = dec_string (n div 10) @ [digit_char (n mod 10)]"
  by (subst dec_string.simps) simp

lemma dec_string_nonempty [simp]: "dec_string n \<noteq> []"
  by (subst dec_string.simps) simp

lemma of_char_digit: "d < 10 \<Longrightarrow> (of_char (digit_char d) :: nat) = 48 + d"
  by (simp add: digit_char_def)

lemma is_digit_digit_char: "d < 10 \<Longrightarrow> is_digit (digit_char d)"
  by (simp add: is_digit_def of_char_digit)

lemma digit_val_digit_char: "d < 10 \<Longrightarrow> digit_val (digit_char d) = d"
  by (simp add: digit_val_def of_char_digit)

lemma dec_string_digits: "list_all is_digit (dec_string n)"
proof (induction n rule: dec_string.induct)
  case (1 n)
  show ?case
  proof (cases "n < 10")
    case True
    then show ?thesis by (simp add: dec_string_small is_digit_digit_char)
  next
    case False
    with 1 show ?thesis by (simp add: dec_string_step is_digit_digit_char)
  qed
qed

lemma dec_value_snoc: "dec_value (s @ [c]) = dec_value s * 10 + digit_val c"
  by (simp add: dec_value_def)

lemma dec_value_dec_string: "dec_value (dec_string n) = n"
proof (induction n rule: dec_string.induct)
  case (1 n)
  show ?case
  proof (cases "n < 10")
    case True
    then show ?thesis by (simp add: dec_string_small dec_value_def digit_val_digit_char)
  next
    case False
    with 1 show ?thesis by (simp add: dec_string_step dec_value_snoc digit_val_digit_char)
  qed
qed

lemma dec_string_inj: "dec_string m = dec_string n \<longleftrightarrow> m = n"
  by (metis dec_value_dec_string)

lemma show_u64_inj: "show_u64 a = show_u64 b \<longleftrightarrow> a = b"
  by (simp add: show_u64_def dec_string_inj word_unat_eq_iff)

lemma parse_digits_show: "parse_digits (show_u64 w) = Some w"
  by (simp add: parse_digits_def show_u64_def dec_string_digits dec_value_dec_string as_u64_def)

lemma parse_u64_show: "parse_u64 (show_u64 w) = Some w"
proof -
  have "hd (show_u64 w) \<noteq> CHR ''+''"
    using dec_string_digits [of "unat w"] dec_string_nonempty [of "unat w"]
    by (cases "dec_string (unat w)") (auto simp: show_u64_def is_digit_def)
  moreover have "show_u64 w \<noteq> []"
    by (simp add: show_u64_def)
  ultimately show ?thesis
    using parse_digits_show [of w] by (cases "show_u64 w") (simp_all add: parse_u64_def)
qed

text \<open>
  A string made of digits, a colon and the rest splits in one way only: what the
  \<open>"{}:{}"\<close> keys of the node rely on.
\<close>

lemma no_colon_dec_string: "CHR '':'' \<notin> set (dec_string n)"
  using dec_string_digits [of n] by (auto simp: list_all_iff is_digit_def)

lemma colon_split_unique:
  assumes "a @ CHR '':'' # x = b @ CHR '':'' # y"
    and "CHR '':'' \<notin> set x" and "CHR '':'' \<notin> set y"
  shows "a = b \<and> x = y"
proof -
  have "rev x @ CHR '':'' # rev a = rev y @ CHR '':'' # rev b"
    using assms(1) by (metis append.assoc append_Cons append_Nil rev.simps(2) rev_append)
  then have "takeWhile (\<lambda>c. c \<noteq> CHR '':'') (rev x @ CHR '':'' # rev a)
           = takeWhile (\<lambda>c. c \<noteq> CHR '':'') (rev y @ CHR '':'' # rev b)" by simp
  with assms(2,3) have "rev x = rev y"
    by (subst (asm) (1 2) takeWhile_append2) auto
  with assms(1) show ?thesis by simp
qed

lemma split_first_colon:
  assumes "a @ CHR '':'' # x = b @ CHR '':'' # y"
    and "CHR '':'' \<notin> set a" and "CHR '':'' \<notin> set b"
  shows "a = b \<and> x = y"
proof -
  have "takeWhile (\<lambda>c. c \<noteq> CHR '':'') (a @ CHR '':'' # x) = takeWhile (\<lambda>c. c \<noteq> CHR '':'') (b @ CHR '':'' # y)"
    using assms(1) by simp
  with assms(2,3) have "a = b" by (subst (asm) (1 2) takeWhile_append2) auto
  with assms(1) show ?thesis by simp
qed

text \<open>
  \<open>str::trim\<close>: Unicode \<open>White_Space\<close> at both ends. \<open>ws_prefix\<close> is the number of bytes of the
  white-space character the text starts with (0 when it starts with none), \<open>ws_suffix\<close> the same
  for the reversed text.
\<close>

definition ascii_ws :: "char \<Rightarrow> bool" where
  "ascii_ws c \<longleftrightarrow> (let n = (of_char c :: nat) in (9 \<le> n \<and> n \<le> 13) \<or> n = 32)"

definition wide_ws :: "nat list \<Rightarrow> bool" where
  "wide_ws b \<longleftrightarrow>
     b \<in> set [[0xC2, 0x85], [0xC2, 0xA0], [0xE1, 0x9A, 0x80], [0xE2, 0x80, 0xA8], [0xE2, 0x80, 0xA9],
             [0xE2, 0x80, 0xAF], [0xE2, 0x81, 0x9F], [0xE3, 0x80, 0x80]]
     \<or> b \<in> set (map (\<lambda>n. [0xE2, 0x80, n]) [0x80..<0x8B])"

definition ws_prefix :: "string \<Rightarrow> nat" where
  "ws_prefix s =
     (if s \<noteq> [] \<and> ascii_ws (hd s) then 1
      else if wide_ws (map of_char (take 2 s)) then 2
      else if wide_ws (map of_char (take 3 s)) then 3 else 0)"

definition ws_suffix :: "string \<Rightarrow> nat" where
  "ws_suffix r =
     (if r \<noteq> [] \<and> ascii_ws (hd r) then 1
      else if wide_ws (map of_char (rev (take 2 r))) then 2
      else if wide_ws (map of_char (rev (take 3 r))) then 3 else 0)"

function strip_with :: "(string \<Rightarrow> nat) \<Rightarrow> string \<Rightarrow> string" where
  "strip_with p s = (if s = [] \<or> p s = 0 then s else strip_with p (drop (p s) s))"
  by pat_completeness auto
termination
  by (relation "measure (\<lambda>(p, s). length s)") auto

declare strip_with.simps [simp del]

definition trim :: "string \<Rightarrow> string" where
  "trim s = rev (strip_with ws_suffix (rev (strip_with ws_prefix s)))"

lemma strip_with_nil [simp]: "strip_with p [] = []"
  by (simp add: strip_with.simps)

lemma strip_with_none: "p s = 0 \<Longrightarrow> strip_with p s = s"
  by (simp add: strip_with.simps)

lemma trim_nil [simp]: "trim [] = []"
  by (simp add: trim_def)

text \<open>\<open>s.trim().is_empty()\<close>.\<close>

definition blank :: "string \<Rightarrow> bool" where
  "blank s \<longleftrightarrow> trim s = []"


text \<open>\<open>str::starts_with\<close> and \<open>str::strip_prefix\<close>.\<close>

definition starts_with :: "string \<Rightarrow> string \<Rightarrow> bool" where
  "starts_with p s \<longleftrightarrow> take (length p) s = p"

definition strip_prefix :: "string \<Rightarrow> string \<Rightarrow> string option" where
  "strip_prefix p s = (if starts_with p s then Some (drop (length p) s) else None)"

lemma starts_with_append [simp]: "starts_with p (p @ s)"
  by (simp add: starts_with_def)

lemma starts_with_iff: "starts_with p s \<longleftrightarrow> (\<exists>r. s = p @ r)"
  by (metis append_take_drop_id starts_with_append starts_with_def)

lemma strip_prefix_append [simp]: "strip_prefix p (p @ s) = Some s"
  by (simp add: strip_prefix_def)

lemma strip_prefix_Some: "strip_prefix p s = Some r \<longleftrightarrow> s = p @ r"
  by (auto simp: strip_prefix_def starts_with_iff)


section \<open>Maps\<close>

text \<open>
  A \<open>BTreeMap\<close> or \<open>HashMap\<close> is an \<^typ>\<open>('k, 'v) fmap\<close>; \<open>keys_of\<close> lists a \<open>BTreeMap\<close>'s keys in its
  iteration order. \<open>fmfind d m k\<close> is \<open>m.get(k)\<close> with a default, and \<open>fmsum f m\<close>, used in
  specifications only, the sum of a measure over the entries.
\<close>

definition keys_of :: "('k::linorder, 'v) fmap \<Rightarrow> 'k list" where
  "keys_of m = sorted_list_of_fset (fmdom m)"

definition fmfind :: "'v \<Rightarrow> ('k, 'v) fmap \<Rightarrow> 'k \<Rightarrow> 'v" where
  "fmfind d m k = (case fmlookup m k of None \<Rightarrow> d | Some v \<Rightarrow> v)"

definition fmhas :: "('k, 'v) fmap \<Rightarrow> 'k \<Rightarrow> bool" where
  "fmhas m k \<longleftrightarrow> fmlookup m k \<noteq> None"

definition fmsum :: "('v \<Rightarrow> int) \<Rightarrow> ('k, 'v) fmap \<Rightarrow> int" where
  "fmsum f m = (\<Sum>k\<in>fmdom' m. f (the (fmlookup m k)))"

lemma fmfind_upd [simp]: "fmfind d (fmupd k v m) k' = (if k = k' then v else fmfind d m k')"
  by (simp add: fmfind_def)

lemma fmfind_drop [simp]: "fmfind d (fmdrop k m) k' = (if k = k' then d else fmfind d m k')"
  by (simp add: fmfind_def)

lemma fmfind_empty [simp]: "fmfind d fmempty k = d"
  by (simp add: fmfind_def)

lemma fmhas_simps [simp]:
  "fmhas (fmupd k v m) k' \<longleftrightarrow> k = k' \<or> fmhas m k'"
  "fmhas (fmdrop k m) k' \<longleftrightarrow> k \<noteq> k' \<and> fmhas m k'"
  "\<not> fmhas fmempty k'"
  by (auto simp: fmhas_def)

lemma keys_of_set [simp]: "set (keys_of m) = fmdom' m"
  by (simp add: keys_of_def fmdom'_alt_def)

lemma keys_of_distinct [simp]: "distinct (keys_of m)"
  by (simp add: keys_of_def sorted_list_of_fset.rep_eq)

lemma fmsum_empty [simp]: "fmsum f fmempty = 0"
  by (simp add: fmsum_def)

lemma fmsum_fmdrop_add:
  assumes "fmlookup m k = Some v"
  shows "fmsum f m = f v + fmsum f (fmdrop k m)"
proof -
  have k: "k \<in> fmdom' m" using assms by (simp add: fmdom'I)
  have "fmsum f m = f v + (\<Sum>x\<in>fmdom' m - {k}. f (the (fmlookup m x)))"
    unfolding fmsum_def using sum.remove [OF _ k, of "\<lambda>x. f (the (fmlookup m x))"] assms by simp
  also have "(\<Sum>x\<in>fmdom' m - {k}. f (the (fmlookup m x))) = fmsum f (fmdrop k m)"
    unfolding fmsum_def by (rule sum.cong) auto
  finally show ?thesis .
qed

lemma fmsum_fmdrop_none: "fmlookup m k = None \<Longrightarrow> fmsum f (fmdrop k m) = fmsum f m"
  by (simp add: fmdrop_idle' fmdom'_notI)

lemma fmsum_fmupd: "fmsum f (fmupd k v m) = f v + fmsum f (fmdrop k m)"
  by (simp add: fmsum_fmdrop_add [of "fmupd k v m" k v] fmdrop_fmupd_same)

text \<open>The two laws every ledger argument uses: an entry counts with its default when it is absent.\<close>

lemma fmsum_upd:
  "f d = 0 \<Longrightarrow> fmsum f (fmupd k v m) = fmsum f m - f (fmfind d m k) + f v"
  by (cases "fmlookup m k")
     (simp_all add: fmsum_fmupd fmsum_fmdrop_none fmfind_def fmsum_fmdrop_add)

lemma fmsum_drop:
  "f d = 0 \<Longrightarrow> fmsum f (fmdrop k m) = fmsum f m - f (fmfind d m k)"
  by (cases "fmlookup m k")
     (simp_all add: fmsum_fmdrop_none fmfind_def fmsum_fmdrop_add)

lemma fmsum_nonneg: "(\<And>v. 0 \<le> f v) \<Longrightarrow> 0 \<le> fmsum f m"
  unfolding fmsum_def by (rule sum_nonneg)

lemma fmsum_find_le:
  assumes "f d = 0" "\<And>v. 0 \<le> f v"
  shows "f (fmfind d m k) \<le> fmsum f m"
  using fmsum_drop [where f = f and d = d and k = k and m = m] fmsum_nonneg [of f "fmdrop k m"] assms
  by simp

lemma fmsum_two_le:
  assumes "f d = 0" "\<And>v. 0 \<le> f v" and "a \<noteq> b"
  shows "f (fmfind d m a) + f (fmfind d m b) \<le> fmsum f m"
  using fmsum_drop [where f = f and d = d and k = a and m = m]
    fmsum_find_le [where f = f and d = d and k = b and m = "fmdrop a m"] assms by simp

lemma fmsum_keys: "fmsum f m = sum_list (map (\<lambda>k. f (the (fmlookup m k))) (keys_of m))"
  by (simp add: fmsum_def sum_list_distinct_conv_sum_set)

lemma uint_u64_bounds [simp]: "0 \<le> uint (x :: u64)" "uint (x :: u64) < 18446744073709551616"
  using unsigned_less [of x, where 'a = int] by simp_all

lemma uint_plus_checked [u64_simps]: "checked_add a b = Some c \<Longrightarrow> uint c = uint a + uint b"
  using arg_cong [OF unat_plus [of a b], of int] by (simp add: checked_add_Some)

lemma uint_minus_le [u64_simps]: "(b :: u64) \<le> a \<Longrightarrow> uint (a - b) = uint a - uint b"
  using arg_cong [OF unat_minus [of b a], of int] by (simp add: word_le_nat_alt of_nat_diff)

lemma uint_sat_add: "uint (sat_add a b) = min (uint a + uint b) (2 ^ 64 - 1)"
  using arg_cong [OF unat_sat_add [of a b], of int] by (simp add: of_nat_min)

lemma uint_sat_add_exact [u64_simps]: "uint a + uint b < 2 ^ 64 \<Longrightarrow> uint (sat_add a b) = uint a + uint b"
  by (simp add: uint_sat_add)

lemma uint_sat_sub_exact [u64_simps]: "b \<le> a \<Longrightarrow> uint (sat_sub a b) = uint a - uint b"
  by (simp add: sat_sub_def uint_minus_le)


section \<open>Loops\<close>

text \<open>\<open>for x in xs { f(x)?; }\<close> over a state.\<close>

fun forE :: "'a list \<Rightarrow> ('a \<Rightarrow> ('s, unit) exec) \<Rightarrow> ('s, unit) exec" where
  "forE [] f = ret ()"
| "forE (x # xs) f = bindE (f x) (\<lambda>_. forE xs f)"

text \<open>
  What a loop body keeps, the loop keeps. A component that runs one operation per element of
  a list (a transaction, an account, a block) interprets this locale on its operation: \<open>inv\<close> is
  kept by every successful step on an admissible element, and no such step panics.
\<close>

locale stepper =
  fixes step :: "'a \<Rightarrow> ('s, unit) exec"
    and admissible :: "'a \<Rightarrow> bool"
    and inv :: "'s \<Rightarrow> bool"
  assumes step_inv: "step x s = (Inr (), t) \<Longrightarrow> admissible x \<Longrightarrow> inv s \<Longrightarrow> inv t"
begin

lemma run_inv: "forE xs step s = (Inr (), t) \<Longrightarrow> list_all admissible xs \<Longrightarrow> inv s \<Longrightarrow> inv t"
  by (induction xs arbitrary: s) (auto simp: exec_ok intro: step_inv)

end

locale total_stepper = stepper +
  assumes step_total: "admissible x \<Longrightarrow> inv s \<Longrightarrow> fst (step x s) = Inr ()"
begin

lemma run_total: "list_all admissible xs \<Longrightarrow> inv s \<Longrightarrow> \<exists>t. forE xs step s = (Inr (), t) \<and> inv t"
proof (induction xs arbitrary: s)
  case Nil
  then show ?case by simp
next
  case (Cons x xs)
  then obtain u where u: "step x s = (Inr (), u)" "inv u"
    using step_total [of x s] step_inv [of x s] by (cases "step x s") auto
  moreover have "list_all admissible xs" using Cons.prems by simp
  ultimately show ?case using Cons.IH [of u] by simp
qed

end

lemma total_stepperI:
  assumes "\<And>x s. admissible x \<Longrightarrow> I s \<Longrightarrow> \<exists>t. step x s = (Inr (), t) \<and> I t"
  shows "total_stepper step admissible I"
proof unfold_locales
  fix x s t
  assume "step x s = (Inr (), t)" "admissible x" "I s"
  with assms [of x s] show "I t" by auto
next
  fix x s
  assume "admissible x" "I s"
  with assms [of x s] show "fst (step x s) = Inr ()" by auto
qed

end
