(* ===== verification/Keys.thy ===== *)
theory Keys
  imports Prelude
begin

text \<open>
  Account and validator keys: \<open>src/src/consensus/pos.rs\<close> (secp256k1 keys, addresses and
  signatures), \<open>pq.rs\<close> (ML-DSA-65), \<open>hybrid.rs\<close> (accounts that need both) and \<open>vrf.rs\<close>.

  The cryptographic crates are not part of the repository: \<open>prims\<close> holds the functions the
  code calls on them, and every definition that needs one takes it as its first argument.
\<close>

record prims =
  sha256 :: "string \<Rightarrow> string"
  lower_hex :: "string \<Rightarrow> string"
  hex_encode :: "string \<Rightarrow> string"
  hex_decode :: "string \<Rightarrow> string + string"
  secp_point :: "string \<Rightarrow> string + string"
  secp_message :: "string \<Rightarrow> string + string"
  secp_compact :: "string \<Rightarrow> string + string"
  secp_verify :: "string \<Rightarrow> string \<Rightarrow> string \<Rightarrow> bool"
  secp_secret :: "string \<Rightarrow> string + string"
  secp_public :: "string \<Rightarrow> string"
  secp_sign :: "string \<Rightarrow> string \<Rightarrow> string"
  mldsa_keygen :: "(nat \<Rightarrow> string option) \<Rightarrow> string + (string \<times> string)"
  mldsa_key :: "string \<Rightarrow> string option"
  mldsa_sign :: "string \<Rightarrow> string \<Rightarrow> string \<Rightarrow> string \<Rightarrow> string + string"
  mldsa_verify :: "string \<Rightarrow> string \<Rightarrow> string \<Rightarrow> string \<Rightarrow> bool"
  sr_secret :: "string \<Rightarrow> string + string"
  sr_public :: "string \<Rightarrow> string"
  sr_vrf_sign :: "string \<Rightarrow> string \<Rightarrow> string \<Rightarrow> string \<times> string"
  sr_key :: "string \<Rightarrow> string option"
  sr_preout :: "string \<Rightarrow> string option"
  sr_proof :: "string \<Rightarrow> string option"
  sr_vrf_verify :: "string \<Rightarrow> string \<Rightarrow> string \<Rightarrow> string \<Rightarrow> string \<Rightarrow> bool"
  debug_wide :: "string \<Rightarrow> string"
  time_debug :: "int \<Rightarrow> string"
  time_rfc3339 :: "int \<Rightarrow> string"

text \<open>
  What the fields are: the SHA-256 digest (32 bytes); \<open>format!("{:x}", digest)\<close>; the \<open>hex\<close> crate; for
  secp256k1, \<open>PublicKey::from_slice\<close> followed by \<open>serialize_uncompressed\<close>,
  \<open>Message::from_digest_slice\<close>, \<open>Signature::from_compact\<close>, \<open>verify_ecdsa\<close> (message, signature, key),
  \<open>SecretKey::from_slice\<close>, \<open>PublicKey::from_secret_key\<close> and \<open>sign_ecdsa(..).serialize_compact()\<close>;
  for \<open>fips204\<close>, \<open>try_keygen_with_rng\<close> (its argument is what the generator answers to a request
  for n bytes; the result is the pair of keys), \<open>PublicKey::try_from_bytes\<close>,
  \<open>try_sign_with_seed\<close> (key, seed, message, context) and \<open>verify\<close> (key, message, signature,
  context); for schnorrkel, \<open>MiniSecretKey::from_bytes\<close>, the public key of the expanded pair,
  \<open>vrf_sign\<close> and the parsers and verifier of the VRF; \<open>debug_wide\<close> is what \<open>{:?}\<close> prints for a run
  of non-ASCII characters; the last two are chrono's printers of a time in nanoseconds since
  the epoch.
\<close>


section \<open>secp256k1 identities (pos.rs)\<close>

definition ADDRESS_PREFIX :: string where
  "ADDRESS_PREFIX = ''hkm''"

definition MESSAGE_PREFIX :: string where
  "MESSAGE_PREFIX = CHR 0x19 # ''Hikmalayer Signed Message:'' @ [CHR 0x0A]"

definition canonical_public_key :: "'x prims_scheme \<Rightarrow> string \<Rightarrow> string outcome" where
  "canonical_public_key L public_key_hex =
     bindR (from_lib (hex_decode L public_key_hex)) (\<lambda>bytes.
     bindR (from_lib (secp_point L bytes)) (\<lambda>point.
     if hex_encode L point \<noteq> public_key_hex
     then Inl (Err ''public key must be the canonical uncompressed form (04 + 128 lower-case hex              characters)'')
     else Inr point))"

definition is_canonical_public_key :: "'x prims_scheme \<Rightarrow> string \<Rightarrow> bool" where
  "is_canonical_public_key L public_key_hex = is_ok (canonical_public_key L public_key_hex)"

definition derive_address :: "'x prims_scheme \<Rightarrow> string \<Rightarrow> string outcome" where
  "derive_address L public_key_hex =
     bindR (canonical_public_key L public_key_hex) (\<lambda>point.
     Inr (ADDRESS_PREFIX @ hex_encode L (take 20 (sha256 L point))))"

definition derive_public_key :: "'x prims_scheme \<Rightarrow> string \<Rightarrow> string outcome" where
  "derive_public_key L private_key_hex =
     bindR (from_lib (hex_decode L private_key_hex)) (\<lambda>secret_key_bytes.
     bindR (from_lib (secp_secret L secret_key_bytes)) (\<lambda>secret_key.
     Inr (hex_encode L (secp_public L secret_key))))"

definition sign_digest :: "'x prims_scheme \<Rightarrow> string \<Rightarrow> string \<Rightarrow> string outcome" where
  "sign_digest L digest private_key_hex =
     bindR (from_lib (secp_message L digest)) (\<lambda>message.
     bindR (from_lib (hex_decode L private_key_hex)) (\<lambda>secret_key_bytes.
     bindR (from_lib (secp_secret L secret_key_bytes)) (\<lambda>secret_key.
     Inr (hex_encode L (secp_sign L message secret_key)))))"

definition verify_digest :: "'x prims_scheme \<Rightarrow> string \<Rightarrow> string \<Rightarrow> string \<Rightarrow> bool" where
  "verify_digest L digest public_key_hex signature_hex =
     (case secp_message L digest of Inl _ \<Rightarrow> False | Inr message \<Rightarrow>
      case hex_decode L signature_hex of Inl _ \<Rightarrow> False | Inr signature_bytes \<Rightarrow>
      case secp_compact L signature_bytes of Inl _ \<Rightarrow> False | Inr signature \<Rightarrow>
      case hex_decode L public_key_hex of Inl _ \<Rightarrow> False | Inr public_key_bytes \<Rightarrow>
      case secp_point L public_key_bytes of Inl _ \<Rightarrow> False | Inr public_key \<Rightarrow>
      secp_verify L message signature public_key)"

definition sign_block_hash :: "'x prims_scheme \<Rightarrow> string \<Rightarrow> string \<Rightarrow> string outcome" where
  "sign_block_hash L block_hash private_key_hex =
     bindR (from_lib (hex_decode L block_hash)) (\<lambda>hash_bytes. sign_digest L hash_bytes private_key_hex)"

definition verify_block_signature :: "'x prims_scheme \<Rightarrow> string \<Rightarrow> string \<Rightarrow> string \<Rightarrow> bool" where
  "verify_block_signature L block_hash public_key_hex signature_hex =
     (case hex_decode L block_hash of Inl _ \<Rightarrow> False
      | Inr hash_bytes \<Rightarrow> verify_digest L hash_bytes public_key_hex signature_hex)"

definition message_digest :: "'x prims_scheme \<Rightarrow> string \<Rightarrow> string" where
  "message_digest L message = sha256 L (MESSAGE_PREFIX @ dec_string (length message) @ message)"

definition sign_message :: "'x prims_scheme \<Rightarrow> string \<Rightarrow> string \<Rightarrow> string outcome" where
  "sign_message L message private_key_hex = sign_digest L (message_digest L message) private_key_hex"

definition verify_message :: "'x prims_scheme \<Rightarrow> string \<Rightarrow> string \<Rightarrow> string \<Rightarrow> bool" where
  "verify_message L message public_key_hex signature_hex =
     verify_digest L (message_digest L message) public_key_hex signature_hex"


section \<open>ML-DSA-65 (pq.rs)\<close>

definition PQ_PUBLIC_KEY_LEN :: nat where "PQ_PUBLIC_KEY_LEN = 1952"
definition PQ_SIGNATURE_LEN :: nat where "PQ_SIGNATURE_LEN = 3309"
definition PQ_SEED_DOMAIN :: string where "PQ_SEED_DOMAIN = ''hikmalayer-pq-key-v1''"
definition PQ_SIGN_DOMAIN :: string where "PQ_SIGN_DOMAIN = ''hikmalayer-pq-sign-v1''"
definition PQ_CONTEXT :: string where "PQ_CONTEXT = ''hikmalayer''"
definition PQ_BLOCK_DOMAIN :: string where "PQ_BLOCK_DOMAIN = ''hikmalayer-pq-block-v1:''"

text \<open>\<open>SeedRng::try_fill_bytes\<close>: the answer to a request for \<open>n\<close> random bytes.\<close>

definition seed_rng :: "string \<Rightarrow> nat \<Rightarrow> string option" where
  "seed_rng seed n = (if n \<noteq> length seed then None else Some seed)"

definition digest32 :: "'x prims_scheme \<Rightarrow> string \<Rightarrow> string list \<Rightarrow> string" where
  "digest32 L domain parts = sha256 L (domain @ concat parts)"

definition decode_hex :: "'x prims_scheme \<Rightarrow> string \<Rightarrow> string \<Rightarrow> string outcome" where
  "decode_hex L value what =
     map_err (\<lambda>_. what @ '' is not valid hex'') (from_lib (hex_decode L (trim value)))"

definition derive_pq_seed :: "'x prims_scheme \<Rightarrow> string \<Rightarrow> string outcome" where
  "derive_pq_seed L master_secret_hex =
     bindR (decode_hex L master_secret_hex ''private key'') (\<lambda>master.
     if length master \<noteq> 32 then Inl (Err ''private key must be 32 bytes'')
     else Inr (digest32 L PQ_SEED_DOMAIN [master]))"

definition pq_keypair :: "'x prims_scheme \<Rightarrow> string \<Rightarrow> (string \<times> string) outcome" where
  "pq_keypair L master_secret_hex =
     bindR (derive_pq_seed L master_secret_hex) (\<lambda>seed.
     map_err (\<lambda>err. ''ML-DSA key generation failed: '' @ err)
       (from_lib (mldsa_keygen L (seed_rng seed))))"

definition derive_pq_public_key :: "'x prims_scheme \<Rightarrow> string \<Rightarrow> string outcome" where
  "derive_pq_public_key L master_secret_hex =
     bindR (pq_keypair L master_secret_hex) (\<lambda>(public_key, _). Inr (hex_encode L public_key))"

definition pq_sign_message :: "'x prims_scheme \<Rightarrow> string \<Rightarrow> string \<Rightarrow> string outcome" where
  "pq_sign_message L message master_secret_hex =
     bindR (pq_keypair L master_secret_hex) (\<lambda>(_, private_key).
     bindR (derive_pq_seed L master_secret_hex) (\<lambda>pq_seed.
     let seed = digest32 L PQ_SIGN_DOMAIN [pq_seed, message] in
     bindR (map_err (\<lambda>err. ''ML-DSA signing failed: '' @ err)
              (from_lib (mldsa_sign L private_key seed message PQ_CONTEXT))) (\<lambda>signature.
     Inr (hex_encode L signature))))"

definition pq_verify_message :: "'x prims_scheme \<Rightarrow> string \<Rightarrow> string \<Rightarrow> string \<Rightarrow> bool" where
  "pq_verify_message L message public_key_hex signature_hex =
     (case decode_hex L public_key_hex ''public key'' of Inl _ \<Rightarrow> False | Inr public_bytes \<Rightarrow>
      case decode_hex L signature_hex ''signature'' of Inl _ \<Rightarrow> False | Inr signature_bytes \<Rightarrow>
      if length public_bytes \<noteq> PQ_PUBLIC_KEY_LEN then False
      else if length signature_bytes \<noteq> PQ_SIGNATURE_LEN then False
      else (case mldsa_key L public_bytes of None \<Rightarrow> False
            | Some public_key \<Rightarrow> mldsa_verify L public_key message signature_bytes PQ_CONTEXT))"

definition canonical_pq_public_key :: "'x prims_scheme \<Rightarrow> string \<Rightarrow> string outcome" where
  "canonical_pq_public_key L value =
     bindR (decode_hex L value ''post-quantum public key'') (\<lambda>bytes.
     if length bytes \<noteq> PQ_PUBLIC_KEY_LEN
     then Inl (Err ''post-quantum public key is not a valid ML-DSA-65 key'')
     else if hex_encode L bytes \<noteq> value
     then Inl (Err ''post-quantum public key must be lower-case hex with no leading or trailing space'')
     else Inr bytes)"

definition is_valid_pq_public_key :: "'x prims_scheme \<Rightarrow> string \<Rightarrow> bool" where
  "is_valid_pq_public_key L value = is_ok (canonical_pq_public_key L value)"

definition pq_sign_block_hash :: "'x prims_scheme \<Rightarrow> string \<Rightarrow> string \<Rightarrow> string outcome" where
  "pq_sign_block_hash L block_hash master_secret_hex =
     pq_sign_message L (PQ_BLOCK_DOMAIN @ block_hash) master_secret_hex"

definition pq_verify_block_signature :: "'x prims_scheme \<Rightarrow> string \<Rightarrow> string \<Rightarrow> string \<Rightarrow> bool" where
  "pq_verify_block_signature L block_hash pq_public_key_hex signature_hex =
     pq_verify_message L (PQ_BLOCK_DOMAIN @ block_hash) pq_public_key_hex signature_hex"


section \<open>Hybrid accounts (hybrid.rs)\<close>

definition HYBRID_ADDRESS_PREFIX :: string where "HYBRID_ADDRESS_PREFIX = ''hkq''"
definition HYBRID_ADDRESS_DOMAIN :: string where "HYBRID_ADDRESS_DOMAIN = ''hikmalayer-hybrid-address-v1''"

datatype account_scheme = Classical | Hybrid

text \<open>\<open>is_ascii_hexdigit() && !is_ascii_uppercase()\<close>.\<close>

definition hex_lower_char :: "char \<Rightarrow> bool" where
  "hex_lower_char c \<longleftrightarrow> (let n = (of_char c :: nat) in (48 \<le> n \<and> n \<le> 57) \<or> (97 \<le> n \<and> n \<le> 102))"

definition scheme_of :: "string \<Rightarrow> account_scheme option" where
  "scheme_of address =
     (if length address \<noteq> 43 then None
      else case strip_prefix HYBRID_ADDRESS_PREFIX address of
        Some rest \<Rightarrow> if list_all hex_lower_char rest then Some Hybrid else None
      | None \<Rightarrow>
         (case strip_prefix ADDRESS_PREFIX address of
            Some rest \<Rightarrow> if list_all hex_lower_char rest then Some Classical else None
          | None \<Rightarrow> None))"

definition is_hybrid_address :: "string \<Rightarrow> bool" where
  "is_hybrid_address address \<longleftrightarrow> scheme_of address = Some Hybrid"

definition derive_hybrid_address :: "'x prims_scheme \<Rightarrow> string \<Rightarrow> string \<Rightarrow> string outcome" where
  "derive_hybrid_address L classical_public_key_hex pq_public_key_hex =
     bindR (map_err (\<lambda>err. ''classical public key is not canonical: '' @ err)
              (canonical_public_key L (trim classical_public_key_hex))) (\<lambda>uncompressed.
     bindR (canonical_pq_public_key L (trim pq_public_key_hex)) (\<lambda>pq_bytes.
     Inr (HYBRID_ADDRESS_PREFIX
          @ hex_encode L (take 20 (sha256 L (HYBRID_ADDRESS_DOMAIN @ uncompressed @ pq_bytes))))))"

record hybrid_identity =
  hi_address :: string
  hi_public_key :: string
  hi_pq_public_key :: string

definition derive_identity :: "'x prims_scheme \<Rightarrow> string \<Rightarrow> hybrid_identity outcome" where
  "derive_identity L master_secret_hex =
     bindR (derive_public_key L master_secret_hex) (\<lambda>public_key.
     bindR (derive_pq_public_key L master_secret_hex) (\<lambda>pq_public_key.
     bindR (derive_hybrid_address L public_key pq_public_key) (\<lambda>address.
     Inr \<lparr>hi_address = address, hi_public_key = public_key, hi_pq_public_key = pq_public_key\<rparr>)))"

record hybrid_signature =
  hs_signature :: string
  hs_pq_signature :: string

definition hybrid_sign_message :: "'x prims_scheme \<Rightarrow> string \<Rightarrow> string \<Rightarrow> hybrid_signature outcome" where
  "hybrid_sign_message L message master_secret_hex =
     bindR (sign_message L message master_secret_hex) (\<lambda>signature.
     bindR (pq_sign_message L message master_secret_hex) (\<lambda>pq_signature.
     Inr \<lparr>hs_signature = signature, hs_pq_signature = pq_signature\<rparr>))"

definition verify_hybrid ::
  "'x prims_scheme \<Rightarrow> string \<Rightarrow> string \<Rightarrow> string \<Rightarrow> string \<Rightarrow> string \<Rightarrow> string \<Rightarrow> unit outcome" where
  "verify_hybrid L address message classical_public_key_hex pq_public_key_hex signature_hex pq_signature_hex =
     bindR (derive_hybrid_address L classical_public_key_hex pq_public_key_hex) (\<lambda>derived.
     bindR (require (derived = address) ''Sender address does not match the hybrid key pair'') (\<lambda>_.
     bindR (require (verify_message L message classical_public_key_hex signature_hex)
              ''Classical signature verification failed'') (\<lambda>_.
     require (pq_verify_message L message pq_public_key_hex pq_signature_hex)
       ''Post-quantum signature verification failed'')))"


section \<open>Verifiable randomness (vrf.rs)\<close>

definition VRF_CONTEXT :: string where "VRF_CONTEXT = ''hikmalayer-vrf''"

definition keypair_from_secret :: "'x prims_scheme \<Rightarrow> string \<Rightarrow> string outcome" where
  "keypair_from_secret L private_key_hex =
     bindR (from_lib (hex_decode L private_key_hex)) (\<lambda>bytes.
     map_err (\<lambda>err. ''invalid VRF secret: '' @ err) (from_lib (sr_secret L bytes)))"

definition derive_vrf_public_key :: "'x prims_scheme \<Rightarrow> string \<Rightarrow> string outcome" where
  "derive_vrf_public_key L private_key_hex =
     bindR (keypair_from_secret L private_key_hex) (\<lambda>keypair.
     Inr (hex_encode L (sr_public L keypair)))"

definition vrf_prove :: "'x prims_scheme \<Rightarrow> string \<Rightarrow> string \<Rightarrow> (string \<times> string) outcome" where
  "vrf_prove L input private_key_hex =
     bindR (keypair_from_secret L private_key_hex) (\<lambda>keypair.
     let (preout, proof) = sr_vrf_sign L keypair VRF_CONTEXT input in
     Inr (hex_encode L preout, hex_encode L proof))"

definition vrf_verify :: "'x prims_scheme \<Rightarrow> string \<Rightarrow> string \<Rightarrow> string \<Rightarrow> string \<Rightarrow> bool" where
  "vrf_verify L input vrf_public_key_hex output_hex proof_hex =
     (case hex_decode L vrf_public_key_hex of Inl _ \<Rightarrow> False | Inr public_bytes \<Rightarrow>
      case sr_key L public_bytes of None \<Rightarrow> False | Some public \<Rightarrow>
      case hex_decode L output_hex of Inl _ \<Rightarrow> False | Inr output_bytes \<Rightarrow>
      case sr_preout L output_bytes of None \<Rightarrow> False | Some preout \<Rightarrow>
      case hex_decode L proof_hex of Inl _ \<Rightarrow> False | Inr proof_bytes \<Rightarrow>
      case sr_proof L proof_bytes of None \<Rightarrow> False | Some vrf_proof \<Rightarrow>
      sr_vrf_verify L public VRF_CONTEXT input preout vrf_proof)"

definition slot_input :: "string \<Rightarrow> u64 \<Rightarrow> string" where
  "slot_input parent_randomness height = parent_randomness @ '':'' @ show_u64 height"

definition slot_input_at_round :: "string \<Rightarrow> u64 \<Rightarrow> u64 \<Rightarrow> string" where
  "slot_input_at_round parent_randomness height rnd =
     (if rnd = 0 then slot_input parent_randomness height
      else parent_randomness @ '':'' @ show_u64 height @ '':'' @ show_u64 rnd)"

definition next_randomness :: "'x prims_scheme \<Rightarrow> string \<Rightarrow> string \<Rightarrow> string" where
  "next_randomness L parent_randomness vrf_output_hex =
     lower_hex L (sha256 L (parent_randomness @ vrf_output_hex))"


section \<open>Facts about keys\<close>

lemma scheme_of_cases:
  "scheme_of a =
     (if length a = 43 \<and> list_all hex_lower_char (drop 3 a)
      then (if take 3 a = ''hkq'' then Some Hybrid
            else if take 3 a = ''hkm'' then Some Classical else None)
      else None)"
  by (simp add: scheme_of_def HYBRID_ADDRESS_PREFIX_def ADDRESS_PREFIX_def strip_prefix_def
      starts_with_def numeral_3_eq_3)

lemma split_prefix_iff:
  "length p = 3 \<Longrightarrow>
     length a = 43 \<and> P (drop 3 a) \<and> take 3 a = p \<longleftrightarrow> (\<exists>r. a = p @ r \<and> length r = 40 \<and> P r)"
  by (safe; (rule exI [of _ "drop 3 a"])?) (auto simp: append_take_drop_id)

lemma scheme_of_Hybrid_iff:
  "scheme_of a = Some Hybrid \<longleftrightarrow> (\<exists>r. a = ''hkq'' @ r \<and> length r = 40 \<and> list_all hex_lower_char r)"
  by (subst split_prefix_iff [symmetric]) (auto simp: scheme_of_cases)

lemma scheme_of_Classical_iff:
  "scheme_of a = Some Classical \<longleftrightarrow> (\<exists>r. a = ''hkm'' @ r \<and> length r = 40 \<and> list_all hex_lower_char r)"
  by (subst split_prefix_iff [symmetric]) (auto simp: scheme_of_cases)

text \<open>An address holds no colon, so the \<open>"{}:{}"\<close> messages built from addresses split uniquely.\<close>

lemma colon_not_hex [simp]: "\<not> hex_lower_char CHR '':''"
  by (simp add: hex_lower_char_def)

lemma scheme_of_no_colon: "scheme_of a = Some s \<Longrightarrow> CHR '':'' \<notin> set a"
  using colon_not_hex
  by (cases s) (auto simp: scheme_of_Hybrid_iff scheme_of_Classical_iff list_all_iff simp del: colon_not_hex)

lemma verify_hybrid_ok:
  "verify_hybrid L address message pk pq sg pqs = Inr () \<longleftrightarrow>
     derive_hybrid_address L pk pq = Inr address \<and> verify_message L message pk sg
     \<and> pq_verify_message L message pq pqs"
  by (auto simp: verify_hybrid_def exec_ok)

lemma canonical_public_key_no_panic [exec_panic]: "canonical_public_key L pk \<noteq> Inl Panic"
  by (auto simp: canonical_public_key_def exec_panic)

lemma derive_address_no_panic [exec_panic]: "derive_address L pk \<noteq> Inl Panic"
  by (auto simp: derive_address_def exec_panic)

lemma decode_hex_no_panic [exec_panic]: "decode_hex L v w \<noteq> Inl Panic"
  by (auto simp: decode_hex_def exec_panic)

lemma canonical_pq_public_key_no_panic [exec_panic]: "canonical_pq_public_key L pk \<noteq> Inl Panic"
  by (auto simp: canonical_pq_public_key_def exec_panic)

lemma derive_hybrid_address_no_panic [exec_panic]: "derive_hybrid_address L pk pq \<noteq> Inl Panic"
  by (auto simp: derive_hybrid_address_def exec_panic)

lemma verify_hybrid_no_panic [exec_panic]: "verify_hybrid L a m pk pq sg pqs \<noteq> Inl Panic"
  by (auto simp: verify_hybrid_def exec_panic)

end
