(* ===== verification/Block.thy ===== *)
theory Block
  imports Keys
begin

text \<open>
  Blocks and proof of work: \<open>src/src/blockchain/block.rs\<close> and \<open>src/src/consensus/pow.rs\<close>.
  A time is a number of nanoseconds since the epoch; \<open>usize\<close> is 64 bits wide.

  The lemmas show that mining stops (with the least nonce that works, or with the panic of
  the nonce's overflow), that a built block passes the checks made on blocks, and how far
  the Merkle root pins the list of transactions.
\<close>


section \<open>Proof of work (pow.rs)\<close>

definition MIN_DIFFICULTY :: u64 where "MIN_DIFFICULTY = 1"
definition MAX_DIFFICULTY :: u64 where "MAX_DIFFICULTY = 5"

definition clamp_difficulty :: "u64 \<Rightarrow> u64" where
  "clamp_difficulty difficulty = clampW MIN_DIFFICULTY MAX_DIFFICULTY difficulty"

definition is_difficulty_in_bounds :: "u64 \<Rightarrow> bool" where
  "is_difficulty_in_bounds difficulty \<longleftrightarrow> MIN_DIFFICULTY \<le> difficulty \<and> difficulty \<le> MAX_DIFFICULTY"

text \<open>\<open>16u128.saturating_pow(difficulty as u32)\<close>.\<close>

definition work_for_difficulty :: "u64 \<Rightarrow> nat" where
  "work_for_difficulty difficulty = min (16 ^ unat (ucast difficulty :: 32 word)) (2 ^ 128 - 1)"

definition leading_zeros :: "u64 \<Rightarrow> string \<Rightarrow> bool" where
  "leading_zeros difficulty hash \<longleftrightarrow> starts_with (replicate (unat difficulty) CHR ''0'') hash"

definition candidate_hash :: "'x prims_scheme \<Rightarrow> string \<Rightarrow> u64 \<Rightarrow> string" where
  "candidate_hash L data nonce = lower_hex L (sha256 L (data @ show_u64 nonce))"

lemma unat_succ: "w \<noteq> u64_max \<Longrightarrow> unat (w + 1) = unat w + 1"
proof -
  assume "w \<noteq> u64_max"
  then have "unat w \<noteq> 18446744073709551615" by (simp add: word_unat_eq_iff)
  then have "unat w + 1 < 18446744073709551616" using unat_u64_less [of w] by linarith
  then show ?thesis by (simp add: unat_plus)
qed

text \<open>The mining loop, entered with \<open>nonce\<close>; \<open>nonce += 1\<close> panics at the top of the range.\<close>

function mine_from :: "'x prims_scheme \<Rightarrow> string \<Rightarrow> u64 \<Rightarrow> u64 \<Rightarrow> (u64 \<times> string) outcome" where
  "mine_from L data difficulty nonce =
     (let hash = candidate_hash L data nonce in
      if leading_zeros difficulty hash then Inr (nonce, hash)
      else if nonce = u64_max then Inl Panic
      else mine_from L data difficulty (nonce + 1))"
  by pat_completeness auto

text \<open>The number of nonces left is the measure.\<close>

termination
proof (relation "measure (\<lambda>(L, data, d, n). 2 ^ 64 - unat n)", goal_cases)
  case (2 L data d n h)
  then show ?case using unat_u64_less [of n] unat_succ [of n] by (simp del: unat_u64_less)
qed simp

declare mine_from.simps [simp del]

definition mine_block :: "'x prims_scheme \<Rightarrow> string \<Rightarrow> u64 \<Rightarrow> (u64 \<times> string) outcome" where
  "mine_block L data difficulty = mine_from L data (clamp_difficulty difficulty) 0"


section \<open>The Merkle root (block.rs)\<close>

definition GENESIS_TIMESTAMP :: int where "GENESIS_TIMESTAMP = 1767225600"
definition GENESIS_DATA :: string where "GENESIS_DATA = ''Hikmalayer Genesis Block''"

definition sha256_hex :: "'x prims_scheme \<Rightarrow> string \<Rightarrow> string" where
  "sha256_hex L data = lower_hex L (sha256 L data)"

text \<open>One pass of the loop: the layer in pairs, an odd node paired with itself.\<close>

fun merkle_layer :: "'x prims_scheme \<Rightarrow> string list \<Rightarrow> string list" where
  "merkle_layer L [] = []"
| "merkle_layer L [left] = [sha256_hex L (left @ left)]"
| "merkle_layer L (left # right # rest) = sha256_hex L (left @ right) # merkle_layer L rest"

lemma length_merkle_layer [simp]: "length (merkle_layer L xs) = (length xs + 1) div 2"
  by (induction L xs rule: merkle_layer.induct) auto

function merkle_up :: "'x prims_scheme \<Rightarrow> string list \<Rightarrow> string list" where
  "merkle_up L layer = (if 1 < length layer then merkle_up L (merkle_layer L layer) else layer)"
  by pat_completeness auto
termination
  by (relation "measure (\<lambda>(L, layer). length layer)") auto

declare merkle_up.simps [simp del]

definition compute_merkle_root :: "'x prims_scheme \<Rightarrow> string list \<Rightarrow> string" where
  "compute_merkle_root L transactions =
     (if transactions = [] then sha256_hex L []
      else hd (merkle_up L (map (sha256_hex L) transactions)))"


section \<open>Blocks\<close>

record block =
  blk_index :: u64
  blk_timestamp :: int
  blk_transactions :: "string list"
  blk_merkle_root :: string
  blk_state_root :: string
  blk_previous_hash :: string
  blk_difficulty :: u64
  blk_nonce :: u64
  blk_hash :: string
  blk_validator :: "string option"
  blk_validator_public_key :: "string option"
  blk_validator_signature :: "string option"
  blk_validator_pq_signature :: "string option"
  blk_vrf_output :: "string option"
  blk_vrf_proof :: "string option"

text \<open>
  \<open>{:?}\<close> of a text: quotes around it, \<open>\0\<close>, \<open>\t\<close>, \<open>\n\<close>, \<open>\r\<close>, \<open>\"\<close> and \<open>\\\<close> escaped, the other
  control characters as \<open>\u{..}\<close>; a run of non-ASCII characters is printed by \<open>debug_wide\<close>.
\<close>

definition hex_digit :: "nat \<Rightarrow> char" where
  "hex_digit n = (if n < 10 then char_of (48 + n) else char_of (87 + n))"

definition escape_ascii :: "char \<Rightarrow> string" where
  "escape_ascii c =
     (let n = (of_char c :: nat) in
      if n = 0 then [CHR 0x5C, CHR ''0''] else if n = 9 then [CHR 0x5C, CHR ''t'']
      else if n = 10 then [CHR 0x5C, CHR ''n''] else if n = 13 then [CHR 0x5C, CHR ''r'']
      else if n = 34 \<or> n = 92 then [CHR 0x5C, c]
      else if n < 16 then [CHR 0x5C, CHR ''u'', CHR ''{'', hex_digit n, CHR ''}'']
      else if n < 32 \<or> n = 127
      then [CHR 0x5C, CHR ''u'', CHR ''{'', hex_digit (n div 16), hex_digit (n mod 16), CHR ''}'']
      else [c])"

definition is_wide :: "char \<Rightarrow> bool" where
  "is_wide c \<longleftrightarrow> 128 \<le> (of_char c :: nat)"

function debug_body :: "'x prims_scheme \<Rightarrow> string \<Rightarrow> string" where
  "debug_body L [] = []"
| "debug_body L (c # cs) =
     (if is_wide c then debug_wide L (c # takeWhile is_wide cs) @ debug_body L (dropWhile is_wide cs)
      else escape_ascii c @ debug_body L cs)"
  by pat_completeness auto
termination
  by (relation "measure (\<lambda>(L, s). length s)") (auto simp: less_Suc_eq_le length_dropWhile_le)

definition debug_option :: "'x prims_scheme \<Rightarrow> string option \<Rightarrow> string" where
  "debug_option L v =
     (case v of None \<Rightarrow> ''None''
      | Some s \<Rightarrow> ''Some('' @ [CHR 0x22] @ debug_body L s @ [CHR 0x22] @ '')'')"

definition hash_payload ::
  "'x prims_scheme \<Rightarrow> u64 \<Rightarrow> string \<Rightarrow> string \<Rightarrow> int \<Rightarrow> string option \<Rightarrow> string option \<Rightarrow> string \<Rightarrow> string" where
  "hash_payload L index merkle_root state_root timestamp validator validator_public_key previous_hash =
     show_u64 index @ merkle_root @ state_root @ time_debug L timestamp @ debug_option L validator
     @ debug_option L validator_public_key @ previous_hash"

text \<open>\<open>Block::new\<close> is \<open>new_at\<close> with \<open>timestamp\<close> set to \<open>Utc::now()\<close>.\<close>

definition new_at ::
  "'x prims_scheme \<Rightarrow> int \<Rightarrow> u64 \<Rightarrow> string list \<Rightarrow> string \<Rightarrow> u64 \<Rightarrow> string option \<Rightarrow> string option
   \<Rightarrow> string option \<Rightarrow> string \<Rightarrow> block outcome" where
  "new_at L timestamp index transactions previous_hash difficulty0 validator validator_public_key
     validator_signature state_root =
     (let difficulty = clamp_difficulty difficulty0;
          merkle_root = compute_merkle_root L transactions;
          data = hash_payload L index merkle_root state_root timestamp validator
                   validator_public_key previous_hash
      in bindR (mine_block L data difficulty) (\<lambda>(nonce, hash).
         Inr \<lparr>blk_index = index, blk_timestamp = timestamp, blk_transactions = transactions,
              blk_merkle_root = merkle_root, blk_state_root = state_root,
              blk_previous_hash = previous_hash, blk_difficulty = difficulty, blk_nonce = nonce,
              blk_hash = hash, blk_validator = validator,
              blk_validator_public_key = validator_public_key,
              blk_validator_signature = validator_signature,
              blk_validator_pq_signature = None, blk_vrf_output = None, blk_vrf_proof = None\<rparr>))"

definition genesis_block :: "'x prims_scheme \<Rightarrow> u64 \<Rightarrow> string \<Rightarrow> block outcome" where
  "genesis_block L difficulty state_root =
     new_at L (GENESIS_TIMESTAMP * 1000000000) 0 [GENESIS_DATA] ''0'' difficulty None None None state_root"

definition calculate_hash :: "'x prims_scheme \<Rightarrow> block \<Rightarrow> string" where
  "calculate_hash L b =
     sha256_hex L
       (hash_payload L (blk_index b) (blk_merkle_root b) (blk_state_root b) (blk_timestamp b)
          (blk_validator b) (blk_validator_public_key b) (blk_previous_hash b) @ show_u64 (blk_nonce b))"

definition has_valid_merkle_root :: "'x prims_scheme \<Rightarrow> block \<Rightarrow> bool" where
  "has_valid_merkle_root L b \<longleftrightarrow> blk_merkle_root b = compute_merkle_root L (blk_transactions b)"

definition has_valid_pow :: "'x prims_scheme \<Rightarrow> block \<Rightarrow> bool" where
  "has_valid_pow L b \<longleftrightarrow>
     is_difficulty_in_bounds (blk_difficulty b) \<and> blk_hash b = calculate_hash L b
     \<and> leading_zeros (blk_difficulty b) (blk_hash b)"


section \<open>Mining\<close>

lemma u64_le_step:
  assumes "n \<noteq> u64_max"
  shows "n \<le> m \<longleftrightarrow> n = m \<or> n + 1 \<le> m"
  using unat_succ [OF assms] by (auto simp: word_le_nat_alt word_unat_eq_iff)

lemma u64_le_max: "u64_max \<le> m \<longleftrightarrow> m = u64_max"
  using unat_u64_less [of m] by (auto simp: word_le_nat_alt word_unat_eq_iff simp del: unat_u64_less)

lemma mine_from_ok:
  "mine_from L data d n = Inr (m, h) \<longleftrightarrow>
     n \<le> m \<and> h = candidate_hash L data m \<and> leading_zeros d h
     \<and> (\<forall>k. n \<le> k \<and> k < m \<longrightarrow> \<not> leading_zeros d (candidate_hash L data k))"
proof (induction L data d n rule: mine_from.induct)
  case (1 L data d n)
  consider (hit) "leading_zeros d (candidate_hash L data n)"
    | (out) "\<not> leading_zeros d (candidate_hash L data n)" "n = u64_max"
    | (more) "\<not> leading_zeros d (candidate_hash L data n)" "n \<noteq> u64_max" by blast
  then show ?case
  proof cases
    case hit
    then show ?thesis
      by (subst mine_from.simps) (auto simp: order.order_iff_strict)
  next
    case out
    then show ?thesis
      by (subst mine_from.simps) (auto simp: u64_le_max)
  next
    case more
    have up: "n \<le> k \<longleftrightarrow> k = n \<or> n + 1 \<le> k" for k
      using u64_le_step [OF more(2), of k] by auto
    from more 1 [OF refl more] show ?thesis
      by (subst mine_from.simps) (use up in auto)
  qed
qed

lemma mine_from_fails:
  "mine_from L data d n = Inl e \<longleftrightarrow>
     e = Panic \<and> (\<forall>k. n \<le> k \<longrightarrow> \<not> leading_zeros d (candidate_hash L data k))"
proof (induction L data d n rule: mine_from.induct)
  case (1 L data d n)
  consider (hit) "leading_zeros d (candidate_hash L data n)"
    | (out) "\<not> leading_zeros d (candidate_hash L data n)" "n = u64_max"
    | (more) "\<not> leading_zeros d (candidate_hash L data n)" "n \<noteq> u64_max" by blast
  then show ?case
  proof cases
    case hit
    then show ?thesis by (subst mine_from.simps) auto
  next
    case out
    then show ?thesis by (subst mine_from.simps) (auto simp: u64_le_max)
  next
    case more
    have up: "n \<le> k \<longleftrightarrow> k = n \<or> n + 1 \<le> k" for k
      using u64_le_step [OF more(2), of k] by auto
    from more 1 [OF refl more] show ?thesis
      by (subst mine_from.simps) (use up in auto)
  qed
qed

lemma clamp_difficulty_in_bounds [simp]: "is_difficulty_in_bounds (clamp_difficulty d)"
  by (simp add: is_difficulty_in_bounds_def clamp_difficulty_def MIN_DIFFICULTY_def MAX_DIFFICULTY_def
      clampW_bounds)

lemma clamp_difficulty_id: "is_difficulty_in_bounds d \<Longrightarrow> clamp_difficulty d = d"
  by (auto simp: is_difficulty_in_bounds_def clamp_difficulty_def clampW_def)

lemma clamp_difficulty_idem [simp]: "clamp_difficulty (clamp_difficulty d) = clamp_difficulty d"
  by (simp add: clamp_difficulty_id)

lemma mine_block_ok:
  "mine_block L data d = Inr (m, h) \<longleftrightarrow>
     h = candidate_hash L data m \<and> leading_zeros (clamp_difficulty d) h
     \<and> (\<forall>k < m. \<not> leading_zeros (clamp_difficulty d) (candidate_hash L data k))"
  by (auto simp: mine_block_def mine_from_ok)

lemma new_at_valid:
  assumes "new_at L ts i txs prev d v vk sg root = Inr b"
  shows "has_valid_pow L b \<and> has_valid_merkle_root L b \<and> blk_difficulty b = clamp_difficulty d"
  using assms
  by (auto simp: new_at_def Let_def exec_ok mine_block_ok has_valid_pow_def has_valid_merkle_root_def
      calculate_hash_def candidate_hash_def sha256_hex_def)

lemma new_at_fields:
  assumes "new_at L ts i txs prev d v vk sg root = Inr b"
  shows "blk_index b = i" "blk_timestamp b = ts" "blk_transactions b = txs" "blk_state_root b = root"
    "blk_previous_hash b = prev" "blk_validator b = v" "blk_validator_public_key b = vk"
    "blk_validator_signature b = sg" "blk_vrf_output b = None"
  using assms by (auto simp: new_at_def Let_def exec_ok)


section \<open>What the Merkle root commits to\<close>

text \<open>The texts hashed on the way to the root: the pairs of one layer, then every layer.\<close>

fun layer_inputs :: "string list \<Rightarrow> string list" where
  "layer_inputs [] = []"
| "layer_inputs [left] = [left @ left]"
| "layer_inputs (left # right # rest) = (left @ right) # layer_inputs rest"

lemma merkle_layer_inputs: "merkle_layer L xs = map (sha256_hex L) (layer_inputs xs)"
  by (induction xs rule: layer_inputs.induct) simp_all

lemma length_layer_inputs [simp]: "length (layer_inputs xs) = (length xs + 1) div 2"
  by (induction xs rule: layer_inputs.induct) auto

function merkle_nodes :: "'x prims_scheme \<Rightarrow> string list \<Rightarrow> string list" where
  "merkle_nodes L layer =
     (if 1 < length layer then layer_inputs layer @ merkle_nodes L (merkle_layer L layer) else [])"
  by pat_completeness auto
termination
  by (relation "measure (\<lambda>(L, layer). length layer)") auto

declare merkle_nodes.simps [simp del]

definition merkle_inputs :: "'x prims_scheme \<Rightarrow> string list \<Rightarrow> string list" where
  "merkle_inputs L txs = txs @ merkle_nodes L (map (sha256_hex L) txs)"

lemma layer_inputs_inj:
  "layer_inputs xs = layer_inputs ys \<Longrightarrow> length xs = length ys
   \<Longrightarrow> list_all (\<lambda>x. length x = n) xs \<Longrightarrow> list_all (\<lambda>x. length x = n) ys \<Longrightarrow> xs = ys"
proof (induction xs arbitrary: ys rule: layer_inputs.induct)
  case 1
  then show ?case by simp
next
  case (2 l)
  then obtain l' where "ys = [l']" by (cases ys) auto
  with 2 show ?case by simp
next
  case (3 l r rest)
  then obtain l' r' rest' where ys: "ys = l' # r' # rest'"
    by (metis length_Suc_conv)
  from 3(2-) have "l @ r = l' @ r'" and rest: "layer_inputs rest = layer_inputs rest'"
    and "length l = length l'" by (simp_all add: ys)
  moreover have "rest = rest'" by (rule 3(1)) (use 3(3-) rest in \<open>simp_all add: ys\<close>)
  ultimately show ?case by (simp add: ys)
qed

lemma merkle_layer_empty [simp]: "merkle_layer L xs = [] \<longleftrightarrow> xs = []"
  by (induction L xs rule: merkle_layer.induct) simp_all

lemma merkle_up_length: "xs \<noteq> [] \<Longrightarrow> \<exists>r. merkle_up L xs = [r]"
proof (induction L xs rule: merkle_up.induct)
  case (1 L xs)
  show ?case
  proof (cases "1 < length xs")
    case True
    with 1 show ?thesis by (subst merkle_up.simps) simp
  next
    case False
    with 1(2) show ?thesis by (cases xs) (auto simp: merkle_up.simps)
  qed
qed

lemma merkle_up_inj:
  assumes "\<And>x. length (sha256_hex L x) = n"
  shows "merkle_up L xs = merkle_up L ys \<Longrightarrow> length xs = length ys
    \<Longrightarrow> list_all (\<lambda>x. length x = n) xs \<Longrightarrow> list_all (\<lambda>x. length x = n) ys
    \<Longrightarrow> inj_on (sha256_hex L) (set (merkle_nodes L xs) \<union> set (merkle_nodes L ys)) \<Longrightarrow> xs = ys"
proof (induction "length xs" arbitrary: xs ys rule: less_induct)
  case less
  show ?case
  proof (cases "1 < length xs")
    case False
    with less.prems show ?thesis by (simp add: merkle_up.simps)
  next
    case long: True
    then have nodes:
      "merkle_nodes L xs = layer_inputs xs @ merkle_nodes L (merkle_layer L xs)"
      "merkle_nodes L ys = layer_inputs ys @ merkle_nodes L (merkle_layer L ys)"
      and up: "merkle_up L xs = merkle_up L (merkle_layer L xs)"
      "merkle_up L ys = merkle_up L (merkle_layer L ys)"
      using less.prems(2)
      by (simp_all add: merkle_nodes.simps [of L xs] merkle_nodes.simps [of L ys]
          merkle_up.simps [of L xs] merkle_up.simps [of L ys])
    have "merkle_layer L xs = merkle_layer L ys"
    proof (rule less.hyps)
      show "length (merkle_layer L xs) < length xs" using long by simp
      show "inj_on (sha256_hex L)
          (set (merkle_nodes L (merkle_layer L xs)) \<union> set (merkle_nodes L (merkle_layer L ys)))"
        by (rule inj_on_subset [OF less.prems(5)]) (auto simp: nodes)
    qed (use less.prems(1,2) up in \<open>(simp add: merkle_layer_inputs assms list_all_iff)+\<close>)
    moreover have "inj_on (sha256_hex L) (set (layer_inputs xs) \<union> set (layer_inputs ys))"
      by (rule inj_on_subset [OF less.prems(5)]) (auto simp: nodes)
    ultimately have "layer_inputs xs = layer_inputs ys"
      unfolding merkle_layer_inputs by (metis inj_on_map_eq_map)
    then show ?thesis using less.prems(2-4) by (rule layer_inputs_inj)
  qed
qed

lemma merkle_layer_dup:
  "even (length xs) \<Longrightarrow> merkle_layer L (xs @ [x, x]) = merkle_layer L (xs @ [x])"
  by (induction L xs rule: merkle_layer.induct) auto

end
