(* ===== verification/Transaction.thy ===== *)
theory Transaction
  imports Block
begin

text \<open>
  Transactions: \<open>src/src/blockchain/transaction.rs\<close>. The record, the canonical messages senders
  sign, the emission schedule, equivocation proofs and the stateless verification of every
  kind of transaction (one definition per arm of \<open>verify_for_block\<close>).

  The lemmas give the emission schedule its closed form, show that verification never panics,
  that the address alone decides which signatures are needed, and which signed messages pin
  the transaction they were made for.
\<close>


section \<open>Data\<close>

definition UNITS_PER_HKM :: u64 where "UNITS_PER_HKM = 1000000"
definition BLOCK_REWARD :: u64 where "BLOCK_REWARD = 3700 * UNITS_PER_HKM"
definition HALVING_INTERVAL :: u64 where "HALVING_INTERVAL = 9500000"
definition TAIL_EMISSION :: u64 where "TAIL_EMISSION = 50 * UNITS_PER_HKM"
definition MAX_VESTING_DURATION_BLOCKS :: u64 where "MAX_VESTING_DURATION_BLOCKS = 100000000"
definition MAX_TOKEN_SYMBOL_LEN :: nat where "MAX_TOKEN_SYMBOL_LEN = 12"
definition MAX_TOKEN_NAME_LEN :: nat where "MAX_TOKEN_NAME_LEN = 64"
definition MAX_TOKEN_DECIMALS :: "32 word" where "MAX_TOKEN_DECIMALS = 18"
definition SWAP_FEE_BPS :: u64 where "SWAP_FEE_BPS = 30"
definition AMM_FEE_DENOM :: u64 where "AMM_FEE_DENOM = 10000"

text \<open>Internal accounts (\<open>state.rs\<close>): none of them is an address.\<close>

definition STAKING_POOL_ACCOUNT :: string where "STAKING_POOL_ACCOUNT = ''__staking_pool__''"
definition VESTING_POOL_ACCOUNT :: string where "VESTING_POOL_ACCOUNT = ''__vesting_pool__''"
definition AMM_POOL_ACCOUNT :: string where "AMM_POOL_ACCOUNT = ''__amm_pool__''"

definition block_reward :: "u64 \<Rightarrow> u64" where
  "block_reward height =
     (if height = 0 then 0
      else let halvings = (height - 1) div HALVING_INTERVAL;
               halved = (if 63 \<le> halvings then 0 else drop_bit (unat halvings) BLOCK_REWARD)
           in max halved TAIL_EMISSION)"

datatype transaction_type =
    Transfer | Reward | Certificate | Stake | Withdraw | Slash | Vest | TokenCreate
  | TokenTransfer | TokenBurn | AddLiquidity | RemoveLiquidity | Swap

record token_action =
  ta_token_id :: string
  ta_symbol :: string
  ta_name :: string
  ta_decimals :: "32 word"

definition derive_token_id :: "'x prims_scheme \<Rightarrow> string \<Rightarrow> string \<Rightarrow> u64 \<Rightarrow> string" where
  "derive_token_id L creator symbol nonce =
     ''hkt'' @ hex_encode L (take 20 (sha256 L (creator @ '':'' @ symbol @ '':'' @ show_u64 nonce)))"

record amm_action =
  aa_token_id :: string
  aa_amount_hkm :: u64
  aa_amount_token :: u64
  aa_shares :: u64
  aa_amount_in :: u64
  aa_hkm_to_token :: bool
  aa_min_shares :: u64
  aa_min_hkm :: u64
  aa_min_token :: u64
  aa_min_out :: u64

record credential_action =
  ca_id :: string
  ca_subject :: string
  ca_data_hash :: string
  ca_revoke :: bool

record slash_proof =
  sp_block_a :: block
  sp_block_b :: block

record transaction =
  tx_id :: string
  tx_from :: "string option"
  tx_to :: string
  tx_amount :: u64
  tx_type :: transaction_type
  tx_timestamp :: int
  tx_nonce :: u64
  tx_public_key :: "string option"
  tx_signature :: "string option"
  tx_slash_proof :: "slash_proof option"
  tx_vrf_public_key :: "string option"
  tx_credential :: "credential_action option"
  tx_vesting_cliff_blocks :: "u64 option"
  tx_vesting_duration_blocks :: "u64 option"
  tx_token :: "token_action option"
  tx_amm :: "amm_action option"
  tx_pq_public_key :: "string option"
  tx_pq_signature :: "string option"
  tx_chain_id :: string

text \<open>\<open>Transaction::new\<close>, with the fresh identifier and the current time as arguments.\<close>

definition new_transaction ::
  "string \<Rightarrow> int \<Rightarrow> string option \<Rightarrow> string \<Rightarrow> u64 \<Rightarrow> transaction_type \<Rightarrow> transaction" where
  "new_transaction uuid now sender to amount kind =
     \<lparr>tx_id = uuid, tx_from = sender, tx_to = to, tx_amount = amount, tx_type = kind,
      tx_timestamp = now, tx_nonce = 0, tx_public_key = None, tx_signature = None,
      tx_slash_proof = None, tx_vrf_public_key = None, tx_credential = None,
      tx_vesting_cliff_blocks = None, tx_vesting_duration_blocks = None, tx_token = None,
      tx_amm = None, tx_pq_public_key = None, tx_pq_signature = None, tx_chain_id = []\<rparr>"

definition for_chain :: "string \<Rightarrow> transaction \<Rightarrow> transaction" where
  "for_chain chain_id tx = tx\<lparr>tx_chain_id := chain_id\<rparr>"

definition new_reward :: "string \<Rightarrow> int \<Rightarrow> string \<Rightarrow> u64 \<Rightarrow> transaction" where
  "new_reward uuid now validator height =
     new_transaction uuid now None validator (block_reward height) Reward"


section \<open>Canonical messages\<close>

text \<open>\<open>fields [a, b, c]\<close> is \<open>format!("{}:{}:{}", a, b, c)\<close>.\<close>

fun fields :: "string list \<Rightarrow> string" where
  "fields [] = []"
| "fields [f] = f"
| "fields (f # fs) = f @ '':'' @ fields fs"

definition transfer_signing_message :: "string \<Rightarrow> string \<Rightarrow> u64 \<Rightarrow> u64 \<Rightarrow> string" where
  "transfer_signing_message sender to amount nonce =
     fields [''hikmalayer-transfer'', sender, to, show_u64 amount, show_u64 nonce]"

definition stake_signing_message :: "string \<Rightarrow> u64 \<Rightarrow> u64 \<Rightarrow> string \<Rightarrow> string" where
  "stake_signing_message address amount nonce vrf_public_key =
     fields [''hikmalayer-stake'', address, show_u64 amount, show_u64 nonce, vrf_public_key]"

definition credential_signing_message :: "credential_action \<Rightarrow> u64 \<Rightarrow> string" where
  "credential_signing_message action nonce =
     fields [''hikmalayer-credential'', ca_id action, ca_subject action, ca_data_hash action,
             show_bool (ca_revoke action), show_u64 nonce]"

definition withdraw_signing_message :: "string \<Rightarrow> u64 \<Rightarrow> u64 \<Rightarrow> string" where
  "withdraw_signing_message address amount nonce =
     fields [''hikmalayer-withdraw'', address, show_u64 amount, show_u64 nonce]"

definition token_create_signing_message ::
  "string \<Rightarrow> string \<Rightarrow> 32 word \<Rightarrow> u64 \<Rightarrow> u64 \<Rightarrow> string" where
  "token_create_signing_message symbol name decimals initial_supply nonce =
     fields [''hikmalayer-token-create'', symbol, name, dec_string (unat decimals),
             show_u64 initial_supply, show_u64 nonce]"

definition token_transfer_signing_message :: "string \<Rightarrow> string \<Rightarrow> u64 \<Rightarrow> u64 \<Rightarrow> string" where
  "token_transfer_signing_message token_id to amount nonce =
     fields [''hikmalayer-token-transfer'', token_id, to, show_u64 amount, show_u64 nonce]"

definition token_burn_signing_message :: "string \<Rightarrow> u64 \<Rightarrow> u64 \<Rightarrow> string" where
  "token_burn_signing_message token_id amount nonce =
     fields [''hikmalayer-token-burn'', token_id, show_u64 amount, show_u64 nonce]"

definition amm_add_signing_message :: "string \<Rightarrow> u64 \<Rightarrow> u64 \<Rightarrow> u64 \<Rightarrow> u64 \<Rightarrow> string" where
  "amm_add_signing_message token_id amount_hkm amount_token min_shares nonce =
     fields [''hikmalayer-amm-add'', token_id, show_u64 amount_hkm, show_u64 amount_token,
             show_u64 min_shares, show_u64 nonce]"

definition amm_remove_signing_message :: "string \<Rightarrow> u64 \<Rightarrow> u64 \<Rightarrow> u64 \<Rightarrow> u64 \<Rightarrow> string" where
  "amm_remove_signing_message token_id shares min_hkm min_token nonce =
     fields [''hikmalayer-amm-remove'', token_id, show_u64 shares, show_u64 min_hkm,
             show_u64 min_token, show_u64 nonce]"

definition amm_swap_signing_message :: "string \<Rightarrow> bool \<Rightarrow> u64 \<Rightarrow> u64 \<Rightarrow> u64 \<Rightarrow> string" where
  "amm_swap_signing_message token_id hkm_to_token amount_in min_out nonce =
     fields [''hikmalayer-amm-swap'', token_id, show_bool hkm_to_token, show_u64 amount_in,
             show_u64 min_out, show_u64 nonce]"

definition vest_signing_message :: "string \<Rightarrow> string \<Rightarrow> u64 \<Rightarrow> u64 \<Rightarrow> u64 \<Rightarrow> u64 \<Rightarrow> string" where
  "vest_signing_message sender to amount cliff_blocks duration_blocks nonce =
     fields [''hikmalayer-vest'', sender, to, show_u64 amount, show_u64 cliff_blocks,
             show_u64 duration_blocks, show_u64 nonce]"

definition scoped_signing_message :: "string \<Rightarrow> string \<Rightarrow> string" where
  "scoped_signing_message chain_id message = chain_id @ '':'' @ message"


section \<open>Stateless verification\<close>

definition verify_sender_signature ::
  "'x prims_scheme \<Rightarrow> transaction \<Rightarrow> string \<Rightarrow> string \<Rightarrow> unit outcome" where
  "verify_sender_signature L tx sender message0 =
     (let message = scoped_signing_message (tx_chain_id tx) message0 in
      bindR (ok_or (tx_public_key tx) ''Transaction missing public key'') (\<lambda>public_key.
      bindR (ok_or (tx_signature tx) ''Transaction missing signature'') (\<lambda>signature.
      case scheme_of sender of
        Some Hybrid \<Rightarrow>
          bindR (ok_or (tx_pq_public_key tx) ''Hybrid account requires a post-quantum public key'') (\<lambda>pq_public_key.
          bindR (ok_or (tx_pq_signature tx) ''Hybrid account requires a post-quantum signature'') (\<lambda>pq_signature.
          verify_hybrid L sender message public_key pq_public_key signature pq_signature))
      | Some Classical \<Rightarrow>
          bindR (require (tx_pq_public_key tx = None \<and> tx_pq_signature tx = None)
                   ''Classical account must not carry post-quantum fields'') (\<lambda>_.
          bindR (derive_address L public_key) (\<lambda>derived.
          bindR (require (derived = sender) ''Sender address does not match the signing key'') (\<lambda>_.
          require (verify_message L message public_key signature)
            ''Transaction signature verification failed'')))
      | None \<Rightarrow> Inl (Err (''Sender '' @ [CHR 0x27] @ sender @ [CHR 0x27] @ '' is not a valid Hikmalayer address'')))))"

definition verify_slash_proof :: "'x prims_scheme \<Rightarrow> slash_proof \<Rightarrow> string outcome" where
  "verify_slash_proof L proof =
     (let a = sp_block_a proof; b = sp_block_b proof;
          signed = (\<lambda>key_a blk.
            bindR (ok_or (blk_validator_signature blk) ''Proof block missing signature'') (\<lambda>signature.
            require (verify_block_signature L (blk_hash blk) key_a signature)
              ''Proof block signature verification failed''))
      in
      bindR (require (blk_index a = blk_index b) ''Equivocation proof blocks are at different heights'') (\<lambda>_.
      bindR (require (blk_hash a \<noteq> blk_hash b) ''Equivocation proof blocks are identical'') (\<lambda>_.
      bindR (ok_or (blk_validator a) ''Proof block missing validator'') (\<lambda>validator.
      bindR (require (blk_validator b = Some validator) ''Proof blocks have different validators'') (\<lambda>_.
      bindR (ok_or (blk_validator_public_key a) ''Proof block missing public key'') (\<lambda>key_a.
      bindR (ok_or (blk_validator_public_key b) ''Proof block missing public key'') (\<lambda>key_b.
      bindR (require (key_a = key_b) ''Proof blocks signed with different keys'') (\<lambda>_.
      bindR (require (blk_hash a = calculate_hash L a \<and> blk_hash b = calculate_hash L b)
               ''Proof block hash does not match its header'') (\<lambda>_.
      bindR (signed key_a a) (\<lambda>_.
      bindR (signed key_a b) (\<lambda>_.
      Inr validator)))))))))))"

definition verify_transfer :: "'x prims_scheme \<Rightarrow> transaction \<Rightarrow> unit outcome" where
  "verify_transfer L tx =
     bindR (ok_or (tx_from tx) ''Transfer transaction missing sender'') (\<lambda>sender.
     verify_sender_signature L tx sender
       (transfer_signing_message sender (tx_to tx) (tx_amount tx) (tx_nonce tx)))"

definition verify_stake :: "'x prims_scheme \<Rightarrow> transaction \<Rightarrow> unit outcome" where
  "verify_stake L tx =
     bindR (ok_or (tx_from tx) ''Stake transaction missing sender'') (\<lambda>sender.
     bindR (require (tx_to tx = STAKING_POOL_ACCOUNT) ''Stake transaction must pay the staking pool'') (\<lambda>_.
     bindR (require (tx_amount tx \<noteq> 0) ''Stake amount must be greater than zero'') (\<lambda>_.
     bindR (ok_or (tx_vrf_public_key tx) ''Stake transaction missing VRF public key'') (\<lambda>vrf_public_key.
     verify_sender_signature L tx sender
       (stake_signing_message sender (tx_amount tx) (tx_nonce tx) vrf_public_key)))))"

definition verify_withdraw :: "transaction \<Rightarrow> unit outcome" where
  "verify_withdraw tx =
     bindR (require (tx_from tx \<noteq> None) ''Withdraw transaction missing sender'') (\<lambda>_.
     bindR (require (tx_signature tx \<noteq> None) ''Withdraw transaction missing signature'') (\<lambda>_.
     require (tx_amount tx \<noteq> 0) ''Withdraw amount must be greater than zero''))"

definition verify_reward :: "transaction \<Rightarrow> string \<Rightarrow> unit outcome" where
  "verify_reward tx validator =
     bindR (require (tx_from tx = None) ''Reward transaction must not have a sender'') (\<lambda>_.
     require (tx_to tx = validator) ''Reward transaction must pay the block validator'')"

definition verify_certificate :: "'x prims_scheme \<Rightarrow> transaction \<Rightarrow> unit outcome" where
  "verify_certificate L tx =
     bindR (require (tx_amount tx = 0) ''Certificate transaction must not carry value'') (\<lambda>_.
     case tx_credential tx of None \<Rightarrow> Inr ()
     | Some action \<Rightarrow>
        bindR (ok_or (tx_from tx) ''Credential action missing issuer'') (\<lambda>issuer.
        bindR (require (\<not> blank (ca_id action) \<and> length (ca_id action) \<le> 128)
                 ''Credential id must be 1-128 characters'') (\<lambda>_.
        bindR (require (length (ca_subject action) \<le> 256 \<and> length (ca_data_hash action) \<le> 128)
                 ''Credential fields exceed size limits'') (\<lambda>_.
        verify_sender_signature L tx issuer (credential_signing_message action (tx_nonce tx))))))"

definition verify_vest :: "'x prims_scheme \<Rightarrow> transaction \<Rightarrow> unit outcome" where
  "verify_vest L tx =
     bindR (ok_or (tx_from tx) ''Vest transaction missing sender'') (\<lambda>sender.
     bindR (require (tx_amount tx \<noteq> 0) ''Vest amount must be greater than zero'') (\<lambda>_.
     bindR (require (\<not> blank (tx_to tx)) ''Vest transaction missing recipient'') (\<lambda>_.
     bindR (ok_or (tx_vesting_cliff_blocks tx) ''Vest transaction missing cliff'') (\<lambda>cliff.
     bindR (ok_or (tx_vesting_duration_blocks tx) ''Vest transaction missing duration'') (\<lambda>duration.
     bindR (require (duration \<noteq> 0 \<and> duration \<le> MAX_VESTING_DURATION_BLOCKS)
              (''Vest duration must be 1..='' @ show_u64 MAX_VESTING_DURATION_BLOCKS @ '' blocks'')) (\<lambda>_.
     bindR (require (cliff \<le> duration) ''Vest cliff cannot exceed the duration'') (\<lambda>_.
     verify_sender_signature L tx sender
       (vest_signing_message sender (tx_to tx) (tx_amount tx) cliff duration (tx_nonce tx)))))))))"

definition verify_slash :: "'x prims_scheme \<Rightarrow> transaction \<Rightarrow> unit outcome" where
  "verify_slash L tx =
     bindR (require (tx_from tx = None \<and> tx_amount tx = 0) ''Slash transaction must carry no sender or value'') (\<lambda>_.
     bindR (ok_or (tx_slash_proof tx) ''Slash transaction missing proof'') (\<lambda>proof.
     bindR (verify_slash_proof L proof) (\<lambda>offender.
     require (tx_to tx = offender) ''Slash transaction target does not match proof'')))"

definition verify_token_create :: "'x prims_scheme \<Rightarrow> transaction \<Rightarrow> unit outcome" where
  "verify_token_create L tx =
     bindR (ok_or (tx_from tx) ''TokenCreate missing creator'') (\<lambda>sender.
     bindR (ok_or (tx_token tx) ''TokenCreate missing token action'') (\<lambda>action.
     let symbol = trim (ta_symbol action) in
     bindR (require (symbol \<noteq> [] \<and> length symbol \<le> MAX_TOKEN_SYMBOL_LEN)
              (''Token symbol must be 1..='' @ dec_string MAX_TOKEN_SYMBOL_LEN @ '' characters'')) (\<lambda>_.
     bindR (require (length (ta_name action) \<le> MAX_TOKEN_NAME_LEN)
              (''Token name must be at most '' @ dec_string MAX_TOKEN_NAME_LEN @ '' characters'')) (\<lambda>_.
     bindR (require (ta_decimals action \<le> MAX_TOKEN_DECIMALS)
              (''Token decimals must be at most '' @ dec_string (unat MAX_TOKEN_DECIMALS))) (\<lambda>_.
     bindR (require (tx_amount tx \<noteq> 0) ''Token initial supply must be greater than zero'') (\<lambda>_.
     verify_sender_signature L tx sender
       (token_create_signing_message (ta_symbol action) (ta_name action) (ta_decimals action)
          (tx_amount tx) (tx_nonce tx))))))))"

definition verify_token_transfer :: "'x prims_scheme \<Rightarrow> transaction \<Rightarrow> unit outcome" where
  "verify_token_transfer L tx =
     bindR (ok_or (tx_from tx) ''TokenTransfer missing sender'') (\<lambda>sender.
     bindR (ok_or (tx_token tx) ''TokenTransfer missing token action'') (\<lambda>action.
     bindR (require (\<not> blank (ta_token_id action)) ''TokenTransfer missing token id'') (\<lambda>_.
     bindR (require (\<not> blank (tx_to tx)) ''TokenTransfer missing recipient'') (\<lambda>_.
     bindR (require (tx_amount tx \<noteq> 0) ''TokenTransfer amount must be greater than zero'') (\<lambda>_.
     verify_sender_signature L tx sender
       (token_transfer_signing_message (ta_token_id action) (tx_to tx) (tx_amount tx) (tx_nonce tx)))))))"

definition verify_token_burn :: "'x prims_scheme \<Rightarrow> transaction \<Rightarrow> unit outcome" where
  "verify_token_burn L tx =
     bindR (ok_or (tx_from tx) ''TokenBurn missing sender'') (\<lambda>sender.
     bindR (ok_or (tx_token tx) ''TokenBurn missing token action'') (\<lambda>action.
     bindR (require (\<not> blank (ta_token_id action)) ''TokenBurn missing token id'') (\<lambda>_.
     bindR (require (tx_amount tx \<noteq> 0) ''TokenBurn amount must be greater than zero'') (\<lambda>_.
     verify_sender_signature L tx sender
       (token_burn_signing_message (ta_token_id action) (tx_amount tx) (tx_nonce tx))))))"

definition verify_add_liquidity :: "'x prims_scheme \<Rightarrow> transaction \<Rightarrow> unit outcome" where
  "verify_add_liquidity L tx =
     bindR (ok_or (tx_from tx) ''AddLiquidity missing sender'') (\<lambda>sender.
     bindR (ok_or (tx_amm tx) ''AddLiquidity missing amm action'') (\<lambda>action.
     bindR (require (\<not> blank (aa_token_id action)) ''AddLiquidity missing token id'') (\<lambda>_.
     bindR (require (aa_amount_hkm action \<noteq> 0 \<and> aa_amount_token action \<noteq> 0)
              ''AddLiquidity requires non-zero HKM and token amounts'') (\<lambda>_.
     verify_sender_signature L tx sender
       (amm_add_signing_message (aa_token_id action) (aa_amount_hkm action) (aa_amount_token action)
          (aa_min_shares action) (tx_nonce tx))))))"

definition verify_remove_liquidity :: "'x prims_scheme \<Rightarrow> transaction \<Rightarrow> unit outcome" where
  "verify_remove_liquidity L tx =
     bindR (ok_or (tx_from tx) ''RemoveLiquidity missing sender'') (\<lambda>sender.
     bindR (ok_or (tx_amm tx) ''RemoveLiquidity missing amm action'') (\<lambda>action.
     bindR (require (\<not> blank (aa_token_id action)) ''RemoveLiquidity missing token id'') (\<lambda>_.
     bindR (require (aa_shares action \<noteq> 0) ''RemoveLiquidity requires a non-zero share amount'') (\<lambda>_.
     verify_sender_signature L tx sender
       (amm_remove_signing_message (aa_token_id action) (aa_shares action) (aa_min_hkm action)
          (aa_min_token action) (tx_nonce tx))))))"

definition verify_swap :: "'x prims_scheme \<Rightarrow> transaction \<Rightarrow> unit outcome" where
  "verify_swap L tx =
     bindR (ok_or (tx_from tx) ''Swap missing sender'') (\<lambda>sender.
     bindR (ok_or (tx_amm tx) ''Swap missing amm action'') (\<lambda>action.
     bindR (require (\<not> blank (aa_token_id action)) ''Swap missing token id'') (\<lambda>_.
     bindR (require (aa_amount_in action \<noteq> 0) ''Swap requires a non-zero input amount'') (\<lambda>_.
     verify_sender_signature L tx sender
       (amm_swap_signing_message (aa_token_id action) (aa_hkm_to_token action) (aa_amount_in action)
          (aa_min_out action) (tx_nonce tx))))))"

definition verify_for_block :: "'x prims_scheme \<Rightarrow> transaction \<Rightarrow> string \<Rightarrow> unit outcome" where
  "verify_for_block L tx validator =
     (case tx_type tx of
        Transfer \<Rightarrow> verify_transfer L tx
      | Stake \<Rightarrow> verify_stake L tx
      | Withdraw \<Rightarrow> verify_withdraw tx
      | Reward \<Rightarrow> verify_reward tx validator
      | Certificate \<Rightarrow> verify_certificate L tx
      | Vest \<Rightarrow> verify_vest L tx
      | Slash \<Rightarrow> verify_slash L tx
      | TokenCreate \<Rightarrow> verify_token_create L tx
      | TokenTransfer \<Rightarrow> verify_token_transfer L tx
      | TokenBurn \<Rightarrow> verify_token_burn L tx
      | AddLiquidity \<Rightarrow> verify_add_liquidity L tx
      | RemoveLiquidity \<Rightarrow> verify_remove_liquidity L tx
      | Swap \<Rightarrow> verify_swap L tx)"

definition verify_authorization :: "'x prims_scheme \<Rightarrow> transaction \<Rightarrow> unit outcome" where
  "verify_authorization L tx =
     (case tx_type tx of Reward \<Rightarrow> Inr () | Slash \<Rightarrow> Inr () | _ \<Rightarrow> verify_for_block L tx [])"

section \<open>Authorization\<close>

lemma verify_sender_signature_ok:
  "verify_sender_signature L tx sender msg = Inr () \<longleftrightarrow>
     (\<exists>pk sg. tx_public_key tx = Some pk \<and> tx_signature tx = Some sg \<and>
        ((\<exists>pq pqs. scheme_of sender = Some Hybrid \<and> tx_pq_public_key tx = Some pq \<and> tx_pq_signature tx = Some pqs
            \<and> derive_hybrid_address L pk pq = Inr sender
            \<and> verify_message L (scoped_signing_message (tx_chain_id tx) msg) pk sg
            \<and> pq_verify_message L (scoped_signing_message (tx_chain_id tx) msg) pq pqs)
         \<or> (scheme_of sender = Some Classical \<and> tx_pq_public_key tx = None \<and> tx_pq_signature tx = None
            \<and> derive_address L pk = Inr sender
            \<and> verify_message L (scoped_signing_message (tx_chain_id tx) msg) pk sg)))"
proof (cases "scheme_of sender")
  case None
  then show ?thesis by (simp add: verify_sender_signature_def Let_def exec_ok)
next
  case (Some scheme)
  then show ?thesis
    by (cases scheme)
       (auto simp: verify_sender_signature_def Let_def exec_ok verify_hybrid_ok)
qed

lemma verify_sender_signature_scheme:
  "verify_sender_signature L tx sender msg = Inr () \<Longrightarrow> scheme_of sender \<noteq> None"
  by (auto simp: verify_sender_signature_ok)

lemma verify_sender_signature_no_panic [exec_panic]: "verify_sender_signature L tx sender msg \<noteq> Inl Panic"
  by (auto simp: verify_sender_signature_def Let_def exec_panic
      split: option.splits account_scheme.splits)

lemmas verify_arm_defs =
  verify_transfer_def verify_stake_def verify_withdraw_def verify_reward_def verify_certificate_def
  verify_vest_def verify_slash_def verify_token_create_def verify_token_transfer_def
  verify_token_burn_def verify_add_liquidity_def verify_remove_liquidity_def verify_swap_def

lemma verify_slash_proof_no_panic [exec_panic]: "verify_slash_proof L p \<noteq> Inl Panic"
  by (auto simp: verify_slash_proof_def Let_def exec_panic)

lemma verify_for_block_no_panic [exec_panic]: "verify_for_block L tx v \<noteq> Inl Panic"
  by (auto simp: verify_for_block_def verify_arm_defs Let_def exec_panic
      split: transaction_type.splits option.splits)

text \<open>
  Everything but a withdrawal (checked against the chain's own key), a reward, a slash and a
  bare anchor names a sender who signed for it.
\<close>

lemma verify_for_block_signed:
  assumes "verify_for_block L tx v = Inr ()"
    and "tx_type tx \<notin> {Withdraw, Reward, Slash}"
    and "tx_type tx = Certificate \<Longrightarrow> tx_credential tx \<noteq> None"
  obtains sender msg where "tx_from tx = Some sender" "verify_sender_signature L tx sender msg = Inr ()"
  using assms
  by (cases "tx_type tx")
     (auto simp: verify_for_block_def verify_arm_defs Let_def exec_ok split: option.splits)

text \<open>
  The bytes whose hash is the address of a signed transaction's sender: the point of its key, or, for
  a quantum-ready account, the domain, the point and the bytes of the post-quantum key.
\<close>

definition key_text :: "'x prims_scheme \<Rightarrow> transaction \<Rightarrow> string" where
  "key_text L tx =
     (case (tx_public_key tx, tx_pq_public_key tx) of
        (Some pk, None) \<Rightarrow> (case canonical_public_key L pk of Inr point \<Rightarrow> point | Inl _ \<Rightarrow> [])
      | (Some pk, Some pq) \<Rightarrow>
          (case (canonical_public_key L (trim pk), canonical_pq_public_key L (trim pq)) of
             (Inr point, Inr bytes) \<Rightarrow> HYBRID_ADDRESS_DOMAIN @ point @ bytes | _ \<Rightarrow> [])
      | _ \<Rightarrow> [])"

lemma signed_by_classical:
  assumes "verify_sender_signature L tx a msg = Inr ()" "scheme_of a = Some Classical"
  obtains pk point where "tx_public_key tx = Some pk" "tx_pq_public_key tx = None" "tx_pq_signature tx = None"
    "hex_encode L point = pk" "key_text L tx = point" "a = ADDRESS_PREFIX @ hex_encode L (take 20 (sha256 L point))"
  using assms
  by (auto simp: verify_sender_signature_ok derive_address_def canonical_public_key_def key_text_def exec_ok
      split: if_splits)

lemma signed_by_hybrid:
  assumes "verify_sender_signature L tx a msg = Inr ()" "scheme_of a = Some Hybrid"
  obtains pk pq point bytes where "tx_public_key tx = Some pk" "tx_pq_public_key tx = Some pq"
    "tx_pq_signature tx \<noteq> None" "hex_encode L point = trim pk" "hex_encode L bytes = trim pq"
    "length bytes = PQ_PUBLIC_KEY_LEN" "key_text L tx = HYBRID_ADDRESS_DOMAIN @ point @ bytes"
    "a = HYBRID_ADDRESS_PREFIX @ hex_encode L (take 20 (sha256 L (HYBRID_ADDRESS_DOMAIN @ point @ bytes)))"
  using assms
  by (auto simp: verify_sender_signature_ok derive_hybrid_address_def canonical_public_key_def
      canonical_pq_public_key_def key_text_def exec_ok split: if_splits)

text \<open>An address commits to the keys it was derived from, up to a collision of the hash on the two texts.\<close>

lemma same_account_same_keys:
  assumes signed: "verify_sender_signature L tx a msg = Inr ()" "verify_sender_signature L tx' a msg' = Inr ()"
    and hex: "\<And>x. hex_decode L (hex_encode L x) = Inr x"
    and hash: "inj_on (\<lambda>x. take 20 (sha256 L x)) {key_text L tx, key_text L tx'}"
  shows "map_option trim (tx_public_key tx') = map_option trim (tx_public_key tx)
    \<and> map_option trim (tx_pq_public_key tx') = map_option trim (tx_pq_public_key tx)
    \<and> (tx_pq_public_key tx' \<noteq> None \<longleftrightarrow> scheme_of a = Some Hybrid) \<and> (tx_pq_signature tx' \<noteq> None \<longleftrightarrow> scheme_of a = Some Hybrid)"
proof -
  have encode: "x = y" if "hex_encode L x = hex_encode L y" for x y
    using arg_cong [OF that, of "hex_decode L"] unfolding hex by simp
  have same: "key_text L tx = key_text L tx'"
    if "hex_encode L (take 20 (sha256 L (key_text L tx))) = hex_encode L (take 20 (sha256 L (key_text L tx')))"
    by (rule inj_onD [OF hash encode [OF that]]) (rule insertI1, rule insertI2, rule insertI1)
  consider "scheme_of a = Some Classical" | "scheme_of a = Some Hybrid"
    using verify_sender_signature_scheme [OF signed(1)] by (metis account_scheme.exhaust not_None_eq)
  then show ?thesis
  proof cases
    case 1
    obtain pk point where c: "tx_public_key tx = Some pk" "tx_pq_public_key tx = None" "tx_pq_signature tx = None"
      "hex_encode L point = pk" "key_text L tx = point" "a = ADDRESS_PREFIX @ hex_encode L (take 20 (sha256 L point))"
      by (rule signed_by_classical [OF signed(1) 1])
    obtain pk' point' where d: "tx_public_key tx' = Some pk'" "tx_pq_public_key tx' = None" "tx_pq_signature tx' = None"
      "hex_encode L point' = pk'" "key_text L tx' = point'" "a = ADDRESS_PREFIX @ hex_encode L (take 20 (sha256 L point'))"
      by (rule signed_by_classical [OF signed(2) 1])
    have "point = point'" using same c(5,6) d(5,6) by simp
    then have "pk' = pk" using c(4) d(4) by simp
    then show ?thesis using 1 c(1-3) d(1-3) by simp
  next
    case 2
    let ?text = "\<lambda>point bytes. HYBRID_ADDRESS_DOMAIN @ point @ bytes"
    obtain pk pq point bytes where c: "tx_public_key tx = Some pk" "tx_pq_public_key tx = Some pq"
      "tx_pq_signature tx \<noteq> None" "hex_encode L point = trim pk" "hex_encode L bytes = trim pq"
      "length bytes = PQ_PUBLIC_KEY_LEN" "key_text L tx = ?text point bytes"
      "a = HYBRID_ADDRESS_PREFIX @ hex_encode L (take 20 (sha256 L (?text point bytes)))"
      by (rule signed_by_hybrid [OF signed(1) 2])
    obtain pk' pq' point' bytes' where d: "tx_public_key tx' = Some pk'" "tx_pq_public_key tx' = Some pq'"
      "tx_pq_signature tx' \<noteq> None" "hex_encode L point' = trim pk'" "hex_encode L bytes' = trim pq'"
      "length bytes' = PQ_PUBLIC_KEY_LEN" "key_text L tx' = ?text point' bytes'"
      "a = HYBRID_ADDRESS_PREFIX @ hex_encode L (take 20 (sha256 L (?text point' bytes')))"
      by (rule signed_by_hybrid [OF signed(2) 2])
    have "?text point bytes = ?text point' bytes'" using same c(7,8) d(7,8) by simp
    then have "point = point'" "bytes = bytes'" using c(6) d(6) by simp_all
    then have "trim pk' = trim pk" "trim pq' = trim pq" using c(4,5) d(4,5) by simp_all
    then show ?thesis using 2 c(1-3) d(1-3) by simp
  qed
qed


section \<open>Emission\<close>

definition reward_nat :: "nat \<Rightarrow> nat" where
  "reward_nat h = (if h = 0 then 0 else max (3700000000 div 2 ^ ((h - 1) div 9500000)) 50000000)"

lemma BLOCK_REWARD_value: "BLOCK_REWARD = 3700000000"
  by (simp add: BLOCK_REWARD_def UNITS_PER_HKM_def)

lemma TAIL_EMISSION_value: "TAIL_EMISSION = 50000000"
  by (simp add: TAIL_EMISSION_def UNITS_PER_HKM_def)

lemma unat_max: "unat (max a b :: u64) = max (unat a) (unat b)"
  by (auto simp: max_def word_le_nat_alt)

lemma reward_floor: "63 \<le> k \<Longrightarrow> (3700000000 :: nat) div 2 ^ k = 0"
proof -
  assume "63 \<le> k"
  then have "(2 :: nat) ^ 63 \<le> 2 ^ k" by (rule power_increasing) simp
  then show ?thesis by (intro div_less) simp
qed

lemma unat_drop_bit: "unat (drop_bit n (w :: u64)) = unat w div 2 ^ n"
  by (simp only: drop_bit_eq_div [symmetric])
     (simp add: unsigned_drop_bit_eq take_bit_nat_eq_self)

lemma unat_block_reward: "unat (block_reward h) = reward_nat (unat h)"
proof (cases "h = 0")
  case True
  then show ?thesis by (simp add: block_reward_def reward_nat_def)
next
  case False
  then have "1 \<le> unat h" by (simp add: unat_gt_0 Suc_leI)
  then have "unat (h - 1) = unat h - 1" by (simp add: unat_minus word_le_nat_alt)
  then have e: "unat ((h - 1) div HALVING_INTERVAL) = (unat h - 1) div 9500000"
    by (simp add: HALVING_INTERVAL_def unat_div)
  let ?e = "(h - 1) div HALVING_INTERVAL"
  have "unat (if 63 \<le> ?e then 0 else drop_bit (unat ?e) BLOCK_REWARD)
      = 3700000000 div 2 ^ ((unat h - 1) div 9500000)"
    by (auto simp: word_le_nat_alt e reward_floor unat_drop_bit BLOCK_REWARD_value)
  with False show ?thesis
    by (simp add: block_reward_def reward_nat_def Let_def unat_max TAIL_EMISSION_value unat_eq_0)
qed

lemma reward_nat_antimono: "0 < m \<Longrightarrow> m \<le> n \<Longrightarrow> reward_nat n \<le> reward_nat m"
proof -
  assume m: "0 < m" "m \<le> n"
  then have "(m - 1) div 9500000 \<le> (n - 1) div 9500000" by (simp add: div_le_mono)
  then have "(2 :: nat) ^ ((m - 1) div 9500000) \<le> 2 ^ ((n - 1) div 9500000)" by (simp add: power_increasing)
  then have "(3700000000 :: nat) div 2 ^ ((n - 1) div 9500000) \<le> 3700000000 div 2 ^ ((m - 1) div 9500000)"
    by (rule div_le_mono2 [rotated]) simp
  with m show ?thesis by (auto simp: reward_nat_def)
qed

text \<open>The halving part of the emission adds up to less than twice its first epoch.\<close>

lemma halving_epoch: "(\<Sum>h\<in>{m * k..<m * k + k}. R div 2 ^ (h div k)) = k * (R div 2 ^ m)" if "0 < k" for R k m :: nat
proof -
  have "(\<Sum>h\<in>{m * k..<m * k + k}. R div 2 ^ (h div k)) = (\<Sum>h\<in>{m * k..<m * k + k}. R div 2 ^ m)"
  proof (rule sum.cong)
    fix h assume "h \<in> {m * k..<m * k + k}"
    then have "h div k = m" by (intro div_nat_eqI) (auto simp: mult.commute)
    then show "R div 2 ^ (h div k) = R div 2 ^ m" by simp
  qed simp
  then show ?thesis by simp
qed

lemma geometric_div: "(\<Sum>m<n. (R :: nat) div 2 ^ m) + 2 * (R div 2 ^ n) \<le> 2 * R"
proof (induction n)
  case 0
  then show ?case by simp
next
  case (Suc n)
  have "2 * (R div 2 ^ Suc n) \<le> R div 2 ^ n"
    by (metis div_mult2_eq mult.commute power_Suc times_div_less_eq_dividend)
  with Suc show ?case by simp
qed

lemma reward_sum_epochs:
  "(\<Sum>h\<in>{..<n * 9500000}. (3700000000 :: nat) div 2 ^ (h div 9500000)) \<le> 70300000000000000"
proof -
  have "(\<Sum>h\<in>{..<n * 9500000}. (3700000000 :: nat) div 2 ^ (h div 9500000))
      = (\<Sum>m<n. \<Sum>h\<in>{m * 9500000..<m * 9500000 + 9500000}. 3700000000 div 2 ^ (h div 9500000))"
    by (rule sum.nat_group [symmetric])
  also have "\<dots> = 9500000 * (\<Sum>m<n. 3700000000 div 2 ^ m)"
    by (simp only: halving_epoch [of 9500000 3700000000] sum_distrib_left zero_less_numeral)
  also have "\<dots> \<le> 9500000 * (2 * 3700000000)"
    using geometric_div [of 3700000000 n] by (intro mult_le_mono2) linarith
  finally show ?thesis by simp
qed

lemma reward_sum_bound: "(\<Sum>h<n. reward_nat (h + 1)) \<le> 70300000000000000 + n * 50000000"
proof -
  have "reward_nat (h + 1) \<le> 3700000000 div 2 ^ (h div 9500000) + 50000000" for h
    by (simp add: reward_nat_def)
  then have "(\<Sum>h<n. reward_nat (h + 1)) \<le> (\<Sum>h<n. 3700000000 div 2 ^ (h div 9500000) + 50000000)"
    by (intro sum_mono) simp
  also have "\<dots> = (\<Sum>h<n. 3700000000 div 2 ^ (h div 9500000)) + n * 50000000"
    by (simp add: sum.distrib)
  also have "(\<Sum>h<n. (3700000000 :: nat) div 2 ^ (h div 9500000))
      \<le> (\<Sum>h\<in>{..<n * 9500000}. 3700000000 div 2 ^ (h div 9500000))"
    by (rule sum_mono2) auto
  also have "\<dots> \<le> 70300000000000000" by (rule reward_sum_epochs)
  finally show ?thesis by simp
qed


section \<open>What a signature pins\<close>

lemma fields_inj:
  "fields xs = fields ys \<Longrightarrow> length xs = length ys
   \<Longrightarrow> list_all (\<lambda>f. CHR '':'' \<notin> set f) xs \<Longrightarrow> list_all (\<lambda>f. CHR '':'' \<notin> set f) ys \<Longrightarrow> xs = ys"
proof (induction xs arbitrary: ys rule: fields.induct)
  case 1
  then show ?case by simp
next
  case (2 f)
  then obtain g where "ys = [g]" by (cases ys) auto
  with 2 show ?case by simp
next
  case (3 f f' fs)
  then obtain g g' gs where ys: "ys = g # g' # gs" by (metis length_Suc_conv)
  have e: "f @ CHR '':'' # fields (f' # fs) = g @ CHR '':'' # fields (g' # gs)"
    and nf: "CHR '':'' \<notin> set f" and ng: "CHR '':'' \<notin> set g" using 3(2-) by (simp_all add: ys)
  then have "f = g" and r: "fields (f' # fs) = fields (g' # gs)"
    using split_first_colon [OF e nf ng] by auto
  moreover have "f' # fs = g' # gs" by (rule 3(1) [OF r]) (use 3(3-) in \<open>simp_all add: ys\<close>)
  ultimately show ?case by (simp add: ys)
qed

lemma no_colon_show [simp]: "CHR '':'' \<notin> set (show_u64 w)"
  by (simp add: show_u64_def no_colon_dec_string)

lemma transfer_message_inj:
  assumes "transfer_signing_message f t a n = transfer_signing_message f' t' a' n'"
    and "scheme_of f \<noteq> None" "scheme_of f' \<noteq> None" "scheme_of t \<noteq> None" "scheme_of t' \<noteq> None"
  shows "f = f' \<and> t = t' \<and> a = a' \<and> n = n'"
  using fields_inj [OF assms(1) [unfolded transfer_signing_message_def]] assms(2-)
  by (auto simp: show_u64_inj dest: scheme_of_no_colon)

lemma token_create_message_shift:
  "token_create_signing_message (s @ '':'' @ m) n d a k = token_create_signing_message s (m @ '':'' @ n) d a k"
  by (simp add: token_create_signing_message_def)

end
