(* ===== verification/Leader.thy ===== *)
theory Leader
  imports Keys
begin

text \<open>
  Stake-weighted leader selection: the second half of \<open>src/src/consensus/pos.rs\<close>. A seed is
  hashed to a point below the total stake, and the validators are laid end to end in the
  order of the list. The lemmas show that selection is total when there is stake, that every
  validator owns exactly as many points as it has stake, and when the sum of stakes panics.
\<close>

record staker =
  st_address :: string
  st_stake :: u64
  st_public_key :: "string option"

definition POS_SLASH_PERCENT :: u64 where "POS_SLASH_PERCENT = 10"

definition selection_seed :: "string \<Rightarrow> u64 \<Rightarrow> string" where
  "selection_seed previous_hash block_index = previous_hash @ '':'' @ show_u64 block_index"

definition seed_to_u64 :: "'x prims_scheme \<Rightarrow> string \<Rightarrow> u64" where
  "seed_to_u64 L seed = as_u64 (be_value (take 8 (sha256 L seed)))"

definition total_stake :: "staker list \<Rightarrow> ('e, u64) result" where
  "total_stake stakers = sum_u64 (map st_stake stakers)"

fun select_at :: "u64 \<Rightarrow> staker list \<Rightarrow> string option" where
  "select_at running_point [] = None"
| "select_at running_point (s # stakers) =
     (if running_point < st_stake s then Some (st_address s)
      else select_at (running_point - st_stake s) stakers)"

definition select_staker_with_seed ::
  "'x prims_scheme \<Rightarrow> string \<Rightarrow> staker list \<Rightarrow> ('e, string option) result" where
  "select_staker_with_seed L seed stakers =
     bindR (total_stake stakers) (\<lambda>total.
     if total = 0 then Inr None
     else Inr (select_at (seed_to_u64 L seed mod total) stakers))"

text \<open>\<open>select_staker\<close>: \<open>point total\<close> is what the random generator answers for the range \<open>0..total\<close>.\<close>

definition select_staker ::
  "'x prims_scheme \<Rightarrow> (u64 \<Rightarrow> u64) \<Rightarrow> staker list \<Rightarrow> ('e, string option) result" where
  "select_staker L point stakers =
     bindR (total_stake stakers) (\<lambda>total.
     if total = 0 then Inr None
     else select_staker_with_seed L (''random-'' @ show_u64 (point total)) stakers)"

fun slash_staker_with_percent :: "staker list \<Rightarrow> string \<Rightarrow> u64 \<Rightarrow> staker list \<times> u64" where
  "slash_staker_with_percent [] address percent = ([], 0)"
| "slash_staker_with_percent (s # stakers) address percent =
     (if st_address s = address
      then (let slashed = sat_mul (st_stake s) percent div 100 in
            (s\<lparr>st_stake := sat_sub (st_stake s) slashed\<rparr> # stakers, slashed))
      else (let (rest, slashed) = slash_staker_with_percent stakers address percent in (s # rest, slashed)))"

definition slash_staker :: "staker list \<Rightarrow> string \<Rightarrow> staker list \<times> u64" where
  "slash_staker stakers address = slash_staker_with_percent stakers address POS_SLASH_PERCENT"


section \<open>Selection\<close>

definition stakes :: "staker list \<Rightarrow> nat" where
  "stakes ss = sum_list (map (unat \<circ> st_stake) ss)"

lemma stakes_simps [simp]: "stakes [] = 0" "stakes (s # ss) = unat (st_stake s) + stakes ss"
  by (simp_all add: stakes_def)

lemma total_stake_eq:
  "total_stake ss = (if stakes ss < 2 ^ 64 then Inr (as_u64 (stakes ss)) else Inl Panic)"
proof (cases "stakes ss < 2 ^ 64")
  case True
  then have "unat (as_u64 (stakes ss)) = stakes ss" by (rule unat_as_u64_small)
  with True show ?thesis by (simp add: total_stake_def exec_ok flip: stakes_def)
next
  case False
  then show ?thesis by (simp add: total_stake_def exec_panic flip: stakes_def)
qed

lemma as_u64_stakes_0: "stakes ss < 2 ^ 64 \<Longrightarrow> as_u64 (stakes ss) = 0 \<longleftrightarrow> stakes ss = 0"
  by (metis unat_as_u64_small unat_eq_0)

text \<open>\<open>running_point -= staker.stake\<close> never underflows; on numbers the walk is \<open>walk\<close>.\<close>

fun walk :: "nat \<Rightarrow> staker list \<Rightarrow> string option" where
  "walk p [] = None"
| "walk p (s # ss) = (if p < unat (st_stake s) then Some (st_address s) else walk (p - unat (st_stake s)) ss)"

lemma select_at_walk: "select_at p ss = walk (unat p) ss"
  by (induction p ss rule: select_at.induct) (auto simp: word_less_nat_alt unat_minus word_le_nat_alt)

lemma walk_total: "p < stakes ss \<longleftrightarrow> walk p ss \<noteq> None"
  by (induction p ss rule: walk.induct) auto

lemma walk_member: "walk p ss = Some a \<Longrightarrow> \<exists>s\<in>set ss. st_address s = a \<and> 0 < unat (st_stake s)"
  by (induction p ss rule: walk.induct) (auto split: if_splits)

text \<open>The points of one validator: as many as its stake.\<close>

lemma card_shift: "card {p. n \<le> p \<and> p < n + m \<and> P (p - n)} = card {p :: nat. p < m \<and> P p}"
proof -
  have "bij_betw (\<lambda>p. p + n) {p. p < m \<and> P p} {p. n \<le> p \<and> p < n + m \<and> P (p - n)}"
    by (rule bij_betw_byWitness [where f' = "\<lambda>p. p - n"]) auto
  then show ?thesis by (rule bij_betw_same_card [symmetric])
qed

lemma walk_share:
  "card {p. p < stakes ss \<and> walk p ss = Some a}
   = sum_list (map (\<lambda>s. if st_address s = a then unat (st_stake s) else 0) ss)"
proof (induction ss)
  case Nil
  then show ?case by simp
next
  case (Cons s ss)
  let ?n = "unat (st_stake s)"
  have "{p. p < stakes (s # ss) \<and> walk p (s # ss) = Some a}
      = {p. p < ?n \<and> st_address s = a} \<union> {p. ?n \<le> p \<and> p < ?n + stakes ss \<and> walk (p - ?n) ss = Some a}"
    by (auto split: if_splits)
  also have "card \<dots> = card {p. p < ?n \<and> st_address s = a}
      + card {p. ?n \<le> p \<and> p < ?n + stakes ss \<and> walk (p - ?n) ss = Some a}"
    by (rule card_Un_disjoint) auto
  also have "card {p. ?n \<le> p \<and> p < ?n + stakes ss \<and> walk (p - ?n) ss = Some a}
      = card {p. p < stakes ss \<and> walk p ss = Some a}"
    by (rule card_shift)
  finally show ?case using Cons by simp
qed

lemma select_staker_with_seed_eq:
  "select_staker_with_seed L seed ss =
     (if \<not> stakes ss < 2 ^ 64 then Inl Panic
      else if stakes ss = 0 then Inr None
      else Inr (walk (unat (seed_to_u64 L seed) mod stakes ss) ss))"
  using as_u64_stakes_0 [of ss] unat_as_u64_small [of "stakes ss"]
  by (simp add: select_staker_with_seed_def total_stake_eq select_at_walk unat_mod)

lemma select_staker_with_seed_ok:
  "select_staker_with_seed L seed ss = Inr (Some a) \<longleftrightarrow>
     stakes ss < 2 ^ 64 \<and> 0 < stakes ss \<and> walk (unat (seed_to_u64 L seed) mod stakes ss) ss = Some a"
  by (simp add: select_staker_with_seed_eq)

lemma select_staker_with_seed_member:
  "select_staker_with_seed L seed ss = Inr (Some a) \<Longrightarrow> \<exists>s\<in>set ss. st_address s = a \<and> 0 < unat (st_stake s)"
  by (auto simp: select_staker_with_seed_ok dest: walk_member)

lemma select_staker_with_seed_None:
  "select_staker_with_seed L seed ss = Inr None \<longleftrightarrow> stakes ss = 0"
proof -
  have "0 < stakes ss \<Longrightarrow> walk (unat (seed_to_u64 L seed) mod stakes ss) ss \<noteq> None"
    by (simp only: walk_total [symmetric] mod_less_divisor)
  then show ?thesis by (auto simp: select_staker_with_seed_eq)
qed

lemma select_staker_with_seed_err:
  "select_staker_with_seed L seed ss = Inl e \<longleftrightarrow> e = Panic \<and> 2 ^ 64 \<le> stakes ss"
  by (auto simp: select_staker_with_seed_eq)

end
