(* ===== verification/Ledger.thy ===== *)
theory Ledger
  imports Transaction Leader
begin

text \<open>
  The chain state and its primitive operations: \<open>src/src/blockchain/state.rs\<close> up to
  \<open>apply_transaction\<close>. Every primitive gets one lemma that says exactly when it succeeds and
  which state it leaves; the components that execute transactions are proved from those. The
  locale \<open>account_ledger\<close> is what the HKM balances and the balances of every token have in common.
\<close>

record unbonding_entry =
  ub_amount :: u64
  ub_release_height :: u64

record vesting_entry =
  ve_total :: u64
  ve_released :: u64
  ve_start_height :: u64
  ve_cliff_height :: u64
  ve_end_height :: u64

record stake_info =
  si_stake :: u64
  si_public_key :: string
  si_vrf_public_key :: string
  si_pq_public_key :: string

record token_info =
  ti_token_id :: string
  ti_symbol :: string
  ti_name :: string
  ti_decimals :: "32 word"
  ti_total_supply :: u64
  ti_creator :: string
  ti_created_at_height :: u64

record pool =
  pl_token_id :: string
  pl_reserve_hkm :: u64
  pl_reserve_token :: u64
  pl_total_shares :: u64

record credential_record =
  cr_issuer :: string
  cr_subject :: string
  cr_data_hash :: string
  cr_issued_at :: string
  cr_revoked :: bool

record chain_state =
  cs_balances :: "(string, u64) fmap"
  cs_stakers :: "(string, stake_info) fmap"
  cs_nonces :: "(string, u64) fmap"
  cs_credentials :: "(string, credential_record) fmap"
  cs_slashed_offenses :: "(string, u64) fmap"
  cs_unbonding :: "(string, unbonding_entry list) fmap"
  cs_vesting :: "(string, vesting_entry list) fmap"
  cs_tokens :: "(string, token_info) fmap"
  cs_token_balances :: "(string, (string, u64) fmap) fmap"
  cs_pools :: "(string, pool) fmap"
  cs_lp_shares :: "(string, (string, u64) fmap) fmap"
  cs_validator_allowlist :: "string fset"
  cs_chain_id :: string
  cs_require_hybrid_signatures :: bool
  cs_fee_pot :: u64
  cs_base_fee :: u64
  cs_total_supply :: u64
  cs_burned :: u64

text \<open>The derived \<open>Default\<close> instances.\<close>

definition default_stake_info :: stake_info where
  "default_stake_info = \<lparr>si_stake = 0, si_public_key = [], si_vrf_public_key = [], si_pq_public_key = []\<rparr>"

definition default_pool :: pool where
  "default_pool = \<lparr>pl_token_id = [], pl_reserve_hkm = 0, pl_reserve_token = 0, pl_total_shares = 0\<rparr>"

definition default_chain_state :: chain_state where
  "default_chain_state =
     \<lparr>cs_balances = fmempty, cs_stakers = fmempty, cs_nonces = fmempty, cs_credentials = fmempty,
      cs_slashed_offenses = fmempty, cs_unbonding = fmempty, cs_vesting = fmempty,
      cs_tokens = fmempty, cs_token_balances = fmempty, cs_pools = fmempty, cs_lp_shares = fmempty,
      cs_validator_allowlist = {||}, cs_chain_id = [], cs_require_hybrid_signatures = False,
      cs_fee_pot = 0, cs_base_fee = 0, cs_total_supply = 0, cs_burned = 0\<rparr>"


section \<open>Constants\<close>

definition MINIMUM_LIQUIDITY :: u64 where "MINIMUM_LIQUIDITY = 1000"
definition DEFAULT_CHAIN_ID :: string where "DEFAULT_CHAIN_ID = ''hikmalayer-dev''"
definition SLASH_PERCENT :: u64 where "SLASH_PERCENT = 10"
definition GENESIS_VALIDATOR_STAKE :: u64 where "GENESIS_VALIDATOR_STAKE = 1000000 * UNITS_PER_HKM"
definition MIN_VALIDATOR_STAKE :: u64 where "MIN_VALIDATOR_STAKE = 10000 * UNITS_PER_HKM"
definition TX_FEE :: u64 where "TX_FEE = UNITS_PER_HKM div 1000"
definition BASE_FEE_TARGET_TXS :: u64 where "BASE_FEE_TARGET_TXS = 50"
definition BASE_FEE_MAX :: u64 where "BASE_FEE_MAX = 100 * UNITS_PER_HKM"
definition UNBONDING_BLOCKS :: u64 where "UNBONDING_BLOCKS = 20"
definition SLASHING_WINDOW_BLOCKS :: u64 where "SLASHING_WINDOW_BLOCKS = 20"

definition is_valid_address :: "string \<Rightarrow> bool" where
  "is_valid_address value \<longleftrightarrow> scheme_of value \<noteq> None"


section \<open>Queries\<close>

definition balance_of :: "chain_state \<Rightarrow> string \<Rightarrow> u64" where
  "balance_of s account = fmfind 0 (cs_balances s) account"

definition nonce_of :: "chain_state \<Rightarrow> string \<Rightarrow> u64" where
  "nonce_of s account = fmfind 0 (cs_nonces s) account"

definition token_balance_of :: "chain_state \<Rightarrow> string \<Rightarrow> string \<Rightarrow> u64" where
  "token_balance_of s token_id account = fmfind 0 (fmfind fmempty (cs_token_balances s) token_id) account"

definition lp_shares_of :: "chain_state \<Rightarrow> string \<Rightarrow> string \<Rightarrow> u64" where
  "lp_shares_of s token_id account = fmfind 0 (fmfind fmempty (cs_lp_shares s) token_id) account"

definition unbonding_total :: "chain_state \<Rightarrow> string \<Rightarrow> u64 outcome" where
  "unbonding_total s account =
     (case fmlookup (cs_unbonding s) account of None \<Rightarrow> Inr 0
      | Some entries \<Rightarrow> sum_u64 (map ub_amount entries))"

definition validator_set :: "chain_state \<Rightarrow> staker list" where
  "validator_set s =
     map (\<lambda>address. let info = fmfind default_stake_info (cs_stakers s) address in
            \<lparr>st_address = address, st_stake = si_stake info, st_public_key = Some (si_public_key info)\<rparr>)
       (filter (\<lambda>address. 0 < si_stake (fmfind default_stake_info (cs_stakers s) address))
          (keys_of (cs_stakers s)))"


section \<open>Updates\<close>

definition consume_nonce :: "string \<Rightarrow> u64 \<Rightarrow> (chain_state, unit) exec" where
  "consume_nonce account nonce =
     bindE (gets (\<lambda>s. nonce_of s account)) (\<lambda>current.
     bindE (lift (add_u64 current 1)) (\<lambda>expected.
     bindE (ensure (nonce = expected)
              (''Invalid nonce for '' @ account @ '': expected '' @ show_u64 expected @ '', got '' @ show_u64 nonce)) (\<lambda>_.
     modify (\<lambda>s. s\<lparr>cs_nonces := fmupd account nonce (cs_nonces s)\<rparr>))))"

definition debit :: "string \<Rightarrow> u64 \<Rightarrow> (chain_state, unit) exec" where
  "debit account amount =
     bindE (gets (\<lambda>s. balance_of s account)) (\<lambda>balance.
     bindE (ensure (amount \<le> balance)
              (''Insufficient balance for '' @ account @ '': has '' @ show_u64 balance @ '', needs '' @ show_u64 amount)) (\<lambda>_.
     modify (\<lambda>s. s\<lparr>cs_balances := fmupd account (balance - amount) (cs_balances s)\<rparr>)))"

definition try_credit :: "string \<Rightarrow> u64 \<Rightarrow> (chain_state, unit) exec" where
  "try_credit account amount =
     bindE (gets (\<lambda>s. balance_of s account)) (\<lambda>entry.
     bindE (modify (\<lambda>s. s\<lparr>cs_balances := fmupd account entry (cs_balances s)\<rparr>)) (\<lambda>_.
     bindE (need (checked_add entry amount) (''Credit to '' @ account @ '' would overflow the balance'')) (\<lambda>v.
     modify (\<lambda>s. s\<lparr>cs_balances := fmupd account v (cs_balances s)\<rparr>))))"

definition credit :: "string \<Rightarrow> u64 \<Rightarrow> (chain_state, unit) exec" where
  "credit account amount =
     modify (\<lambda>s. s\<lparr>cs_balances := fmupd account (sat_add (balance_of s account) amount) (cs_balances s)\<rparr>)"

definition total_debit :: "u64 \<Rightarrow> u64 \<Rightarrow> u64 outcome" where
  "total_debit amount fee =
     ok_or (checked_add amount fee) ''Amount plus fee exceeds the maximum representable value''"

definition collect_fee :: "u64 \<Rightarrow> (chain_state, unit) exec" where
  "collect_fee fee = modify (\<lambda>s. s\<lparr>cs_fee_pot := sat_add (cs_fee_pot s) fee\<rparr>)"

text \<open>\<open>token_balances.entry(token_id).or_default().insert(account, v)\<close>.\<close>

definition set_token_balance :: "string \<Rightarrow> string \<Rightarrow> u64 \<Rightarrow> chain_state \<Rightarrow> chain_state" where
  "set_token_balance token_id account v s =
     s\<lparr>cs_token_balances :=
         fmupd token_id (fmupd account v (fmfind fmempty (cs_token_balances s) token_id))
           (cs_token_balances s)\<rparr>"

definition try_credit_token :: "string \<Rightarrow> string \<Rightarrow> u64 \<Rightarrow> (chain_state, unit) exec" where
  "try_credit_token token_id account amount =
     bindE (gets (\<lambda>s. token_balance_of s token_id account)) (\<lambda>entry.
     bindE (modify (set_token_balance token_id account entry)) (\<lambda>_.
     bindE (need (checked_add entry amount)
              (''Credit of '' @ token_id @ '' to '' @ account @ '' would overflow the balance'')) (\<lambda>v.
     modify (set_token_balance token_id account v))))"

definition credit_token :: "string \<Rightarrow> string \<Rightarrow> u64 \<Rightarrow> (chain_state, unit) exec" where
  "credit_token token_id account amount =
     modify (\<lambda>s. set_token_balance token_id account (sat_add (token_balance_of s token_id account) amount) s)"

definition debit_token :: "string \<Rightarrow> string \<Rightarrow> u64 \<Rightarrow> (chain_state, unit) exec" where
  "debit_token token_id account amount =
     bindE (gets (\<lambda>s. token_balance_of s token_id account)) (\<lambda>balance.
     bindE (ensure (amount \<le> balance)
              (''Insufficient token balance for '' @ account @ '' in '' @ token_id @ '': has '' @ show_u64 balance
               @ '', needs '' @ show_u64 amount)) (\<lambda>_.
     bindE (gets (\<lambda>s. fmlookup (cs_token_balances s) token_id)) (\<lambda>found.
     bindE (need found (''Unknown token '' @ token_id)) (\<lambda>holders.
     bindE (lift (case fmlookup holders account of None \<Rightarrow> Inl Panic | Some entry \<Rightarrow> Inr entry)) (\<lambda>entry.
     bindE (lift (sub_u64 entry amount)) (\<lambda>rest.
     modify (\<lambda>s. s\<lparr>cs_token_balances :=
        fmupd token_id (if rest = 0 then fmdrop account holders else fmupd account rest holders)
          (cs_token_balances s)\<rparr>)))))))"


section \<open>Genesis and the state root\<close>

definition genesis_for_chain ::
  "string \<Rightarrow> string \<Rightarrow> string option \<Rightarrow> string option \<Rightarrow> u64 \<Rightarrow> string list \<Rightarrow> chain_state outcome" where
  "genesis_for_chain chain_id treasury_address treasury_public_key treasury_vrf_public_key initial_supply
     validator_allowlist =
     (let state0 = default_chain_state
            \<lparr>cs_total_supply := initial_supply, cs_base_fee := TX_FEE,
             cs_validator_allowlist := fset_of_list validator_allowlist, cs_chain_id := chain_id\<rparr>;
          balances0 = fmupd treasury_address initial_supply (cs_balances state0)
      in case treasury_public_key of
           None \<Rightarrow> Inr (state0\<lparr>cs_balances := balances0\<rparr>)
         | Some public_key \<Rightarrow>
             (let stake = min GENESIS_VALIDATOR_STAKE initial_supply in
              bindR (sub_u64 (fmfind 0 balances0 treasury_address) stake) (\<lambda>treasury_balance.
              let balances1 = fmupd treasury_address treasury_balance balances0 in
              bindR (add_u64 (fmfind 0 balances1 STAKING_POOL_ACCOUNT) stake) (\<lambda>pool_balance.
              Inr (state0
                \<lparr>cs_balances := fmupd STAKING_POOL_ACCOUNT pool_balance balances1,
                 cs_stakers := fmupd treasury_address
                   \<lparr>si_stake = stake, si_public_key = public_key,
                    si_vrf_public_key = (case treasury_vrf_public_key of None \<Rightarrow> [] | Some k \<Rightarrow> k),
                    si_pq_public_key = []\<rparr> (cs_stakers state0)\<rparr>)))))"

definition genesis ::
  "string \<Rightarrow> string option \<Rightarrow> string option \<Rightarrow> u64 \<Rightarrow> string list \<Rightarrow> chain_state outcome" where
  "genesis treasury_address treasury_public_key treasury_vrf_public_key initial_supply validator_allowlist =
     genesis_for_chain DEFAULT_CHAIN_ID treasury_address treasury_public_key treasury_vrf_public_key
       initial_supply validator_allowlist"

text \<open>
  \<open>node_lib\<close> adds serde_json to the library: parsing and printing a transaction, and printing
  a state.
\<close>

record node_lib = prims +
  tx_parse :: "string \<Rightarrow> transaction option"
  tx_print :: "transaction \<Rightarrow> string"
  state_print :: "chain_state \<Rightarrow> string"

definition state_root :: "'x node_lib_scheme \<Rightarrow> chain_state \<Rightarrow> string" where
  "state_root L s = lower_hex L (sha256 L (state_print L s))"

text \<open>\<open>VestingEntry::vested_at\<close>. The products are taken in 128 bits, where they fit.\<close>

definition vested_at :: "vesting_entry \<Rightarrow> u64 \<Rightarrow> u64 outcome" where
  "vested_at e height =
     (if height < ve_cliff_height e then Inr 0
      else if ve_end_height e \<le> height then Inr (ve_total e)
      else bindR (sub_u64 height (ve_start_height e)) (\<lambda>elapsed.
           bindR (sub_u64 (ve_end_height e) (ve_start_height e)) (\<lambda>span.
           if span = 0 then Inl Panic
           else Inr (as_u64 (unat (ve_total e) * unat elapsed div unat span)))))"


section \<open>When the primitives succeed\<close>

lemma consume_nonce_ok [exec_ok]:
  "consume_nonce a n s = (Inr (), t) \<longleftrightarrow>
     unat (nonce_of s a) + 1 < 2 ^ 64 \<and> n = nonce_of s a + 1
     \<and> t = s\<lparr>cs_nonces := fmupd a n (cs_nonces s)\<rparr>"
  by (auto simp: consume_nonce_def exec_ok)

lemma debit_ok [exec_ok]:
  "debit a n s = (Inr (), t) \<longleftrightarrow>
     n \<le> balance_of s a \<and> t = s\<lparr>cs_balances := fmupd a (balance_of s a - n) (cs_balances s)\<rparr>"
  by (auto simp: debit_def exec_ok)

lemma try_credit_ok [exec_ok]:
  "try_credit a n s = (Inr (), t) \<longleftrightarrow>
     unat (balance_of s a) + unat n < 2 ^ 64
     \<and> t = s\<lparr>cs_balances := fmupd a (balance_of s a + n) (cs_balances s)\<rparr>"
  by (auto simp: try_credit_def exec_ok checked_add_Some)

lemma credit_ok [exec_ok]:
  "credit a n s = (Inr (), t) \<longleftrightarrow>
     t = s\<lparr>cs_balances := fmupd a (sat_add (balance_of s a) n) (cs_balances s)\<rparr>"
  by (auto simp: credit_def)

lemma total_debit_ok [exec_ok]:
  "total_debit a f = Inr n \<longleftrightarrow> unat a + unat f < 2 ^ 64 \<and> n = a + f"
  by (auto simp: total_debit_def exec_ok checked_add_Some)

lemma collect_fee_ok [exec_ok]:
  "collect_fee f s = (Inr (), t) \<longleftrightarrow> t = s\<lparr>cs_fee_pot := sat_add (cs_fee_pot s) f\<rparr>"
  by (auto simp: collect_fee_def)

lemma set_token_balance_twice [simp]:
  "set_token_balance k a v (set_token_balance k a w s) = set_token_balance k a v s"
  by (simp add: set_token_balance_def)

lemma try_credit_token_ok [exec_ok]:
  "try_credit_token k a n s = (Inr (), t) \<longleftrightarrow>
     unat (token_balance_of s k a) + unat n < 2 ^ 64
     \<and> t = set_token_balance k a (token_balance_of s k a + n) s"
  by (auto simp: try_credit_token_def exec_ok checked_add_Some)

lemma credit_token_ok [exec_ok]:
  "credit_token k a n s = (Inr (), t) \<longleftrightarrow>
     t = set_token_balance k a (sat_add (token_balance_of s k a) n) s"
  by (auto simp: credit_token_def)

definition drop_token_units :: "string \<Rightarrow> string \<Rightarrow> u64 \<Rightarrow> chain_state \<Rightarrow> chain_state" where
  "drop_token_units k a n s =
     (let holders = fmfind fmempty (cs_token_balances s) k; rest = token_balance_of s k a - n in
      s\<lparr>cs_token_balances :=
          fmupd k (if rest = 0 then fmdrop a holders else fmupd a rest holders) (cs_token_balances s)\<rparr>)"

lemma debit_token_ok [exec_ok]:
  "debit_token k a n s = (Inr (), t) \<longleftrightarrow>
     n \<le> token_balance_of s k a \<and> fmhas (cs_token_balances s) k
     \<and> fmhas (fmfind fmempty (cs_token_balances s) k) a \<and> t = drop_token_units k a n s"
  by (auto simp: debit_token_def exec_ok drop_token_units_def token_balance_of_def fmfind_def fmhas_def
      Let_def split: option.splits)


section \<open>When the primitives panic\<close>

lemma lift_panic [exec_panic]: "lift r s = (Inl Panic, t) \<longleftrightarrow> r = Inl Panic \<and> t = s"
  by auto

lemma consume_nonce_panic [exec_panic]:
  "consume_nonce a n s = (Inl Panic, t) \<longleftrightarrow> 2 ^ 64 \<le> unat (nonce_of s a) + 1 \<and> t = s"
  by (auto simp: consume_nonce_def exec_panic exec_ok)

lemma debit_panic [exec_panic]: "debit a n s \<noteq> (Inl Panic, t)"
  by (auto simp: debit_def exec_panic)

lemma try_credit_panic [exec_panic]: "try_credit a n s \<noteq> (Inl Panic, t)"
  by (auto simp: try_credit_def exec_panic)

lemma credit_panic [exec_panic]: "credit a n s \<noteq> (Inl Panic, t)"
  by (auto simp: credit_def exec_panic)

lemma total_debit_panic [exec_panic]: "total_debit a f \<noteq> Inl Panic"
  by (auto simp: total_debit_def exec_panic)

lemma collect_fee_panic [exec_panic]: "collect_fee f s \<noteq> (Inl Panic, t)"
  by (auto simp: collect_fee_def exec_panic)

lemma try_credit_token_panic [exec_panic]: "try_credit_token k a n s \<noteq> (Inl Panic, t)"
  by (auto simp: try_credit_token_def exec_panic)

lemma credit_token_panic [exec_panic]: "credit_token k a n s \<noteq> (Inl Panic, t)"
  by (auto simp: credit_token_def exec_panic)

lemma debit_token_panic [exec_panic]:
  "debit_token k a n s = (Inl Panic, t) \<longleftrightarrow>
     n = 0 \<and> fmhas (cs_token_balances s) k \<and> \<not> fmhas (fmfind fmempty (cs_token_balances s) k) a \<and> t = s"
  by (auto simp: debit_token_def exec_panic exec_ok token_balance_of_def fmfind_def fmhas_def
      split: option.splits)


section \<open>Ledgers of accounts\<close>

text \<open>
  The interface of a ledger: a holding per account, their sum, and the two operations that
  move units in and out. Both sides of a move are then accounted for.
\<close>

locale account_ledger =
  fixes holding :: "'s \<Rightarrow> string \<Rightarrow> int"
    and units :: "'s \<Rightarrow> int"
    and take_from :: "string \<Rightarrow> u64 \<Rightarrow> ('s, unit) exec"
    and give_to :: "string \<Rightarrow> u64 \<Rightarrow> ('s, unit) exec"
  assumes take_holding: "take_from a n s = (Inr (), t) \<Longrightarrow> holding t b = holding s b - (if b = a then uint n else 0)"
    and take_units: "take_from a n s = (Inr (), t) \<Longrightarrow> units t = units s - uint n"
    and take_covered: "take_from a n s = (Inr (), t) \<Longrightarrow> uint n \<le> holding s a"
    and give_holding: "give_to a n s = (Inr (), t) \<Longrightarrow> holding t b = holding s b + (if b = a then uint n else 0)"
    and give_units: "give_to a n s = (Inr (), t) \<Longrightarrow> units t = units s + uint n"
begin

definition move :: "string \<Rightarrow> string \<Rightarrow> u64 \<Rightarrow> ('s, unit) exec" where
  "move a b n = bindE (take_from a n) (\<lambda>_. give_to b n)"

lemma move_steps:
  assumes "move a b n s = (Inr (), t)"
  obtains u where "take_from a n s = (Inr (), u)" "give_to b n u = (Inr (), t)"
  using assms by (auto simp: move_def exec_ok)

lemma move_units:
  assumes "move a b n s = (Inr (), t)"
  shows "units t = units s"
  using assms by (rule move_steps) (use take_units give_units in fastforce)

lemma move_holding:
  assumes "move a b n s = (Inr (), t)"
  shows "holding t c = holding s c - (if c = a then uint n else 0) + (if c = b then uint n else 0)"
proof -
  obtain u where u: "take_from a n s = (Inr (), u)" "give_to b n u = (Inr (), t)"
    using assms by (rule move_steps)
  show ?thesis by (simp only: give_holding [OF u(2)] take_holding [OF u(1)])
qed

lemma move_covered:
  assumes "move a b n s = (Inr (), t)"
  shows "uint n \<le> holding s a"
  using assms by (rule move_steps) (rule take_covered)

lemma move_self: "move a a n s = (Inr (), t) \<Longrightarrow> holding t c = holding s c"
  by (simp add: move_holding)

end

lemma fmsum_uint_upd [ledger_simps]:
  "fmsum uint (fmupd k v m) = fmsum uint m - uint (fmfind 0 m k) + uint (v :: u64)"
  by (rule fmsum_upd) simp

lemma fmsum_uint_drop [ledger_simps]:
  "fmsum uint (fmdrop k m) = fmsum uint m - uint (fmfind 0 m k :: u64)"
  by (rule fmsum_drop) simp

definition hkm_total :: "chain_state \<Rightarrow> int" where
  "hkm_total s = fmsum uint (cs_balances s)"

definition token_total :: "string \<Rightarrow> chain_state \<Rightarrow> int" where
  "token_total k s = fmsum uint (fmfind fmempty (cs_token_balances s) k)"

lemma uint_plus_fits [u64_simps]: "unat (a :: u64) + unat b < 2 ^ 64 \<Longrightarrow> uint (a + b) = uint a + uint b"
  using uint_plus_checked [of a b "a + b"] by (simp add: checked_add_Some)

lemma token_balance_of_set [simp]:
  "token_balance_of (set_token_balance k a v s) k' b
   = (if k' = k \<and> b = a then v else token_balance_of s k' b)"
  by (simp add: token_balance_of_def set_token_balance_def)

lemma token_total_set [simp]:
  "token_total k' (set_token_balance k a v s)
   = (if k' = k then token_total k s - uint (token_balance_of s k a) + uint v else token_total k' s)"
  by (simp add: token_total_def token_balance_of_def set_token_balance_def ledger_simps)

lemma token_balance_of_drop:
  "token_balance_of (drop_token_units k a n s) k' b
   = (if k' = k \<and> b = a then token_balance_of s k a - n else token_balance_of s k' b)"
  by (auto simp: token_balance_of_def drop_token_units_def Let_def)

lemma token_total_drop:
  "n \<le> token_balance_of s k a \<Longrightarrow>
   token_total k' (drop_token_units k a n s) = (if k' = k then token_total k s - uint n else token_total k' s)"
  by (auto simp: token_total_def token_balance_of_def drop_token_units_def Let_def ledger_simps uint_minus_le)

text \<open>Queries and updates that do not touch the same field.\<close>

lemma balance_of_frame [simp]:
  "balance_of (s\<lparr>cs_stakers := x_stakers\<rparr>) a = balance_of s a"
  "balance_of (s\<lparr>cs_nonces := x_nonces\<rparr>) a = balance_of s a"
  "balance_of (s\<lparr>cs_credentials := x_credentials\<rparr>) a = balance_of s a"
  "balance_of (s\<lparr>cs_slashed_offenses := x_slashed_offenses\<rparr>) a = balance_of s a"
  "balance_of (s\<lparr>cs_unbonding := x_unbonding\<rparr>) a = balance_of s a"
  "balance_of (s\<lparr>cs_vesting := x_vesting\<rparr>) a = balance_of s a"
  "balance_of (s\<lparr>cs_tokens := x_tokens\<rparr>) a = balance_of s a"
  "balance_of (s\<lparr>cs_token_balances := x_token_balances\<rparr>) a = balance_of s a"
  "balance_of (s\<lparr>cs_pools := x_pools\<rparr>) a = balance_of s a"
  "balance_of (s\<lparr>cs_lp_shares := x_lp_shares\<rparr>) a = balance_of s a"
  "balance_of (s\<lparr>cs_fee_pot := x_fee_pot\<rparr>) a = balance_of s a"
  "balance_of (s\<lparr>cs_base_fee := x_base_fee\<rparr>) a = balance_of s a"
  "balance_of (s\<lparr>cs_total_supply := x_total_supply\<rparr>) a = balance_of s a"
  "balance_of (s\<lparr>cs_burned := x_burned\<rparr>) a = balance_of s a"
  by (simp_all add: balance_of_def)

lemma nonce_of_frame [simp]:
  "nonce_of (s\<lparr>cs_balances := x_balances\<rparr>) a = nonce_of s a"
  "nonce_of (s\<lparr>cs_stakers := x_stakers\<rparr>) a = nonce_of s a"
  "nonce_of (s\<lparr>cs_credentials := x_credentials\<rparr>) a = nonce_of s a"
  "nonce_of (s\<lparr>cs_slashed_offenses := x_slashed_offenses\<rparr>) a = nonce_of s a"
  "nonce_of (s\<lparr>cs_unbonding := x_unbonding\<rparr>) a = nonce_of s a"
  "nonce_of (s\<lparr>cs_vesting := x_vesting\<rparr>) a = nonce_of s a"
  "nonce_of (s\<lparr>cs_tokens := x_tokens\<rparr>) a = nonce_of s a"
  "nonce_of (s\<lparr>cs_token_balances := x_token_balances\<rparr>) a = nonce_of s a"
  "nonce_of (s\<lparr>cs_pools := x_pools\<rparr>) a = nonce_of s a"
  "nonce_of (s\<lparr>cs_lp_shares := x_lp_shares\<rparr>) a = nonce_of s a"
  "nonce_of (s\<lparr>cs_fee_pot := x_fee_pot\<rparr>) a = nonce_of s a"
  "nonce_of (s\<lparr>cs_base_fee := x_base_fee\<rparr>) a = nonce_of s a"
  "nonce_of (s\<lparr>cs_total_supply := x_total_supply\<rparr>) a = nonce_of s a"
  "nonce_of (s\<lparr>cs_burned := x_burned\<rparr>) a = nonce_of s a"
  by (simp_all add: nonce_of_def)

lemma token_balance_of_frame [simp]:
  "token_balance_of (s\<lparr>cs_balances := x_balances\<rparr>) k a = token_balance_of s k a"
  "token_balance_of (s\<lparr>cs_stakers := x_stakers\<rparr>) k a = token_balance_of s k a"
  "token_balance_of (s\<lparr>cs_nonces := x_nonces\<rparr>) k a = token_balance_of s k a"
  "token_balance_of (s\<lparr>cs_credentials := x_credentials\<rparr>) k a = token_balance_of s k a"
  "token_balance_of (s\<lparr>cs_slashed_offenses := x_slashed_offenses\<rparr>) k a = token_balance_of s k a"
  "token_balance_of (s\<lparr>cs_unbonding := x_unbonding\<rparr>) k a = token_balance_of s k a"
  "token_balance_of (s\<lparr>cs_vesting := x_vesting\<rparr>) k a = token_balance_of s k a"
  "token_balance_of (s\<lparr>cs_tokens := x_tokens\<rparr>) k a = token_balance_of s k a"
  "token_balance_of (s\<lparr>cs_pools := x_pools\<rparr>) k a = token_balance_of s k a"
  "token_balance_of (s\<lparr>cs_lp_shares := x_lp_shares\<rparr>) k a = token_balance_of s k a"
  "token_balance_of (s\<lparr>cs_fee_pot := x_fee_pot\<rparr>) k a = token_balance_of s k a"
  "token_balance_of (s\<lparr>cs_base_fee := x_base_fee\<rparr>) k a = token_balance_of s k a"
  "token_balance_of (s\<lparr>cs_total_supply := x_total_supply\<rparr>) k a = token_balance_of s k a"
  "token_balance_of (s\<lparr>cs_burned := x_burned\<rparr>) k a = token_balance_of s k a"
  by (simp_all add: token_balance_of_def)

lemma lp_shares_of_frame [simp]:
  "lp_shares_of (s\<lparr>cs_balances := x_balances\<rparr>) k a = lp_shares_of s k a"
  "lp_shares_of (s\<lparr>cs_stakers := x_stakers\<rparr>) k a = lp_shares_of s k a"
  "lp_shares_of (s\<lparr>cs_nonces := x_nonces\<rparr>) k a = lp_shares_of s k a"
  "lp_shares_of (s\<lparr>cs_credentials := x_credentials\<rparr>) k a = lp_shares_of s k a"
  "lp_shares_of (s\<lparr>cs_slashed_offenses := x_slashed_offenses\<rparr>) k a = lp_shares_of s k a"
  "lp_shares_of (s\<lparr>cs_unbonding := x_unbonding\<rparr>) k a = lp_shares_of s k a"
  "lp_shares_of (s\<lparr>cs_vesting := x_vesting\<rparr>) k a = lp_shares_of s k a"
  "lp_shares_of (s\<lparr>cs_tokens := x_tokens\<rparr>) k a = lp_shares_of s k a"
  "lp_shares_of (s\<lparr>cs_token_balances := x_token_balances\<rparr>) k a = lp_shares_of s k a"
  "lp_shares_of (s\<lparr>cs_pools := x_pools\<rparr>) k a = lp_shares_of s k a"
  "lp_shares_of (s\<lparr>cs_fee_pot := x_fee_pot\<rparr>) k a = lp_shares_of s k a"
  "lp_shares_of (s\<lparr>cs_base_fee := x_base_fee\<rparr>) k a = lp_shares_of s k a"
  "lp_shares_of (s\<lparr>cs_total_supply := x_total_supply\<rparr>) k a = lp_shares_of s k a"
  "lp_shares_of (s\<lparr>cs_burned := x_burned\<rparr>) k a = lp_shares_of s k a"
  by (simp_all add: lp_shares_of_def)

lemma hkm_total_frame [simp]:
  "hkm_total (s\<lparr>cs_stakers := x_stakers\<rparr>) = hkm_total s"
  "hkm_total (s\<lparr>cs_nonces := x_nonces\<rparr>) = hkm_total s"
  "hkm_total (s\<lparr>cs_credentials := x_credentials\<rparr>) = hkm_total s"
  "hkm_total (s\<lparr>cs_slashed_offenses := x_slashed_offenses\<rparr>) = hkm_total s"
  "hkm_total (s\<lparr>cs_unbonding := x_unbonding\<rparr>) = hkm_total s"
  "hkm_total (s\<lparr>cs_vesting := x_vesting\<rparr>) = hkm_total s"
  "hkm_total (s\<lparr>cs_tokens := x_tokens\<rparr>) = hkm_total s"
  "hkm_total (s\<lparr>cs_token_balances := x_token_balances\<rparr>) = hkm_total s"
  "hkm_total (s\<lparr>cs_pools := x_pools\<rparr>) = hkm_total s"
  "hkm_total (s\<lparr>cs_lp_shares := x_lp_shares\<rparr>) = hkm_total s"
  "hkm_total (s\<lparr>cs_fee_pot := x_fee_pot\<rparr>) = hkm_total s"
  "hkm_total (s\<lparr>cs_base_fee := x_base_fee\<rparr>) = hkm_total s"
  "hkm_total (s\<lparr>cs_total_supply := x_total_supply\<rparr>) = hkm_total s"
  "hkm_total (s\<lparr>cs_burned := x_burned\<rparr>) = hkm_total s"
  by (simp_all add: hkm_total_def)

lemma token_total_frame [simp]:
  "token_total k (s\<lparr>cs_balances := x_balances\<rparr>) = token_total k s"
  "token_total k (s\<lparr>cs_stakers := x_stakers\<rparr>) = token_total k s"
  "token_total k (s\<lparr>cs_nonces := x_nonces\<rparr>) = token_total k s"
  "token_total k (s\<lparr>cs_credentials := x_credentials\<rparr>) = token_total k s"
  "token_total k (s\<lparr>cs_slashed_offenses := x_slashed_offenses\<rparr>) = token_total k s"
  "token_total k (s\<lparr>cs_unbonding := x_unbonding\<rparr>) = token_total k s"
  "token_total k (s\<lparr>cs_vesting := x_vesting\<rparr>) = token_total k s"
  "token_total k (s\<lparr>cs_tokens := x_tokens\<rparr>) = token_total k s"
  "token_total k (s\<lparr>cs_pools := x_pools\<rparr>) = token_total k s"
  "token_total k (s\<lparr>cs_lp_shares := x_lp_shares\<rparr>) = token_total k s"
  "token_total k (s\<lparr>cs_fee_pot := x_fee_pot\<rparr>) = token_total k s"
  "token_total k (s\<lparr>cs_base_fee := x_base_fee\<rparr>) = token_total k s"
  "token_total k (s\<lparr>cs_total_supply := x_total_supply\<rparr>) = token_total k s"
  "token_total k (s\<lparr>cs_burned := x_burned\<rparr>) = token_total k s"
  by (simp_all add: token_total_def)

lemma updated_fields [simp]:
  "balance_of (s\<lparr>cs_balances := fmupd b v m\<rparr>) a
   = (if a = b then v else balance_of (s\<lparr>cs_balances := m\<rparr>) a)"
  "balance_of (s\<lparr>cs_balances := cs_balances s'\<rparr>) a = balance_of s' a"
  "nonce_of (s\<lparr>cs_nonces := n\<rparr>) a = fmfind 0 n a"
  by (simp_all add: balance_of_def nonce_of_def)

lemma set_token_balance_fields [simp]:
  "cs_balances (set_token_balance k a v s) = cs_balances s"
  "cs_stakers (set_token_balance k a v s) = cs_stakers s"
  "cs_nonces (set_token_balance k a v s) = cs_nonces s"
  "cs_credentials (set_token_balance k a v s) = cs_credentials s"
  "cs_slashed_offenses (set_token_balance k a v s) = cs_slashed_offenses s"
  "cs_unbonding (set_token_balance k a v s) = cs_unbonding s"
  "cs_vesting (set_token_balance k a v s) = cs_vesting s"
  "cs_tokens (set_token_balance k a v s) = cs_tokens s"
  "cs_pools (set_token_balance k a v s) = cs_pools s"
  "cs_lp_shares (set_token_balance k a v s) = cs_lp_shares s"
  "cs_fee_pot (set_token_balance k a v s) = cs_fee_pot s"
  "cs_base_fee (set_token_balance k a v s) = cs_base_fee s"
  "cs_total_supply (set_token_balance k a v s) = cs_total_supply s"
  "cs_burned (set_token_balance k a v s) = cs_burned s"
  by (simp_all add: set_token_balance_def)

lemma drop_token_units_fields [simp]:
  "cs_balances (drop_token_units k a v s) = cs_balances s"
  "cs_stakers (drop_token_units k a v s) = cs_stakers s"
  "cs_nonces (drop_token_units k a v s) = cs_nonces s"
  "cs_credentials (drop_token_units k a v s) = cs_credentials s"
  "cs_slashed_offenses (drop_token_units k a v s) = cs_slashed_offenses s"
  "cs_unbonding (drop_token_units k a v s) = cs_unbonding s"
  "cs_vesting (drop_token_units k a v s) = cs_vesting s"
  "cs_tokens (drop_token_units k a v s) = cs_tokens s"
  "cs_pools (drop_token_units k a v s) = cs_pools s"
  "cs_lp_shares (drop_token_units k a v s) = cs_lp_shares s"
  "cs_fee_pot (drop_token_units k a v s) = cs_fee_pot s"
  "cs_base_fee (drop_token_units k a v s) = cs_base_fee s"
  "cs_total_supply (drop_token_units k a v s) = cs_total_supply s"
  "cs_burned (drop_token_units k a v s) = cs_burned s"
  by (simp_all add: drop_token_units_def Let_def)

lemma token_updates_frame [simp]:
  "balance_of (set_token_balance k a v s) b = balance_of s b"
  "balance_of (drop_token_units k a v s) b = balance_of s b"
  "hkm_total (set_token_balance k a v s) = hkm_total s"
  "hkm_total (drop_token_units k a v s) = hkm_total s"
  by (simp_all add: balance_of_def hkm_total_def)

interpretation hkm: account_ledger "\<lambda>s a. uint (balance_of s a)" hkm_total debit try_credit
  by unfold_locales
     (auto simp: exec_ok hkm_total_def balance_of_def ledger_simps uint_minus_le uint_plus_fits
       word_le_def)

interpretation tok: account_ledger "\<lambda>s a. uint (token_balance_of s k a)" "token_total k"
    "debit_token k" "try_credit_token k" for k
  by unfold_locales
     (auto simp: exec_ok token_balance_of_drop token_total_drop uint_minus_le uint_plus_fits word_le_def)

end
