(* ===== verification/Transfers.thy ===== *)
theory Transfers
  imports Ledger
begin

text \<open>
  The arms of \<open>ChainState::apply_verified\<close> (\<open>state.rs\<close>) that move HKM or record a credential:
  \<open>Transfer\<close>, \<open>Vest\<close>, \<open>Reward\<close> and \<open>Certificate\<close>, each the whole arm with its early returns, and
  the writes it leaves behind when it fails half way.
\<close>

text \<open>
  The prefix the arms share that pay only the fee in HKM: spend the nonce, debit the base
  fee, add it to the pot.
\<close>

definition charge_fee :: "string \<Rightarrow> u64 \<Rightarrow> (chain_state, unit) exec" where
  "charge_fee sender nonce =
     bindE (consume_nonce sender nonce) (\<lambda>_.
     bindE (gets cs_base_fee) (\<lambda>fee.
     bindE (debit sender fee) (\<lambda>_.
     collect_fee fee)))"

text \<open>The same for the pool operations that also hand in an amount of HKM.\<close>

definition charge_amount :: "string \<Rightarrow> u64 \<Rightarrow> u64 \<Rightarrow> (chain_state, unit) exec" where
  "charge_amount sender nonce amount =
     bindE (consume_nonce sender nonce) (\<lambda>_.
     bindE (gets cs_base_fee) (\<lambda>fee.
     bindE (lift (total_debit amount fee)) (\<lambda>cost.
     bindE (debit sender cost) (\<lambda>_.
     collect_fee fee))))"

definition apply_transfer :: "transaction \<Rightarrow> (chain_state, unit) exec" where
  "apply_transfer tx =
     bindE (need (tx_from tx) ''Transfer missing sender'') (\<lambda>sender.
     bindE (ensure (is_valid_address (tx_to tx))
              (''Transfer recipient '' @ [CHR 0x27] @ tx_to tx @ [CHR 0x27] @ '' is not a valid hkm address'')) (\<lambda>_.
     bindE (consume_nonce sender (tx_nonce tx)) (\<lambda>_.
     bindE (gets cs_base_fee) (\<lambda>fee.
     bindE (lift (total_debit (tx_amount tx) fee)) (\<lambda>total.
     bindE (debit sender total) (\<lambda>_.
     bindE (try_credit (tx_to tx) (tx_amount tx)) (\<lambda>_.
     collect_fee fee)))))))"

definition apply_vest :: "transaction \<Rightarrow> u64 \<Rightarrow> (chain_state, unit) exec" where
  "apply_vest tx height =
     bindE (need (tx_from tx) ''Vest missing sender'') (\<lambda>sender.
     bindE (need (tx_vesting_cliff_blocks tx) ''Vest missing cliff'') (\<lambda>cliff.
     bindE (need (tx_vesting_duration_blocks tx) ''Vest missing duration'') (\<lambda>duration.
     bindE (ensure (\<not> (duration = 0 \<or> duration < cliff)) ''Invalid vesting schedule'') (\<lambda>_.
     bindE (ensure (is_valid_address (tx_to tx))
              (''Vest beneficiary '' @ [CHR 0x27] @ tx_to tx @ [CHR 0x27] @ '' is not a valid hkm address'')) (\<lambda>_.
     bindE (consume_nonce sender (tx_nonce tx)) (\<lambda>_.
     bindE (gets cs_base_fee) (\<lambda>fee.
     bindE (lift (total_debit (tx_amount tx) fee)) (\<lambda>total.
     bindE (debit sender total) (\<lambda>_.
     bindE (try_credit VESTING_POOL_ACCOUNT (tx_amount tx)) (\<lambda>_.
     bindE (collect_fee fee) (\<lambda>_.
     bindE (lift (add_u64 height cliff)) (\<lambda>cliff_height.
     bindE (lift (add_u64 height duration)) (\<lambda>end_height.
     modify (\<lambda>s. s\<lparr>cs_vesting :=
       fmupd (tx_to tx)
         (fmfind [] (cs_vesting s) (tx_to tx) @
            [\<lparr>ve_total = tx_amount tx, ve_released = 0, ve_start_height = height,
              ve_cliff_height = cliff_height, ve_end_height = end_height\<rparr>])
         (cs_vesting s)\<rparr>))))))))))))))"

definition apply_reward :: "transaction \<Rightarrow> (chain_state, unit) exec" where
  "apply_reward tx =
     bindE (credit (tx_to tx) (tx_amount tx)) (\<lambda>_.
     modify (\<lambda>s. s\<lparr>cs_total_supply := sat_add (cs_total_supply s) (tx_amount tx)\<rparr>))"

definition apply_certificate :: "'x prims_scheme \<Rightarrow> transaction \<Rightarrow> (chain_state, unit) exec" where
  "apply_certificate L tx =
     (case tx_credential tx of None \<Rightarrow> ret ()
      | Some action \<Rightarrow>
          bindE (need (tx_from tx) ''Credential action missing issuer'') (\<lambda>issuer.
          bindE (consume_nonce issuer (tx_nonce tx)) (\<lambda>_.
          if ca_revoke action then
            bindE (gets (\<lambda>s. fmlookup (cs_credentials s) (ca_id action))) (\<lambda>found.
            bindE (need found (''Credential '' @ ca_id action @ '' not found'')) (\<lambda>record.
            bindE (ensure (cr_issuer record = issuer) ''Only the issuer can revoke a credential'') (\<lambda>_.
            modify (\<lambda>s. s\<lparr>cs_credentials := fmupd (ca_id action) (record\<lparr>cr_revoked := True\<rparr>) (cs_credentials s)\<rparr>))))
          else
            bindE (gets (\<lambda>s. fmhas (cs_credentials s) (ca_id action))) (\<lambda>taken.
            bindE (ensure (\<not> taken) (''Credential '' @ ca_id action @ '' already exists'')) (\<lambda>_.
            modify (\<lambda>s. s\<lparr>cs_credentials :=
              fmupd (ca_id action)
                \<lparr>cr_issuer = issuer, cr_subject = ca_subject action, cr_data_hash = ca_data_hash action,
                 cr_issued_at = time_rfc3339 L (tx_timestamp tx), cr_revoked = False\<rparr>
                (cs_credentials s)\<rparr>))))))"


section \<open>When they succeed\<close>

text \<open>The fee and the amount leave the sender in one debit; the nonce is spent first.\<close>

definition spend :: "string \<Rightarrow> u64 \<Rightarrow> u64 \<Rightarrow> chain_state \<Rightarrow> chain_state" where
  "spend sender nonce cost s =
     s\<lparr>cs_nonces := fmupd sender nonce (cs_nonces s),
       cs_balances := fmupd sender (balance_of s sender - cost) (cs_balances s)\<rparr>"

definition pay_fee :: "string \<Rightarrow> u64 \<Rightarrow> chain_state \<Rightarrow> chain_state" where
  "pay_fee sender nonce s =
     (spend sender nonce (cs_base_fee s) s)\<lparr>cs_fee_pot := sat_add (cs_fee_pot s) (cs_base_fee s)\<rparr>"

definition can_pay_fee :: "string \<Rightarrow> u64 \<Rightarrow> chain_state \<Rightarrow> bool" where
  "can_pay_fee sender nonce s \<longleftrightarrow>
     unat (nonce_of s sender) + 1 < 2 ^ 64 \<and> nonce = nonce_of s sender + 1
     \<and> cs_base_fee s \<le> balance_of s sender"

lemma charge_fee_ok [exec_ok]:
  "charge_fee a n s = (Inr (), t) \<longleftrightarrow> can_pay_fee a n s \<and> t = pay_fee a n s"
  by (auto simp: charge_fee_def exec_ok can_pay_fee_def pay_fee_def spend_def balance_of_def)

lemma charge_fee_panic [exec_panic]:
  "charge_fee a n s = (Inl Panic, t) \<longleftrightarrow> 2 ^ 64 \<le> unat (nonce_of s a) + 1 \<and> t = s"
  by (auto simp: charge_fee_def exec_panic exec_ok)

definition pay_amount :: "string \<Rightarrow> u64 \<Rightarrow> u64 \<Rightarrow> chain_state \<Rightarrow> chain_state" where
  "pay_amount sender nonce amount s =
     (spend sender nonce (amount + cs_base_fee s) s)\<lparr>cs_fee_pot := sat_add (cs_fee_pot s) (cs_base_fee s)\<rparr>"

definition can_pay_amount :: "string \<Rightarrow> u64 \<Rightarrow> u64 \<Rightarrow> chain_state \<Rightarrow> bool" where
  "can_pay_amount sender nonce amount s \<longleftrightarrow>
     unat (nonce_of s sender) + 1 < 2 ^ 64 \<and> nonce = nonce_of s sender + 1
     \<and> unat amount + unat (cs_base_fee s) < 2 ^ 64 \<and> amount + cs_base_fee s \<le> balance_of s sender"

lemma charge_amount_ok [exec_ok]:
  "charge_amount a n m s = (Inr (), t) \<longleftrightarrow> can_pay_amount a n m s \<and> t = pay_amount a n m s"
  by (auto simp: charge_amount_def exec_ok can_pay_amount_def pay_amount_def spend_def balance_of_def)

lemma charge_amount_panic [exec_panic]:
  "charge_amount a n m s = (Inl Panic, t) \<longleftrightarrow> 2 ^ 64 \<le> unat (nonce_of s a) + 1 \<and> t = s"
  by (auto simp: charge_amount_def exec_panic exec_ok)

lemma pay_amount_fields [simp]:
  "cs_tokens (pay_amount a n m s) = cs_tokens s"
  "cs_token_balances (pay_amount a n m s) = cs_token_balances s"
  "cs_pools (pay_amount a n m s) = cs_pools s" "cs_lp_shares (pay_amount a n m s) = cs_lp_shares s"
  "cs_stakers (pay_amount a n m s) = cs_stakers s" "cs_unbonding (pay_amount a n m s) = cs_unbonding s"
  "cs_vesting (pay_amount a n m s) = cs_vesting s" "cs_total_supply (pay_amount a n m s) = cs_total_supply s"
  "cs_base_fee (pay_amount a n m s) = cs_base_fee s" "cs_chain_id (pay_amount a n m s) = cs_chain_id s"
  "token_balance_of (pay_amount a n m s) k b = token_balance_of s k b"
  "token_total k (pay_amount a n m s) = token_total k s"
  by (simp_all add: pay_amount_def spend_def token_balance_of_def token_total_def)

lemma pay_fee_fields [simp]:
  "cs_tokens (pay_fee a n s) = cs_tokens s" "cs_token_balances (pay_fee a n s) = cs_token_balances s"
  "cs_pools (pay_fee a n s) = cs_pools s" "cs_lp_shares (pay_fee a n s) = cs_lp_shares s"
  "cs_stakers (pay_fee a n s) = cs_stakers s" "cs_unbonding (pay_fee a n s) = cs_unbonding s"
  "cs_vesting (pay_fee a n s) = cs_vesting s" "cs_total_supply (pay_fee a n s) = cs_total_supply s"
  "cs_base_fee (pay_fee a n s) = cs_base_fee s" "cs_chain_id (pay_fee a n s) = cs_chain_id s"
  "cs_credentials (pay_fee a n s) = cs_credentials s"
  "cs_slashed_offenses (pay_fee a n s) = cs_slashed_offenses s"
  "token_balance_of (pay_fee a n s) k b = token_balance_of s k b"
  "token_total k (pay_fee a n s) = token_total k s"
  by (simp_all add: pay_fee_def spend_def token_balance_of_def token_total_def)

lemma apply_transfer_ok:
  "apply_transfer tx s = (Inr (), t) \<longleftrightarrow>
     (\<exists>sender u. tx_from tx = Some sender \<and> is_valid_address (tx_to tx)
        \<and> unat (nonce_of s sender) + 1 < 2 ^ 64 \<and> tx_nonce tx = nonce_of s sender + 1
        \<and> unat (tx_amount tx) + unat (cs_base_fee s) < 2 ^ 64
        \<and> tx_amount tx + cs_base_fee s \<le> balance_of s sender
        \<and> u = spend sender (tx_nonce tx) (tx_amount tx + cs_base_fee s) s
        \<and> unat (balance_of u (tx_to tx)) + unat (tx_amount tx) < 2 ^ 64
        \<and> t = u\<lparr>cs_balances := fmupd (tx_to tx) (balance_of u (tx_to tx) + tx_amount tx) (cs_balances u),
                cs_fee_pot := sat_add (cs_fee_pot s) (cs_base_fee s)\<rparr>)"
  by (auto simp: apply_transfer_def exec_ok spend_def balance_of_def)

text \<open>The checks of a payment, read without wrap-around.\<close>

lemma next_nonce_iff: "unat k = unat n + 1 \<longleftrightarrow> unat n + 1 < 2 ^ 64 \<and> k = n + 1" for k n :: u64
  using unat_u64_less [of k] by (auto simp: word_unat_eq_iff unat_plus simp del: unat_u64_less)

lemma affordable_iff: "unat x + unat f \<le> unat b \<longleftrightarrow> unat x + unat f < 2 ^ 64 \<and> x + f \<le> b" for x f b :: u64
  using unat_u64_less [of b] by (auto simp: word_le_nat_alt unat_plus simp del: unat_u64_less)

lemma self_payment_fits:
  fixes x f b :: u64
  assumes "unat x + unat f \<le> unat b"
  shows "unat (b - (x + f)) + unat x < 2 ^ 64" "b - (x + f) + x = b - f"
proof -
  have "x + f \<le> b" "unat (x + f) = unat x + unat f" using assms affordable_iff [of x f b] by (auto simp: unat_plus)
  then have "unat (b - (x + f)) = unat b - (unat x + unat f)" by (simp add: unat_minus)
  with assms have "unat (b - (x + f)) + unat x < 18446744073709551616"
    using unat_u64_less [of b] by linarith
  then show "unat (b - (x + f)) + unat x < 2 ^ 64" by simp
qed simp

lemma apply_vest_ok:
  "apply_vest tx h s = (Inr (), t) \<longleftrightarrow>
     (\<exists>sender cliff duration u. tx_from tx = Some sender \<and> tx_vesting_cliff_blocks tx = Some cliff
        \<and> tx_vesting_duration_blocks tx = Some duration \<and> duration \<noteq> 0 \<and> cliff \<le> duration
        \<and> is_valid_address (tx_to tx)
        \<and> unat (nonce_of s sender) + 1 < 2 ^ 64 \<and> tx_nonce tx = nonce_of s sender + 1
        \<and> unat (tx_amount tx) + unat (cs_base_fee s) < 2 ^ 64
        \<and> tx_amount tx + cs_base_fee s \<le> balance_of s sender
        \<and> u = spend sender (tx_nonce tx) (tx_amount tx + cs_base_fee s) s
        \<and> unat (balance_of u VESTING_POOL_ACCOUNT) + unat (tx_amount tx) < 2 ^ 64
        \<and> unat h + unat cliff < 2 ^ 64 \<and> unat h + unat duration < 2 ^ 64
        \<and> t = u\<lparr>cs_balances := fmupd VESTING_POOL_ACCOUNT
                    (balance_of u VESTING_POOL_ACCOUNT + tx_amount tx) (cs_balances u),
                cs_fee_pot := sat_add (cs_fee_pot s) (cs_base_fee s),
                cs_vesting := fmupd (tx_to tx)
                   (fmfind [] (cs_vesting s) (tx_to tx) @
                     [\<lparr>ve_total = tx_amount tx, ve_released = 0, ve_start_height = h,
                       ve_cliff_height = h + cliff, ve_end_height = h + duration\<rparr>]) (cs_vesting s)\<rparr>)"
  by (auto simp: apply_vest_def exec_ok spend_def balance_of_def not_less)

lemma apply_reward_ok:
  "apply_reward tx s = (Inr (), t) \<longleftrightarrow>
     t = s\<lparr>cs_balances := fmupd (tx_to tx) (sat_add (balance_of s (tx_to tx)) (tx_amount tx)) (cs_balances s),
           cs_total_supply := sat_add (cs_total_supply s) (tx_amount tx)\<rparr>"
  by (auto simp: apply_reward_def exec_ok)

lemma apply_certificate_ok:
  "apply_certificate L tx s = (Inr (), t) \<longleftrightarrow>
     (case tx_credential tx of None \<Rightarrow> t = s
      | Some action \<Rightarrow> \<exists>issuer record.
          tx_from tx = Some issuer \<and> unat (nonce_of s issuer) + 1 < 2 ^ 64
          \<and> tx_nonce tx = nonce_of s issuer + 1
          \<and> (if ca_revoke action
             then (\<exists>old. fmlookup (cs_credentials s) (ca_id action) = Some old \<and> cr_issuer old = issuer
                     \<and> record = old\<lparr>cr_revoked := True\<rparr>)
             else fmlookup (cs_credentials s) (ca_id action) = None
                  \<and> record = \<lparr>cr_issuer = issuer, cr_subject = ca_subject action,
                        cr_data_hash = ca_data_hash action,
                        cr_issued_at = time_rfc3339 L (tx_timestamp tx), cr_revoked = False\<rparr>)
          \<and> t = s\<lparr>cs_nonces := fmupd issuer (tx_nonce tx) (cs_nonces s),
                  cs_credentials := fmupd (ca_id action) record (cs_credentials s)\<rparr>)"
  by (auto simp: apply_certificate_def exec_ok fmhas_def split: option.splits)

lemma apply_transfer_panic [exec_panic]:
  "apply_transfer tx s = (Inl Panic, t) \<longleftrightarrow>
     (\<exists>sender. tx_from tx = Some sender \<and> is_valid_address (tx_to tx)
        \<and> 2 ^ 64 \<le> unat (nonce_of s sender) + 1 \<and> t = s)"
  by (auto simp: apply_transfer_def exec_panic exec_ok)

lemma apply_reward_panic [exec_panic]: "apply_reward tx s \<noteq> (Inl Panic, t)"
  by (auto simp: apply_reward_def exec_panic)

end
