(* ===== verification/Staking.thy ===== *)
theory Staking
  imports Transfers
begin

text \<open>
  The arms of \<open>ChainState::apply_verified\<close> (\<open>state.rs\<close>) that change the validator set: \<open>Stake\<close>,
  \<open>Withdraw\<close> and \<open>Slash\<close>. Staked and unbonding funds sit in the staking pool account; the
  lemmas say when each arm succeeds and with which state.
\<close>


section \<open>Stake\<close>

definition set_staker :: "string \<Rightarrow> stake_info \<Rightarrow> chain_state \<Rightarrow> chain_state" where
  "set_staker a info s = s\<lparr>cs_stakers := fmupd a info (cs_stakers s)\<rparr>"

definition staker_of :: "chain_state \<Rightarrow> string \<Rightarrow> stake_info" where
  "staker_of s a = fmfind default_stake_info (cs_stakers s) a"

definition may_join :: "string \<Rightarrow> chain_state \<Rightarrow> bool" where
  "may_join a s \<longleftrightarrow>
     cs_validator_allowlist s = {||} \<or> fmhas (cs_stakers s) a \<or> a |\<in>| cs_validator_allowlist s"

text \<open>The registration half of the arm, after the funds have moved.\<close>

definition register_stake :: "transaction \<Rightarrow> string \<Rightarrow> string \<Rightarrow> string \<Rightarrow> (chain_state, unit) exec" where
  "register_stake tx sender public_key vrf_public_key =
     bindE (gets (\<lambda>s. staker_of s sender)) (\<lambda>entry.
     bindE (modify (set_staker sender entry)) (\<lambda>_.
     bindE (need (checked_add (si_stake entry) (tx_amount tx)) ''Stake would overflow'') (\<lambda>stake.
     bindE (modify (set_staker sender
              (entry\<lparr>si_stake := stake, si_public_key := public_key, si_vrf_public_key := vrf_public_key\<rparr>))) (\<lambda>_.
     bindE (if scheme_of sender = Some Hybrid
            then need (tx_pq_public_key tx) ''Hybrid validator must register a post-quantum key''
            else ret []) (\<lambda>pq_public_key.
     modify (set_staker sender
       \<lparr>si_stake = stake, si_public_key = public_key, si_vrf_public_key = vrf_public_key,
        si_pq_public_key = pq_public_key\<rparr>))))))"

definition apply_stake :: "transaction \<Rightarrow> (chain_state, unit) exec" where
  "apply_stake tx =
     bindE (need (tx_from tx) ''Stake missing sender'') (\<lambda>sender.
     bindE (need (tx_public_key tx) ''Stake missing public key'') (\<lambda>public_key.
     bindE (need (tx_vrf_public_key tx) ''Stake missing VRF public key'') (\<lambda>vrf_public_key.
     bindE (gets (may_join sender)) (\<lambda>allowed.
     bindE (ensure allowed
              (''Validator registration is allowlist-gated at this network''
               @ [CHR 0x27] @ ''s genesis; '' @ sender @ '' is not on the allowlist'')) (\<lambda>_.
     bindE (gets (\<lambda>s. sat_add (si_stake (staker_of s sender)) (tx_amount tx))) (\<lambda>resulting.
     bindE (ensure (MIN_VALIDATOR_STAKE \<le> resulting)
              (''Stake below the validator minimum: '' @ sender @ '' would hold '' @ show_u64 resulting
               @ '', need '' @ show_u64 MIN_VALIDATOR_STAKE)) (\<lambda>_.
     bindE (consume_nonce sender (tx_nonce tx)) (\<lambda>_.
     bindE (gets cs_base_fee) (\<lambda>fee.
     bindE (lift (total_debit (tx_amount tx) fee)) (\<lambda>cost.
     bindE (debit sender cost) (\<lambda>_.
     bindE (try_credit STAKING_POOL_ACCOUNT (tx_amount tx)) (\<lambda>_.
     bindE (collect_fee fee) (\<lambda>_.
     register_stake tx sender public_key vrf_public_key)))))))))))))"

lemma register_stake_ok:
  "register_stake tx a pk vk s = (Inr (), t) \<longleftrightarrow>
     unat (si_stake (staker_of s a)) + unat (tx_amount tx) < 2 ^ 64
     \<and> (\<exists>pq. (if scheme_of a = Some Hybrid then tx_pq_public_key tx = Some pq else pq = [])
          \<and> t = set_staker a
                 \<lparr>si_stake = si_stake (staker_of s a) + tx_amount tx, si_public_key = pk,
                  si_vrf_public_key = vk, si_pq_public_key = pq\<rparr> s)"
  by (auto simp: register_stake_def exec_ok checked_add_Some set_staker_def)

lemma apply_stake_ok:
  "apply_stake tx s = (Inr (), t) \<longleftrightarrow>
     (\<exists>sender pk vk u. tx_from tx = Some sender \<and> tx_public_key tx = Some pk \<and> tx_vrf_public_key tx = Some vk
        \<and> may_join sender s
        \<and> MIN_VALIDATOR_STAKE \<le> sat_add (si_stake (staker_of s sender)) (tx_amount tx)
        \<and> unat (nonce_of s sender) + 1 < 2 ^ 64 \<and> tx_nonce tx = nonce_of s sender + 1
        \<and> unat (tx_amount tx) + unat (cs_base_fee s) < 2 ^ 64
        \<and> tx_amount tx + cs_base_fee s \<le> balance_of s sender
        \<and> u = spend sender (tx_nonce tx) (tx_amount tx + cs_base_fee s) s
        \<and> unat (balance_of u STAKING_POOL_ACCOUNT) + unat (tx_amount tx) < 2 ^ 64
        \<and> register_stake tx sender pk vk
             (u\<lparr>cs_balances := fmupd STAKING_POOL_ACCOUNT
                   (balance_of u STAKING_POOL_ACCOUNT + tx_amount tx) (cs_balances u),
                cs_fee_pot := sat_add (cs_fee_pot s) (cs_base_fee s)\<rparr>) = (Inr (), t))"
  unfolding apply_stake_def bindE_ok
  by (auto simp: exec_ok spend_def balance_of_def)


section \<open>Withdraw\<close>

text \<open>The authorization of a withdrawal, against the keys registered on the chain.\<close>

definition check_withdraw :: "'x prims_scheme \<Rightarrow> transaction \<Rightarrow> string \<Rightarrow> string \<Rightarrow> stake_info \<Rightarrow> unit outcome" where
  "check_withdraw L tx sender signature info =
     (let message = scoped_signing_message (tx_chain_id tx)
                      (withdraw_signing_message sender (tx_amount tx) (tx_nonce tx)) in
      bindR (require (verify_message L message (si_public_key info) signature)
               ''Withdraw signature does not match registered key'') (\<lambda>_.
      if si_pq_public_key info = [] then
        require (tx_pq_signature tx = None \<and> tx_pq_public_key tx = None)
          ''Classical validator must not carry post-quantum fields''
      else
        bindR (ok_or (tx_pq_signature tx) ''Hybrid validator requires a post-quantum signature'') (\<lambda>pq_signature.
        require (pq_verify_message L message (si_pq_public_key info) pq_signature)
          ''Withdraw post-quantum signature does not match registered key'')))"

definition apply_withdraw :: "'x prims_scheme \<Rightarrow> transaction \<Rightarrow> u64 \<Rightarrow> (chain_state, unit) exec" where
  "apply_withdraw L tx height =
     bindE (need (tx_from tx) ''Withdraw missing sender'') (\<lambda>sender.
     bindE (need (tx_signature tx) ''Withdraw missing signature'') (\<lambda>signature.
     bindE (gets (\<lambda>s. fmlookup (cs_stakers s) sender)) (\<lambda>found.
     bindE (need found (''No stake registered for '' @ sender)) (\<lambda>info.
     bindE (lift (check_withdraw L tx sender signature info)) (\<lambda>_.
     bindE (ensure (tx_amount tx \<le> si_stake info)
              (''Insufficient stake for '' @ sender @ '': has '' @ show_u64 (si_stake info) @ '', needs ''
               @ show_u64 (tx_amount tx))) (\<lambda>_.
     bindE (lift (sub_u64 (si_stake info) (tx_amount tx))) (\<lambda>remaining.
     bindE (ensure (\<not> (remaining \<noteq> 0 \<and> remaining < MIN_VALIDATOR_STAKE))
              (''Withdrawal would leave '' @ show_u64 remaining @ '' below the validator minimum (''
               @ show_u64 MIN_VALIDATOR_STAKE @ ''); withdraw the full stake to exit'')) (\<lambda>_.
     bindE (charge_fee sender (tx_nonce tx)) (\<lambda>_.
     bindE (modify (set_staker sender (info\<lparr>si_stake := remaining\<rparr>))) (\<lambda>_.
     bindE (lift (add_u64 height UNBONDING_BLOCKS)) (\<lambda>release_height.
     modify (\<lambda>s. s\<lparr>cs_unbonding :=
       fmupd sender
         (fmfind [] (cs_unbonding s) sender @ [\<lparr>ub_amount = tx_amount tx, ub_release_height = release_height\<rparr>])
         (cs_unbonding s)\<rparr>))))))))))))"

lemma apply_withdraw_ok:
  "apply_withdraw L tx h s = (Inr (), t) \<longleftrightarrow>
     (\<exists>sender signature info. tx_from tx = Some sender \<and> tx_signature tx = Some signature
        \<and> fmlookup (cs_stakers s) sender = Some info
        \<and> check_withdraw L tx sender signature info = Inr ()
        \<and> tx_amount tx \<le> si_stake info
        \<and> (si_stake info - tx_amount tx = 0 \<or> MIN_VALIDATOR_STAKE \<le> si_stake info - tx_amount tx)
        \<and> can_pay_fee sender (tx_nonce tx) s \<and> unat h + 20 < 2 ^ 64
        \<and> t = (pay_fee sender (tx_nonce tx) s)
             \<lparr>cs_stakers := fmupd sender (info\<lparr>si_stake := si_stake info - tx_amount tx\<rparr>) (cs_stakers s),
              cs_unbonding := fmupd sender
                (fmfind [] (cs_unbonding s) sender
                  @ [\<lparr>ub_amount = tx_amount tx, ub_release_height = h + 20\<rparr>]) (cs_unbonding s)\<rparr>)"
  unfolding apply_withdraw_def bindE_ok
  by (auto simp: exec_ok set_staker_def UNBONDING_BLOCKS_def not_less)


section \<open>Slash\<close>

text \<open>
  The loop over the unbonding entries: take what is left to take from the oldest first and
  stop once nothing is left.
\<close>

fun take_unbonding :: "u64 \<Rightarrow> unbonding_entry list \<Rightarrow> unbonding_entry list" where
  "take_unbonding remaining [] = []"
| "take_unbonding remaining (entry # entries) =
     (let take_now = min remaining (ub_amount entry);
          entry' = entry\<lparr>ub_amount := ub_amount entry - take_now\<rparr>;
          remaining' = remaining - take_now
      in if remaining' = 0 then entry' # entries else entry' # take_unbonding remaining' entries)"

definition deduct_unbonding :: "string \<Rightarrow> u64 \<Rightarrow> chain_state \<Rightarrow> chain_state" where
  "deduct_unbonding validator remaining s =
     (case fmlookup (cs_unbonding s) validator of None \<Rightarrow> s
      | Some entries \<Rightarrow>
          (let kept = filter (\<lambda>e. 0 < ub_amount e) (take_unbonding remaining entries) in
           s\<lparr>cs_unbonding := (if kept = [] then fmdrop validator (cs_unbonding s)
                              else fmupd validator kept (cs_unbonding s))\<rparr>))"

definition offense_key :: "string \<Rightarrow> u64 \<Rightarrow> string" where
  "offense_key validator index = validator @ '':'' @ show_u64 index"

text \<open>The checks of the arm, which only read the state, and the amount to take.\<close>

definition check_slash :: "transaction \<Rightarrow> u64 \<Rightarrow> chain_state \<Rightarrow> (u64 \<times> stake_info \<times> u64) outcome" where
  "check_slash tx height s =
     bindR (ok_or (tx_slash_proof tx) ''Slash missing proof'') (\<lambda>proof.
     let validator = tx_to tx; index = blk_index (sp_block_a proof) in
     bindR (add_u64 index SLASHING_WINDOW_BLOCKS) (\<lambda>limit.
     bindR (require (height \<le> limit) ''Equivocation proof outside the slashing window'') (\<lambda>_.
     bindR (ok_or (fmlookup (cs_stakers s) validator) (''No stake registered for '' @ validator)) (\<lambda>info.
     bindR (require ((case blk_validator_public_key (sp_block_a proof) of None \<Rightarrow> [] | Some k \<Rightarrow> k)
                     = si_public_key info)
              ''Slash proof key does not match registered key'') (\<lambda>_.
     bindR (require (\<not> fmhas (cs_slashed_offenses s) (offense_key validator index))
              ''Offense already slashed'') (\<lambda>_.
     bindR (unbonding_total s validator) (\<lambda>unbonding.
     bindR (add_u64 (si_stake info) unbonding) (\<lambda>base.
     let slashed = sat_mul base SLASH_PERCENT div 100 in
     bindR (require (slashed \<noteq> 0) ''Nothing to slash'') (\<lambda>_.
     Inr (index, info, slashed))))))))))"

text \<open>The writes after the pool has been debited.\<close>

definition punish :: "string \<Rightarrow> u64 \<Rightarrow> stake_info \<Rightarrow> u64 \<Rightarrow> chain_state \<Rightarrow> chain_state" where
  "punish validator index info slashed s =
     (let take_bonded = min slashed (si_stake info);
          remaining = slashed - take_bonded;
          s1 = s\<lparr>cs_burned := sat_add (cs_burned s) slashed,
                 cs_total_supply := sat_sub (cs_total_supply s) slashed\<rparr>;
          s2 = set_staker validator (info\<lparr>si_stake := si_stake info - take_bonded\<rparr>) s1;
          s3 = (if 0 < remaining then deduct_unbonding validator remaining s2 else s2)
      in s3\<lparr>cs_slashed_offenses := fmupd (offense_key validator index) slashed (cs_slashed_offenses s3)\<rparr>)"

definition apply_slash :: "transaction \<Rightarrow> u64 \<Rightarrow> (chain_state, unit) exec" where
  "apply_slash tx height =
     bindE (gets (check_slash tx height)) (\<lambda>checked.
     bindE (lift checked) (\<lambda>(index, info, slashed).
     bindE (debit STAKING_POOL_ACCOUNT slashed) (\<lambda>_.
     modify (punish (tx_to tx) index info slashed))))"

lemma check_slash_ok:
  "check_slash tx h s = Inr (index, info, n) \<longleftrightarrow>
     (\<exists>proof unbonding. tx_slash_proof tx = Some proof \<and> index = blk_index (sp_block_a proof)
        \<and> unat index + 20 < 2 ^ 64 \<and> h \<le> index + 20
        \<and> fmlookup (cs_stakers s) (tx_to tx) = Some info
        \<and> (case blk_validator_public_key (sp_block_a proof) of None \<Rightarrow> [] | Some k \<Rightarrow> k) = si_public_key info
        \<and> \<not> fmhas (cs_slashed_offenses s) (offense_key (tx_to tx) index)
        \<and> unbonding_total s (tx_to tx) = Inr unbonding
        \<and> unat (si_stake info) + unat unbonding < 2 ^ 64
        \<and> n = sat_mul (si_stake info + unbonding) 10 div 100 \<and> n \<noteq> 0)"
  unfolding check_slash_def Let_def bindR_ok
  by (auto simp: exec_ok SLASHING_WINDOW_BLOCKS_def SLASH_PERCENT_def)

lemma apply_slash_ok:
  "apply_slash tx h s = (Inr (), t) \<longleftrightarrow>
     (\<exists>index info n. check_slash tx h s = Inr (index, info, n)
        \<and> n \<le> balance_of s STAKING_POOL_ACCOUNT
        \<and> t = punish (tx_to tx) index info n
               (s\<lparr>cs_balances := fmupd STAKING_POOL_ACCOUNT (balance_of s STAKING_POOL_ACCOUNT - n) (cs_balances s)\<rparr>))"
  by (auto simp: apply_slash_def exec_ok)

text \<open>
  The height plus the window is added with overflow checks: a proof about a height close to
  \<open>u64::MAX\<close> panics.
\<close>

lemma apply_slash_panic [exec_panic]:
  "apply_slash tx h s = (Inl Panic, t) \<longleftrightarrow> check_slash tx h s = Inl Panic \<and> t = s"
  by (auto simp: apply_slash_def exec_panic)

lemma check_slash_window_panic:
  "tx_slash_proof tx = Some p \<Longrightarrow> 2 ^ 64 \<le> unat (blk_index (sp_block_a p)) + 20 \<Longrightarrow>
   check_slash tx h s = Inl Panic"
  by (simp add: check_slash_def Let_def add_u64_def checked_add_def SLASHING_WINDOW_BLOCKS_def)

end
