(* ===== verification/Tokens.thy ===== *)
theory Tokens
  imports Transfers
begin

text \<open>
  Native tokens: the arms \<open>TokenCreate\<close>, \<open>TokenTransfer\<close> and \<open>TokenBurn\<close> of
  \<open>ChainState::apply_verified\<close> (\<open>state.rs\<close>). The fee is paid in HKM, the units move in the
  token's own ledger.
\<close>

definition apply_token_create :: "'x prims_scheme \<Rightarrow> transaction \<Rightarrow> u64 \<Rightarrow> (chain_state, unit) exec" where
  "apply_token_create L tx height =
     bindE (need (tx_from tx) ''TokenCreate missing creator'') (\<lambda>sender.
     bindE (need (tx_token tx) ''TokenCreate missing token action'') (\<lambda>action.
     let token_id = derive_token_id L sender (ta_symbol action) (tx_nonce tx) in
     bindE (gets (\<lambda>s. fmhas (cs_tokens s) token_id)) (\<lambda>taken.
     bindE (ensure (\<not> taken) (''Token '' @ token_id @ '' already exists'')) (\<lambda>_.
     bindE (charge_fee sender (tx_nonce tx)) (\<lambda>_.
     bindE (modify (\<lambda>s. s\<lparr>cs_tokens := fmupd token_id
              \<lparr>ti_token_id = token_id, ti_symbol = ta_symbol action, ti_name = ta_name action,
               ti_decimals = ta_decimals action, ti_total_supply = tx_amount tx, ti_creator = sender,
               ti_created_at_height = height\<rparr> (cs_tokens s)\<rparr>)) (\<lambda>_.
     try_credit_token token_id sender (tx_amount tx)))))))"

definition apply_token_transfer :: "transaction \<Rightarrow> (chain_state, unit) exec" where
  "apply_token_transfer tx =
     bindE (need (tx_from tx) ''TokenTransfer missing sender'') (\<lambda>sender.
     bindE (need (tx_token tx) ''TokenTransfer missing token action'') (\<lambda>action.
     bindE (gets (\<lambda>s. fmhas (cs_tokens s) (ta_token_id action))) (\<lambda>known.
     bindE (ensure known (''Unknown token '' @ ta_token_id action)) (\<lambda>_.
     bindE (ensure (is_valid_address (tx_to tx))
              (''TokenTransfer recipient '' @ [CHR 0x27] @ tx_to tx @ [CHR 0x27]
               @ '' is not a valid hkm address'')) (\<lambda>_.
     bindE (charge_fee sender (tx_nonce tx)) (\<lambda>_.
     bindE (debit_token (ta_token_id action) sender (tx_amount tx)) (\<lambda>_.
     try_credit_token (ta_token_id action) (tx_to tx) (tx_amount tx))))))))"

definition reduce_token_supply :: "string \<Rightarrow> u64 \<Rightarrow> chain_state \<Rightarrow> chain_state" where
  "reduce_token_supply k n s =
     (case fmlookup (cs_tokens s) k of None \<Rightarrow> s
      | Some info \<Rightarrow>
          s\<lparr>cs_tokens := fmupd k (info\<lparr>ti_total_supply := sat_sub (ti_total_supply info) n\<rparr>) (cs_tokens s)\<rparr>)"

definition apply_token_burn :: "transaction \<Rightarrow> (chain_state, unit) exec" where
  "apply_token_burn tx =
     bindE (need (tx_from tx) ''TokenBurn missing sender'') (\<lambda>sender.
     bindE (need (tx_token tx) ''TokenBurn missing token action'') (\<lambda>action.
     bindE (gets (\<lambda>s. fmhas (cs_tokens s) (ta_token_id action))) (\<lambda>known.
     bindE (ensure known (''Unknown token '' @ ta_token_id action)) (\<lambda>_.
     bindE (charge_fee sender (tx_nonce tx)) (\<lambda>_.
     bindE (debit_token (ta_token_id action) sender (tx_amount tx)) (\<lambda>_.
     modify (reduce_token_supply (ta_token_id action) (tx_amount tx))))))))"


section \<open>When they succeed\<close>

lemma apply_token_create_ok:
  "apply_token_create L tx h s = (Inr (), t) \<longleftrightarrow>
     (\<exists>sender action k. tx_from tx = Some sender \<and> tx_token tx = Some action
        \<and> k = derive_token_id L sender (ta_symbol action) (tx_nonce tx) \<and> \<not> fmhas (cs_tokens s) k
        \<and> can_pay_fee sender (tx_nonce tx) s
        \<and> unat (token_balance_of s k sender) + unat (tx_amount tx) < 2 ^ 64
        \<and> t = set_token_balance k sender (token_balance_of s k sender + tx_amount tx)
               ((pay_fee sender (tx_nonce tx) s)\<lparr>cs_tokens := fmupd k
                 \<lparr>ti_token_id = k, ti_symbol = ta_symbol action, ti_name = ta_name action,
                  ti_decimals = ta_decimals action, ti_total_supply = tx_amount tx, ti_creator = sender,
                  ti_created_at_height = h\<rparr> (cs_tokens s)\<rparr>))"
  unfolding apply_token_create_def bindE_ok Let_def
  by (auto simp: exec_ok)

lemma apply_token_transfer_ok:
  "apply_token_transfer tx s = (Inr (), t) \<longleftrightarrow>
     (\<exists>sender action u. tx_from tx = Some sender \<and> tx_token tx = Some action
        \<and> fmhas (cs_tokens s) (ta_token_id action) \<and> is_valid_address (tx_to tx)
        \<and> can_pay_fee sender (tx_nonce tx) s
        \<and> u = pay_fee sender (tx_nonce tx) s
        \<and> tok.move (ta_token_id action) sender (tx_to tx) (tx_amount tx) u = (Inr (), t))"
  unfolding apply_token_transfer_def bindE_ok tok.move_def
  by (auto simp: exec_ok)

lemma apply_token_burn_ok:
  "apply_token_burn tx s = (Inr (), t) \<longleftrightarrow>
     (\<exists>sender action u. tx_from tx = Some sender \<and> tx_token tx = Some action
        \<and> fmhas (cs_tokens s) (ta_token_id action)
        \<and> can_pay_fee sender (tx_nonce tx) s
        \<and> debit_token (ta_token_id action) sender (tx_amount tx) (pay_fee sender (tx_nonce tx) s) = (Inr (), u)
        \<and> t = reduce_token_supply (ta_token_id action) (tx_amount tx) u)"
  unfolding apply_token_burn_def bindE_ok by (auto simp: exec_ok)

end
