(* ===== verification/Amm.thy ===== *)
theory Amm
  imports Tokens
begin

text \<open>
  The constant-product pools: \<open>isqrt_u128\<close> and the arms \<open>AddLiquidity\<close>, \<open>RemoveLiquidity\<close> and
  \<open>Swap\<close> of \<open>ChainState::apply_verified\<close> (\<open>state.rs\<close>). 128-bit intermediates are natural numbers;
  where they could leave 128 bits the code uses checked operations, and so does the model.
\<close>


section \<open>Integer square root\<close>

function isqrt_loop :: "nat \<Rightarrow> nat \<Rightarrow> nat \<Rightarrow> nat" where
  "isqrt_loop n x y = (if y < x then isqrt_loop n y ((y + n div y) div 2) else x)"
  by pat_completeness auto
termination
  by (relation "measure (\<lambda>(n, x, y). x)") auto

declare isqrt_loop.simps [simp del]

definition isqrt_u128 :: "nat \<Rightarrow> nat" where
  "isqrt_u128 n = (if n < 2 then n else isqrt_loop n n ((n + 1) div 2))"

lemma newton_step:
  fixes n x y :: nat
  assumes "0 < x" and y: "y = (x + n div x) div 2"
  shows "n < (y + 1) * (y + 1)"
proof (rule ccontr)
  assume "\<not> n < (y + 1) * (y + 1)"
  then have le: "(y + 1) * (y + 1) \<le> n" by simp
  have "n < x * (n div x + 1)"
    using assms(1) dividend_less_times_div [of x n] by (simp add: algebra_simps)
  moreover have "x + n div x + 1 \<le> 2 * (y + 1)" unfolding y by simp
  then have "x * (x + n div x + 1) \<le> x * (2 * (y + 1))" by (rule mult_le_mono2)
  ultimately have "x * x + n < x * (2 * (y + 1))" by (simp add: algebra_simps)
  with le have "x * x + (y + 1) * (y + 1) < 2 * (x * (y + 1))" by (simp add: algebra_simps)
  moreover have "2 * (int x * (int y + 1)) \<le> int x * int x + (int y + 1) * (int y + 1)"
    using zero_le_square [of "int x - (int y + 1)"] by (simp add: algebra_simps)
  then have "int (2 * (x * (y + 1))) \<le> int (x * x + (y + 1) * (y + 1))" by (simp add: algebra_simps)
  then have "2 * (x * (y + 1)) \<le> x * x + (y + 1) * (y + 1)" by (simp only: of_nat_le_iff)
  ultimately show False by simp
qed

lemma isqrt_loop_correct:
  assumes "0 < x" "n < (x + 1) * (x + 1)" "y < x \<or> y = (x + n div x) div 2"
    and "0 < n"
    and "y < x \<Longrightarrow> 0 < y \<and> n < (y + 1) * (y + 1)"
  shows "isqrt_loop n x y * isqrt_loop n x y \<le> n
    \<and> n < (isqrt_loop n x y + 1) * (isqrt_loop n x y + 1)"
  using assms
proof (induction n x y rule: isqrt_loop.induct)
  case (1 n x y)
  show ?case
  proof (cases "y < x")
    case False
    then have y: "y = (x + n div x) div 2" using 1(4) by simp
    with False have "x \<le> n div x" by simp
    then have "x * x \<le> n" by (metis mult_le_mono2 le_trans times_div_less_eq_dividend)
    with False 1(3) show ?thesis by (simp add: isqrt_loop.simps [of n x y])
  next
    case True
    let ?z = "(y + n div y) div 2"
    have y: "0 < y" "n < (y + 1) * (y + 1)" using 1(6) True by auto
    have z: "0 < ?z" if "?z < y"
    proof (rule ccontr)
      assume "\<not> 0 < ?z"
      then have "y + n div y < 2" by simp
      with y(1) have "y = 1" "n div y = 0" by simp_all
      with 1(5) show False by simp
    qed
    have "isqrt_loop n y ?z * isqrt_loop n y ?z \<le> n
        \<and> n < (isqrt_loop n y ?z + 1) * (isqrt_loop n y ?z + 1)"
      by (rule 1(1) [OF True y]) (use newton_step [OF y(1) refl] z 1(5) in auto)
    with True show ?thesis by (simp add: isqrt_loop.simps [of n x y])
  qed
qed

lemma isqrt_u128_bounds: "isqrt_u128 n * isqrt_u128 n \<le> n \<and> n < (isqrt_u128 n + 1) * (isqrt_u128 n + 1)"
proof (cases "n < 2")
  case True
  then have "n = 0 \<or> n = 1" by auto
  then show ?thesis by (auto simp: isqrt_u128_def)
next
  case False
  let ?h = "(n + 1) div 2"
  have h: "n \<le> 2 * ?h" "0 < ?h" "?h < n" using False by simp_all
  have "n < (?h + 1) * (?h + 1)" using h(1) by (simp add: algebra_simps)
  with False h show ?thesis
    unfolding isqrt_u128_def by (simp only: if_False, intro isqrt_loop_correct) (auto simp: algebra_simps)
qed


section \<open>The quotes\<close>

text \<open>A division of unsigned integers panics on zero.\<close>

definition div_or_panic :: "nat \<Rightarrow> nat \<Rightarrow> ('e, nat) result" where
  "div_or_panic a b = (if b = 0 then Inl Panic else Inr (a div b))"

lemma div_or_panic_ok [exec_ok]: "div_or_panic a b = Inr q \<longleftrightarrow> b \<noteq> 0 \<and> q = a div b"
  by (auto simp: div_or_panic_def)

lemma div_or_panic_panic [exec_panic]: "div_or_panic a b = Inl Panic \<longleftrightarrow> b = 0"
  by (auto simp: div_or_panic_def)

definition first_liquidity :: "amm_action \<Rightarrow> (u64 \<times> u64 \<times> u64 \<times> bool) outcome" where
  "first_liquidity action =
     (let product = min (unat (aa_amount_hkm action) * unat (aa_amount_token action)) (2 ^ 128 - 1);
          shares0 = isqrt_u128 product
      in bindR (require (unat MINIMUM_LIQUIDITY < shares0) ''Initial liquidity is below the minimum'') (\<lambda>_.
         Inr (aa_amount_hkm action, aa_amount_token action, as_u64 (shares0 - unat MINIMUM_LIQUIDITY), True)))"

definition more_liquidity :: "pool \<Rightarrow> amm_action \<Rightarrow> (u64 \<times> u64 \<times> u64 \<times> bool) outcome" where
  "more_liquidity existing action =
     (let rh = unat (pl_reserve_hkm existing); rt = unat (pl_reserve_token existing) in
      bindR (div_or_panic (unat (aa_amount_hkm action) * rt) rh) (\<lambda>token_wide.
      let token_optimal = as_u64 token_wide in
      bindR (if token_optimal \<le> aa_amount_token action then Inr (aa_amount_hkm action, token_optimal)
             else bindR (div_or_panic (unat (aa_amount_token action) * rh) rt) (\<lambda>hkm_wide.
                  Inr (as_u64 hkm_wide, aa_amount_token action))) (\<lambda>(use_hkm, use_token).
      bindR (require (\<not> (use_hkm = 0 \<or> use_token = 0)) ''AddLiquidity amounts round to zero'') (\<lambda>_.
      let ts = unat (pl_total_shares existing) in
      bindR (div_or_panic (unat use_hkm * ts) rh) (\<lambda>shares_hkm.
      bindR (div_or_panic (unat use_token * ts) rt) (\<lambda>shares_token.
      Inr (use_hkm, use_token, as_u64 (min shares_hkm shares_token), False)))))))"

definition plan_liquidity :: "pool \<Rightarrow> amm_action \<Rightarrow> (u64 \<times> u64 \<times> u64 \<times> bool) outcome" where
  "plan_liquidity existing action =
     bindR (if pl_total_shares existing = 0 then first_liquidity action
            else more_liquidity existing action) (\<lambda>(use_hkm, use_token, minted, first).
     bindR (require (\<not> (minted = 0 \<or> minted < aa_min_shares action))
              (''AddLiquidity slippage: '' @ show_u64 minted @ '' shares minted, ''
               @ show_u64 (aa_min_shares action) @ '' required'')) (\<lambda>_.
     Inr (use_hkm, use_token, minted, first)))"

definition checked_mul_u128 :: "nat \<Rightarrow> nat \<Rightarrow> nat option" where
  "checked_mul_u128 a b = (if a * b < 2 ^ 128 then Some (a * b) else None)"

text \<open>The output of a swap, before the slippage bound; \<open>swap_quote\<close> is the check of the arm.\<close>

definition swap_output :: "u64 \<Rightarrow> u64 \<Rightarrow> u64 \<Rightarrow> u64 outcome" where
  "swap_output reserve_in reserve_out amount_in =
     (let fee_num = AMM_FEE_DENOM - SWAP_FEE_BPS in
      bindR (ok_or (checked_mul_u128 (unat amount_in) (unat fee_num)) ''Swap amount too large'') (\<lambda>amount_in_with_fee.
      bindR (ok_or (checked_mul_u128 amount_in_with_fee (unat reserve_out)) ''Swap amount too large'') (\<lambda>numerator.
      bindR (ok_or (checked_mul_u128 (unat reserve_in) (unat AMM_FEE_DENOM)) ''Pool reserve too large'') (\<lambda>scaled.
      bindR (div_or_panic numerator (scaled + amount_in_with_fee)) (\<lambda>out.
      Inr (as_u64 out))))))"

definition plan_swap :: "pool \<Rightarrow> amm_action \<Rightarrow> u64 outcome" where
  "plan_swap p action =
     bindR (require (\<not> (pl_reserve_hkm p = 0 \<or> pl_reserve_token p = 0)) ''Pool has no liquidity'') (\<lambda>_.
     let (reserve_in, reserve_out) =
           (if aa_hkm_to_token action then (pl_reserve_hkm p, pl_reserve_token p)
            else (pl_reserve_token p, pl_reserve_hkm p)) in
     bindR (swap_output reserve_in reserve_out (aa_amount_in action)) (\<lambda>amount_out.
     bindR (require (\<not> (amount_out = 0 \<or> reserve_out \<le> amount_out))
              ''Swap produces no output or drains the pool'') (\<lambda>_.
     bindR (require (aa_min_out action \<le> amount_out)
              (''Swap slippage: '' @ show_u64 amount_out @ '' out, '' @ show_u64 (aa_min_out action) @ '' required'')) (\<lambda>_.
     Inr amount_out))))"

definition plan_removal :: "pool \<Rightarrow> amm_action \<Rightarrow> (u64 \<times> u64) outcome" where
  "plan_removal p action =
     (let ts = unat (pl_total_shares p) in
      bindR (div_or_panic (unat (aa_shares action) * unat (pl_reserve_hkm p)) ts) (\<lambda>hkm_wide.
      let amount_hkm = as_u64 hkm_wide in
      bindR (div_or_panic (unat (aa_shares action) * unat (pl_reserve_token p)) ts) (\<lambda>token_wide.
      let amount_token = as_u64 token_wide in
      bindR (require (\<not> (amount_hkm = 0 \<or> amount_token = 0)) ''RemoveLiquidity amounts round to zero'') (\<lambda>_.
      bindR (require (\<not> (amount_hkm < aa_min_hkm action \<or> amount_token < aa_min_token action))
               ''RemoveLiquidity slippage bound not met'') (\<lambda>_.
      Inr (amount_hkm, amount_token))))))"


section \<open>The arms\<close>

definition pool_of :: "chain_state \<Rightarrow> string \<Rightarrow> pool" where
  "pool_of s k = fmfind default_pool (cs_pools s) k"

definition set_pool :: "string \<Rightarrow> pool \<Rightarrow> chain_state \<Rightarrow> chain_state" where
  "set_pool k p s = s\<lparr>cs_pools := fmupd k p (cs_pools s)\<rparr>"

definition set_lp_shares :: "string \<Rightarrow> string \<Rightarrow> u64 \<Rightarrow> chain_state \<Rightarrow> chain_state" where
  "set_lp_shares k account v s =
     s\<lparr>cs_lp_shares := fmupd k (fmupd account v (fmfind fmempty (cs_lp_shares s) k)) (cs_lp_shares s)\<rparr>"

definition drop_lp_shares :: "string \<Rightarrow> string \<Rightarrow> chain_state \<Rightarrow> chain_state" where
  "drop_lp_shares k account s =
     s\<lparr>cs_lp_shares := fmupd k (fmdrop account (fmfind fmempty (cs_lp_shares s) k)) (cs_lp_shares s)\<rparr>"

text \<open>The pool's entry, created empty when the token has none yet, and its new totals.\<close>

definition grow_pool :: "string \<Rightarrow> u64 \<Rightarrow> u64 \<Rightarrow> u64 \<Rightarrow> bool \<Rightarrow> (chain_state, unit) exec" where
  "grow_pool k use_hkm use_token minted first =
     bindE (gets (\<lambda>s. case fmlookup (cs_pools s) k of Some p \<Rightarrow> p | None \<Rightarrow> default_pool\<lparr>pl_token_id := k\<rparr>)) (\<lambda>pool.
     bindE (modify (set_pool k pool)) (\<lambda>_.
     bindE (if first then need (checked_add minted MINIMUM_LIQUIDITY) ''LP shares would overflow''
            else ret minted) (\<lambda>minted_total.
     bindE (need (checked_add (pl_reserve_hkm pool) use_hkm) ''Pool HKM reserve would overflow'') (\<lambda>next_hkm.
     bindE (need (checked_add (pl_reserve_token pool) use_token) ''Pool token reserve would overflow'') (\<lambda>next_token.
     bindE (need (checked_add (pl_total_shares pool) minted_total) ''Pool LP shares would overflow'') (\<lambda>next_shares.
     modify (set_pool k
       (pool\<lparr>pl_reserve_hkm := next_hkm, pl_reserve_token := next_token, pl_total_shares := next_shares\<rparr>))))))))"

definition grant_shares :: "string \<Rightarrow> string \<Rightarrow> u64 \<Rightarrow> (chain_state, unit) exec" where
  "grant_shares k account minted =
     bindE (gets (\<lambda>s. lp_shares_of s k account)) (\<lambda>holding.
     bindE (modify (set_lp_shares k account holding)) (\<lambda>_.
     bindE (need (checked_add holding minted) ''LP position would overflow'') (\<lambda>v.
     modify (set_lp_shares k account v))))"

definition apply_add_liquidity :: "transaction \<Rightarrow> (chain_state, unit) exec" where
  "apply_add_liquidity tx =
     bindE (need (tx_from tx) ''AddLiquidity missing sender'') (\<lambda>sender.
     bindE (need (tx_amm tx) ''AddLiquidity missing amm action'') (\<lambda>action.
     let k = aa_token_id action in
     bindE (gets (\<lambda>s. fmhas (cs_tokens s) k)) (\<lambda>known.
     bindE (ensure known (''Unknown token '' @ k)) (\<lambda>_.
     bindE (gets (\<lambda>s. plan_liquidity (pool_of s k) action)) (\<lambda>planned.
     bindE (lift planned) (\<lambda>(use_hkm, use_token, minted, first).
     bindE (charge_amount sender (tx_nonce tx) use_hkm) (\<lambda>_.
     bindE (try_credit AMM_POOL_ACCOUNT use_hkm) (\<lambda>_.
     bindE (debit_token k sender use_token) (\<lambda>_.
     bindE (try_credit_token k AMM_POOL_ACCOUNT use_token) (\<lambda>_.
     bindE (grow_pool k use_hkm use_token minted first) (\<lambda>_.
     grant_shares k sender minted)))))))))))"

text \<open>Burning shares: \<open>unwrap\<close> on the two lookups, and a removal when nothing is left.\<close>

definition burn_shares :: "string \<Rightarrow> string \<Rightarrow> u64 \<Rightarrow> (chain_state, unit) exec" where
  "burn_shares k account shares =
     bindE (gets (\<lambda>s. fmlookup (cs_lp_shares s) k)) (\<lambda>found.
     bindE (lift (case found of None \<Rightarrow> Inl Panic | Some holders \<Rightarrow> Inr holders)) (\<lambda>holders.
     bindE (lift (case fmlookup holders account of None \<Rightarrow> Inl Panic | Some entry \<Rightarrow> Inr entry)) (\<lambda>entry.
     bindE (lift (sub_u64 entry shares)) (\<lambda>rest.
     modify (if rest = 0 then drop_lp_shares k account else set_lp_shares k account rest)))))"

definition shrink_pool :: "string \<Rightarrow> u64 \<Rightarrow> u64 \<Rightarrow> u64 \<Rightarrow> (chain_state, unit) exec" where
  "shrink_pool k amount_hkm amount_token shares =
     bindE (gets (\<lambda>s. fmlookup (cs_pools s) k)) (\<lambda>found.
     bindE (lift (case found of None \<Rightarrow> Inl Panic | Some p \<Rightarrow> Inr p)) (\<lambda>pool.
     bindE (lift (sub_u64 (pl_reserve_hkm pool) amount_hkm)) (\<lambda>rh.
     bindE (lift (sub_u64 (pl_reserve_token pool) amount_token)) (\<lambda>rt.
     bindE (lift (sub_u64 (pl_total_shares pool) shares)) (\<lambda>ts.
     modify (set_pool k (pool\<lparr>pl_reserve_hkm := rh, pl_reserve_token := rt, pl_total_shares := ts\<rparr>)))))))"

definition apply_remove_liquidity :: "transaction \<Rightarrow> (chain_state, unit) exec" where
  "apply_remove_liquidity tx =
     bindE (need (tx_from tx) ''RemoveLiquidity missing sender'') (\<lambda>sender.
     bindE (need (tx_amm tx) ''RemoveLiquidity missing amm action'') (\<lambda>action.
     let k = aa_token_id action in
     bindE (gets (\<lambda>s. fmlookup (cs_pools s) k)) (\<lambda>found.
     bindE (need found (''No pool for '' @ k)) (\<lambda>pool.
     bindE (gets (\<lambda>s. lp_shares_of s k sender)) (\<lambda>held.
     bindE (ensure (aa_shares action \<le> held)
              (''Insufficient LP shares: has '' @ show_u64 held @ '', needs '' @ show_u64 (aa_shares action))) (\<lambda>_.
     bindE (lift (plan_removal pool action)) (\<lambda>(amount_hkm, amount_token).
     bindE (charge_fee sender (tx_nonce tx)) (\<lambda>_.
     bindE (burn_shares k sender (aa_shares action)) (\<lambda>_.
     bindE (debit AMM_POOL_ACCOUNT amount_hkm) (\<lambda>_.
     bindE (credit sender amount_hkm) (\<lambda>_.
     bindE (debit_token k AMM_POOL_ACCOUNT amount_token) (\<lambda>_.
     bindE (credit_token k sender amount_token) (\<lambda>_.
     shrink_pool k amount_hkm amount_token (aa_shares action))))))))))))))"

text \<open>The pool's side of a swap: the input is added with a check, the output subtracted.\<close>

definition swap_reserves :: "string \<Rightarrow> bool \<Rightarrow> u64 \<Rightarrow> u64 \<Rightarrow> (chain_state, unit) exec" where
  "swap_reserves k hkm_to_token amount_in amount_out =
     bindE (gets (\<lambda>s. fmlookup (cs_pools s) k)) (\<lambda>found.
     bindE (lift (case found of None \<Rightarrow> Inl Panic | Some p \<Rightarrow> Inr p)) (\<lambda>pool.
     if hkm_to_token then
       bindE (need (checked_add (pl_reserve_hkm pool) amount_in) ''Pool HKM reserve would overflow'') (\<lambda>rh.
       bindE (modify (set_pool k (pool\<lparr>pl_reserve_hkm := rh\<rparr>))) (\<lambda>_.
       bindE (lift (sub_u64 (pl_reserve_token pool) amount_out)) (\<lambda>rt.
       modify (set_pool k (pool\<lparr>pl_reserve_hkm := rh, pl_reserve_token := rt\<rparr>)))))
     else
       bindE (need (checked_add (pl_reserve_token pool) amount_in) ''Pool token reserve would overflow'') (\<lambda>rt.
       bindE (modify (set_pool k (pool\<lparr>pl_reserve_token := rt\<rparr>))) (\<lambda>_.
       bindE (lift (sub_u64 (pl_reserve_hkm pool) amount_out)) (\<lambda>rh.
       modify (set_pool k (pool\<lparr>pl_reserve_token := rt, pl_reserve_hkm := rh\<rparr>)))))))"

definition apply_swap :: "transaction \<Rightarrow> (chain_state, unit) exec" where
  "apply_swap tx =
     bindE (need (tx_from tx) ''Swap missing sender'') (\<lambda>sender.
     bindE (need (tx_amm tx) ''Swap missing amm action'') (\<lambda>action.
     let k = aa_token_id action in
     bindE (gets (\<lambda>s. fmlookup (cs_pools s) k)) (\<lambda>found.
     bindE (need found (''No pool for '' @ k)) (\<lambda>pool.
     bindE (lift (plan_swap pool action)) (\<lambda>amount_out.
     if aa_hkm_to_token action then
       bindE (charge_amount sender (tx_nonce tx) (aa_amount_in action)) (\<lambda>_.
       bindE (try_credit AMM_POOL_ACCOUNT (aa_amount_in action)) (\<lambda>_.
       bindE (debit_token k AMM_POOL_ACCOUNT amount_out) (\<lambda>_.
       bindE (credit_token k sender amount_out) (\<lambda>_.
       swap_reserves k True (aa_amount_in action) amount_out))))
     else
       bindE (charge_fee sender (tx_nonce tx)) (\<lambda>_.
       bindE (debit_token k sender (aa_amount_in action)) (\<lambda>_.
       bindE (try_credit_token k AMM_POOL_ACCOUNT (aa_amount_in action)) (\<lambda>_.
       bindE (debit AMM_POOL_ACCOUNT amount_out) (\<lambda>_.
       bindE (credit sender amount_out) (\<lambda>_.
       swap_reserves k False (aa_amount_in action) amount_out))))))))))"


section \<open>When the pool updates succeed\<close>

definition entry_pool :: "chain_state \<Rightarrow> string \<Rightarrow> pool" where
  "entry_pool s k =
     (case fmlookup (cs_pools s) k of Some p \<Rightarrow> p | None \<Rightarrow> default_pool\<lparr>pl_token_id := k\<rparr>)"

lemma entry_pool_fields:
  "pl_reserve_hkm (entry_pool s k) = pl_reserve_hkm (pool_of s k)"
  "pl_reserve_token (entry_pool s k) = pl_reserve_token (pool_of s k)"
  "pl_total_shares (entry_pool s k) = pl_total_shares (pool_of s k)"
  by (auto simp: entry_pool_def pool_of_def fmfind_def default_pool_def split: option.splits)

definition grown_pool :: "chain_state \<Rightarrow> string \<Rightarrow> u64 \<Rightarrow> u64 \<Rightarrow> u64 \<Rightarrow> pool" where
  "grown_pool s k h u m =
     (entry_pool s k)\<lparr>pl_reserve_hkm := pl_reserve_hkm (pool_of s k) + h,
       pl_reserve_token := pl_reserve_token (pool_of s k) + u,
       pl_total_shares := pl_total_shares (pool_of s k) + m\<rparr>"

lemma set_pool_twice [simp]: "set_pool k p (set_pool k q s) = set_pool k p s"
  by (simp add: set_pool_def)

lemma set_lp_shares_twice [simp]: "set_lp_shares k a v (set_lp_shares k a w s) = set_lp_shares k a v s"
  by (simp add: set_lp_shares_def)

lemma grow_pool_ok:
  "grow_pool k h u m first s = (Inr (), t) \<longleftrightarrow>
     (\<exists>mt. (if first then unat m + 1000 < 2 ^ 64 \<and> mt = m + 1000 else mt = m)
        \<and> unat (pl_reserve_hkm (pool_of s k)) + unat h < 2 ^ 64
        \<and> unat (pl_reserve_token (pool_of s k)) + unat u < 2 ^ 64
        \<and> unat (pl_total_shares (pool_of s k)) + unat mt < 2 ^ 64
        \<and> t = set_pool k (grown_pool s k h u mt) s)"
  unfolding grow_pool_def entry_pool_def [symmetric]
  by (auto simp: exec_ok checked_add_Some entry_pool_fields grown_pool_def MINIMUM_LIQUIDITY_def)

lemma grant_shares_ok:
  "grant_shares k a m s = (Inr (), t) \<longleftrightarrow>
     unat (lp_shares_of s k a) + unat m < 2 ^ 64 \<and> t = set_lp_shares k a (lp_shares_of s k a + m) s"
  by (auto simp: grant_shares_def exec_ok checked_add_Some)

definition take_shares :: "string \<Rightarrow> string \<Rightarrow> u64 \<Rightarrow> chain_state \<Rightarrow> chain_state" where
  "take_shares k a n s =
     (if lp_shares_of s k a - n = 0 then drop_lp_shares k a s else set_lp_shares k a (lp_shares_of s k a - n) s)"

lemma burn_shares_ok:
  "burn_shares k a n s = (Inr (), t) \<longleftrightarrow>
     fmhas (cs_lp_shares s) k \<and> fmhas (fmfind fmempty (cs_lp_shares s) k) a \<and> n \<le> lp_shares_of s k a
     \<and> t = take_shares k a n s"
  by (auto simp: burn_shares_def exec_ok take_shares_def lp_shares_of_def fmfind_def fmhas_def
      split: option.splits)

lemma shrink_pool_ok:
  "shrink_pool k h u m s = (Inr (), t) \<longleftrightarrow>
     (\<exists>p. fmlookup (cs_pools s) k = Some p \<and> h \<le> pl_reserve_hkm p \<and> u \<le> pl_reserve_token p
        \<and> m \<le> pl_total_shares p
        \<and> t = set_pool k (p\<lparr>pl_reserve_hkm := pl_reserve_hkm p - h, pl_reserve_token := pl_reserve_token p - u,
                            pl_total_shares := pl_total_shares p - m\<rparr>) s)"
  by (auto simp: shrink_pool_def exec_ok split: option.splits)

definition swapped_pool :: "pool \<Rightarrow> bool \<Rightarrow> u64 \<Rightarrow> u64 \<Rightarrow> pool" where
  "swapped_pool p hkm_to_token n out =
     (if hkm_to_token
      then p\<lparr>pl_reserve_hkm := pl_reserve_hkm p + n, pl_reserve_token := pl_reserve_token p - out\<rparr>
      else p\<lparr>pl_reserve_token := pl_reserve_token p + n, pl_reserve_hkm := pl_reserve_hkm p - out\<rparr>)"

lemma swap_reserves_ok:
  "swap_reserves k d n out s = (Inr (), t) \<longleftrightarrow>
     (\<exists>p. fmlookup (cs_pools s) k = Some p
        \<and> (if d then unat (pl_reserve_hkm p) + unat n < 2 ^ 64 \<and> out \<le> pl_reserve_token p
           else unat (pl_reserve_token p) + unat n < 2 ^ 64 \<and> out \<le> pl_reserve_hkm p)
        \<and> t = set_pool k (swapped_pool p d n out) s)"
  by (cases d) (auto simp: swap_reserves_def exec_ok checked_add_Some swapped_pool_def split: option.splits)


section \<open>What the quotes promise\<close>

lemma plan_liquidity_ok:
  "plan_liquidity p a = Inr (h, u, m, first) \<Longrightarrow>
     0 < m \<and> aa_min_shares a \<le> m \<and> first = (pl_total_shares p = 0)"
  by (auto simp: plan_liquidity_def exec_ok first_liquidity_def more_liquidity_def Let_def not_less
      word_neq_0_conv split: if_splits)

lemma plan_liquidity_first:
  assumes "plan_liquidity p a = Inr (h, u, m, True)"
  shows "h = aa_amount_hkm a \<and> u = aa_amount_token a
    \<and> unat m = isqrt_u128 (unat h * unat u) - 1000 \<and> 1000 < isqrt_u128 (unat h * unat u)"
proof -
  let ?n = "unat (aa_amount_hkm a) * unat (aa_amount_token a)"
  have small: "?n < 2 ^ 128"
  proof -
    have "?n \<le> (2 ^ 64 - 1) * (2 ^ 64 - 1)"
      using unat_u64_less [of "aa_amount_hkm a"] unat_u64_less [of "aa_amount_token a"]
      by (intro mult_le_mono) (simp_all add: less_eq_Suc_le del: unat_u64_less)
    also have "\<dots> < 2 ^ 128" by simp
    finally show ?thesis .
  qed
  have "isqrt_u128 ?n < 2 ^ 64"
  proof (rule ccontr)
    assume "\<not> isqrt_u128 ?n < 2 ^ 64"
    then have "(2 :: nat) ^ 64 * 2 ^ 64 \<le> isqrt_u128 ?n * isqrt_u128 ?n" by (intro mult_le_mono) auto
    with isqrt_u128_bounds [of ?n] small show False by simp
  qed
  then have "unat (as_u64 (isqrt_u128 ?n - 1000)) = isqrt_u128 ?n - 1000" by (intro unat_as_u64_small) simp
  with assms small show ?thesis
    by (auto simp: plan_liquidity_def exec_ok first_liquidity_def more_liquidity_def Let_def
        MINIMUM_LIQUIDITY_def min_def split: if_splits)
qed

lemma plan_removal_ok:
  "plan_removal p action = Inr (h, u) \<Longrightarrow> pl_total_shares p \<noteq> 0 \<and> h \<noteq> 0 \<and> u \<noteq> 0
     \<and> h = as_u64 (unat (aa_shares action) * unat (pl_reserve_hkm p) div unat (pl_total_shares p))
     \<and> u = as_u64 (unat (aa_shares action) * unat (pl_reserve_token p) div unat (pl_total_shares p))"
  by (auto simp: plan_removal_def Let_def exec_ok unat_eq_0)

lemma plan_swap_ok:
  "plan_swap p action = Inr out \<Longrightarrow>
     0 < out \<and> aa_min_out action \<le> out
     \<and> out < (if aa_hkm_to_token action then pl_reserve_token p else pl_reserve_hkm p)
     \<and> swap_output (if aa_hkm_to_token action then pl_reserve_hkm p else pl_reserve_token p)
         (if aa_hkm_to_token action then pl_reserve_token p else pl_reserve_hkm p) (aa_amount_in action) = Inr out"
  by (auto simp: plan_swap_def exec_ok word_neq_0_conv not_le split: if_splits)

text \<open>
  What a swap pays out, against the input less its fee: the largest amount that does not lower the
  product of the reserves the pool would have without the fee. Nothing of it is lost in the
  cast to 64 bits, since it is at most the reserve it comes from.
\<close>

lemma fee_values: "unat (AMM_FEE_DENOM - SWAP_FEE_BPS) = 9970" "unat AMM_FEE_DENOM = 10000"
  by (simp_all add: AMM_FEE_DENOM_def SWAP_FEE_BPS_def)

lemma swap_output_ok:
  "swap_output ri ro x = Inr out \<longleftrightarrow>
     unat x * 9970 < 2 ^ 128 \<and> unat x * 9970 * unat ro < 2 ^ 128 \<and> unat ri * 10000 < 2 ^ 128
     \<and> unat ri * 10000 + unat x * 9970 \<noteq> 0
     \<and> out = as_u64 (unat x * 9970 * unat ro div (unat ri * 10000 + unat x * 9970))"
  by (simp only: swap_output_def Let_def bindR_ok ok_or_ok div_or_panic_ok checked_mul_u128_def fee_values)
     (auto split: if_splits)

lemma floor_share:
  fixes f d r :: nat
  assumes "0 < d" "f \<le> d"
  shows "(d - f) * r \<le> d * (r - f * r div d)" "d * r < d * (f * r div d + 1) + (d - f) * r" "f * r div d \<le> r"
proof -
  have q: "d * (f * r div d) \<le> f * r" "f * r < d * (f * r div d + 1)"
    using assms(1) by (simp_all add: dividend_less_times_div)
  have "f * r \<le> d * r" using assms(2) by simp
  from q(1) show "(d - f) * r \<le> d * (r - f * r div d)"
    by (simp only: diff_mult_distrib diff_mult_distrib2 diff_le_mono2)
  have "(d - f) * r + f * r = d * r" using assms(2) by (simp add: add_mult_distrib [symmetric])
  with q(2) show "d * r < d * (f * r div d + 1) + (d - f) * r" by linarith
  show "f * r div d \<le> r" using q(1) \<open>f * r \<le> d * r\<close> assms(1) by (meson le_trans mult_le_cancel1)
qed

lemma swap_output_bounds:
  assumes "swap_output ri ro x = Inr out"
  shows "unat ri * 10000 * unat ro \<le> (unat ri * 10000 + unat x * 9970) * (unat ro - unat out)"
    and "(unat ri * 10000 + unat x * 9970) * unat ro
      < (unat ri * 10000 + unat x * 9970) * (unat out + 1) + unat ri * 10000 * unat ro"
    and "out \<le> ro"
proof -
  let ?f = "unat x * 9970" and ?d = "unat ri * 10000 + unat x * 9970"
  have d: "0 < ?d" and out: "out = as_u64 (?f * unat ro div ?d)" using assms by (auto simp: swap_output_ok)
  note share = floor_share [OF d, of ?f "unat ro"]
  have "?f * unat ro div ?d < 2 ^ 64" using share(3) unat_u64_less [of ro] by (simp add: le_less_trans)
  then have "unat out = ?f * unat ro div ?d" using out by (simp add: unat_as_u64_small)
  with share show "unat ri * 10000 * unat ro \<le> ?d * (unat ro - unat out)"
    "?d * unat ro < ?d * (unat out + 1) + unat ri * 10000 * unat ro" "out \<le> ro"
    by (simp_all add: word_le_nat_alt)
qed

text \<open>The two sides of a pool, as the direction of a swap has them.\<close>

definition side_in :: "bool \<Rightarrow> pool \<Rightarrow> nat" where
  "side_in hkm_to_token p = unat (if hkm_to_token then pl_reserve_hkm p else pl_reserve_token p)"

definition side_out :: "bool \<Rightarrow> pool \<Rightarrow> nat" where
  "side_out hkm_to_token p = unat (if hkm_to_token then pl_reserve_token p else pl_reserve_hkm p)"

lemma reserves_product: "side_in d p * side_out d p = unat (pl_reserve_hkm p) * unat (pl_reserve_token p)"
  by (simp add: side_in_def side_out_def)

lemma swap_moves_reserves:
  assumes plan: "plan_swap p action = Inr out" and d: "d = aa_hkm_to_token action" and x: "x = aa_amount_in action"
    and fits: "side_in d p + unat x < 2 ^ 64"
  defines "q \<equiv> swapped_pool p d x out"
  shows "side_in d q = side_in d p + unat x" "side_out d q + unat out = side_out d p"
    "0 < unat out" "0 < side_out d q" "aa_min_out action \<le> out"
    "10000 * (side_in d p * side_out d p) + 30 * unat x * side_out d q
      \<le> 10000 * (side_in d q * side_out d q)"
    "(10000 * side_in d p + 9970 * unat x) * (side_out d q - 1) < 10000 * (side_in d p * side_out d p)"
proof -
  let ?ri = "if d then pl_reserve_hkm p else pl_reserve_token p"
  let ?ro = "if d then pl_reserve_token p else pl_reserve_hkm p"
  note p = plan_swap_ok [OF plan, folded d x]
  then have o: "swap_output ?ri ?ro x = Inr out" "out < ?ro" by auto
  show "0 < unat out" "aa_min_out action \<le> out" using p by (simp_all add: word_less_nat_alt)
  have ri: "unat ?ri = side_in d p" and ro: "unat ?ro = side_out d p"
    by (simp_all add: side_in_def side_out_def)
  show grown: "side_in d q = side_in d p + unat x"
    using fits by (auto simp: q_def side_in_def swapped_pool_def unat_plus)
  have left: "side_out d q = side_out d p - unat out"
    using o(2) by (auto simp: q_def side_out_def swapped_pool_def unat_minus split: if_splits)
  have lt: "unat out < side_out d p" using o(2) ro by (simp add: word_less_nat_alt)
  with left show sum: "side_out d q + unat out = side_out d p" and rest: "0 < side_out d q" by simp_all
  note b = swap_output_bounds [OF o(1), unfolded ri ro, folded left]
  show "10000 * (side_in d p * side_out d p) + 30 * unat x * side_out d q
      \<le> 10000 * (side_in d q * side_out d q)"
    using b(1) unfolding grown by (simp add: algebra_simps)
  have "(10000 * side_in d p + 9970 * unat x) * side_out d q
      < (10000 * side_in d p + 9970 * unat x) + 10000 * (side_in d p * side_out d p)"
    using b(2) unfolding sum [symmetric] by (simp add: algebra_simps)
  then show "(10000 * side_in d p + 9970 * unat x) * (side_out d q - 1) < 10000 * (side_in d p * side_out d p)"
    using rest by (cases "side_out d q") (simp_all add: algebra_simps)
qed

text \<open>Adding to or removing from a pool never lowers what a share is worth of either reserve.\<close>

lemma minted_backed:
  assumes "plan_liquidity p a = Inr (h, u, m, False)"
  shows "unat m * unat (pl_reserve_hkm p) \<le> unat h * unat (pl_total_shares p)
    \<and> unat m * unat (pl_reserve_token p) \<le> unat u * unat (pl_total_shares p)"
proof -
  let ?rh = "unat (pl_reserve_hkm p)" and ?rt = "unat (pl_reserve_token p)" and ?ts = "unat (pl_total_shares p)"
  have m: "m = as_u64 (min (unat h * ?ts div ?rh) (unat u * ?ts div ?rt))"
    using assms by (auto simp: plan_liquidity_def exec_ok first_liquidity_def more_liquidity_def Let_def split: if_splits)
  have "unat m \<le> unat h * ?ts div ?rh" "unat m \<le> unat u * ?ts div ?rt"
    using unat_as_u64_le [of "min (unat h * ?ts div ?rh) (unat u * ?ts div ?rt)"] by (simp_all add: m)
  then have "unat m * ?rh \<le> unat h * ?ts div ?rh * ?rh" "unat m * ?rt \<le> unat u * ?ts div ?rt * ?rt"
    by (simp_all only: mult_le_mono1)
  then show ?thesis using div_times_less_eq_dividend order_trans by blast
qed

lemma removed_backed:
  assumes "plan_removal p a = Inr (h, u)"
  shows "unat h * unat (pl_total_shares p) \<le> unat (aa_shares a) * unat (pl_reserve_hkm p)
    \<and> unat u * unat (pl_total_shares p) \<le> unat (aa_shares a) * unat (pl_reserve_token p)"
proof -
  let ?ts = "unat (pl_total_shares p)"
  have le: "unat (as_u64 (n div ?ts)) * ?ts \<le> n" for n
  proof -
    have "unat (as_u64 (n div ?ts)) * ?ts \<le> n div ?ts * ?ts" using unat_as_u64_le by (rule mult_le_mono1)
    also have "\<dots> \<le> n" by simp
    finally show ?thesis .
  qed
  show ?thesis using plan_removal_ok [OF assms] le by simp
qed

end
