(* ===== verification/Soundness.thy ===== *)
theory Soundness
  imports Staking Amm
begin

text \<open>
  The accounting invariant of the chain state, and that every arm of \<open>apply_verified\<close> keeps it:
  the HKM balances and the fee pot add up to the recorded supply; the staking, vesting and AMM
  pool accounts hold exactly what is bonded or unbonding, unvested, and in the pools' reserves;
  every token's holdings add up to its recorded supply; and every pool's shares are the ones
  handed out plus the locked minimum.
\<close>


section \<open>The invariant\<close>

definition internal_account :: "string \<Rightarrow> bool" where
  "internal_account a \<longleftrightarrow> a = STAKING_POOL_ACCOUNT \<or> a = VESTING_POOL_ACCOUNT \<or> a = AMM_POOL_ACCOUNT"

definition unbonding_units :: "unbonding_entry list \<Rightarrow> int" where
  "unbonding_units es = sum_list (map (\<lambda>e. uint (ub_amount e)) es)"

definition unvested_units :: "vesting_entry list \<Rightarrow> int" where
  "unvested_units es = sum_list (map (\<lambda>e. uint (ve_total e) - uint (ve_released e)) es)"

definition bonded_total :: "chain_state \<Rightarrow> int" where
  "bonded_total s = fmsum (\<lambda>i. uint (si_stake i)) (cs_stakers s)"

definition unbonding_sum :: "chain_state \<Rightarrow> int" where
  "unbonding_sum s = fmsum unbonding_units (cs_unbonding s)"

definition unvested_sum :: "chain_state \<Rightarrow> int" where
  "unvested_sum s = fmsum unvested_units (cs_vesting s)"

definition pooled_hkm :: "chain_state \<Rightarrow> int" where
  "pooled_hkm s = fmsum (\<lambda>p. uint (pl_reserve_hkm p)) (cs_pools s)"

definition recorded_supply :: "string \<Rightarrow> chain_state \<Rightarrow> int" where
  "recorded_supply k s = (case fmlookup (cs_tokens s) k of None \<Rightarrow> 0 | Some i \<Rightarrow> uint (ti_total_supply i))"

definition lp_total :: "string \<Rightarrow> chain_state \<Rightarrow> int" where
  "lp_total k s = fmsum uint (fmfind fmempty (cs_lp_shares s) k)"

definition supply_inv :: "chain_state \<Rightarrow> bool" where
  "supply_inv s \<longleftrightarrow> hkm_total s + uint (cs_fee_pot s) = uint (cs_total_supply s)"

definition staking_inv :: "chain_state \<Rightarrow> bool" where
  "staking_inv s \<longleftrightarrow> uint (balance_of s STAKING_POOL_ACCOUNT) = bonded_total s + unbonding_sum s"

text \<open>A schedule as the \<open>Vest\<close> arm writes it, and as the releases leave it.\<close>

definition schedule_ok :: "vesting_entry \<Rightarrow> bool" where
  "schedule_ok e \<longleftrightarrow> ve_released e \<le> ve_total e \<and> ve_start_height e \<le> ve_cliff_height e
     \<and> ve_start_height e < ve_end_height e"

definition vesting_inv :: "chain_state \<Rightarrow> bool" where
  "vesting_inv s \<longleftrightarrow> uint (balance_of s VESTING_POOL_ACCOUNT) = unvested_sum s
     \<and> fmpred (\<lambda>_. list_all schedule_ok) (cs_vesting s)"

definition amm_inv :: "chain_state \<Rightarrow> bool" where
  "amm_inv s \<longleftrightarrow> uint (balance_of s AMM_POOL_ACCOUNT) = pooled_hkm s"

definition token_inv :: "chain_state \<Rightarrow> bool" where
  "token_inv s \<longleftrightarrow> (\<forall>k. token_total k s = recorded_supply k s
     \<and> uint (token_balance_of s k AMM_POOL_ACCOUNT) = uint (pl_reserve_token (pool_of s k)))"

definition lp_inv :: "chain_state \<Rightarrow> bool" where
  "lp_inv s \<longleftrightarrow> (\<forall>k. lp_total k s + (if fmhas (cs_pools s) k then 1000 else 0)
        = uint (pl_total_shares (pool_of s k)))
     \<and> fmpred (\<lambda>_ p. 0 < pl_reserve_hkm p \<and> 0 < pl_reserve_token p) (cs_pools s)"

definition keys_inv :: "chain_state \<Rightarrow> bool" where
  "keys_inv s \<longleftrightarrow> (\<forall>a. internal_account a \<longrightarrow>
     \<not> fmhas (cs_stakers s) a \<and> \<not> fmhas (cs_unbonding s) a \<and> \<not> fmhas (cs_vesting s) a)"

definition sound :: "chain_state \<Rightarrow> bool" where
  "sound s \<longleftrightarrow> supply_inv s \<and> staking_inv s \<and> vesting_inv s \<and> amm_inv s \<and> token_inv s \<and> lp_inv s \<and> keys_inv s"


section \<open>Reading the invariant\<close>

lemma internal_distinct [simp]:
  "STAKING_POOL_ACCOUNT \<noteq> VESTING_POOL_ACCOUNT" "VESTING_POOL_ACCOUNT \<noteq> STAKING_POOL_ACCOUNT"
  "STAKING_POOL_ACCOUNT \<noteq> AMM_POOL_ACCOUNT" "AMM_POOL_ACCOUNT \<noteq> STAKING_POOL_ACCOUNT"
  "VESTING_POOL_ACCOUNT \<noteq> AMM_POOL_ACCOUNT" "AMM_POOL_ACCOUNT \<noteq> VESTING_POOL_ACCOUNT"
  by (simp_all add: STAKING_POOL_ACCOUNT_def VESTING_POOL_ACCOUNT_def AMM_POOL_ACCOUNT_def)

lemma address_not_internal: "scheme_of a \<noteq> None \<Longrightarrow> \<not> internal_account a"
  by (auto simp: internal_account_def scheme_of_cases STAKING_POOL_ACCOUNT_def VESTING_POOL_ACCOUNT_def
      AMM_POOL_ACCOUNT_def)

lemma not_internal_neq:
  "\<not> internal_account a \<Longrightarrow> a \<noteq> STAKING_POOL_ACCOUNT \<and> a \<noteq> VESTING_POOL_ACCOUNT \<and> a \<noteq> AMM_POOL_ACCOUNT
     \<and> STAKING_POOL_ACCOUNT \<noteq> a \<and> VESTING_POOL_ACCOUNT \<noteq> a \<and> AMM_POOL_ACCOUNT \<noteq> a"
  by (auto simp: internal_account_def)

lemma hkm_total_nonneg: "0 \<le> hkm_total s"
  unfolding hkm_total_def by (rule fmsum_nonneg) simp

lemma balance_le_total: "uint (balance_of s a) \<le> hkm_total s"
  unfolding hkm_total_def balance_of_def by (rule fmsum_find_le) simp_all

lemma two_balances_le_total: "a \<noteq> b \<Longrightarrow> uint (balance_of s a) + uint (balance_of s b) \<le> hkm_total s"
  unfolding hkm_total_def balance_of_def by (rule fmsum_two_le) simp_all

lemma supply_inv_bound: "supply_inv s \<Longrightarrow> hkm_total s + uint (cs_fee_pot s) < 2 ^ 64"
  by (simp add: supply_inv_def)

lemma token_total_nonneg: "0 \<le> token_total k s"
  unfolding token_total_def by (rule fmsum_nonneg) simp

lemma token_balance_le_total: "uint (token_balance_of s k a) \<le> token_total k s"
  unfolding token_total_def token_balance_of_def by (rule fmsum_find_le) simp_all

lemma token_two_le_total:
  "a \<noteq> b \<Longrightarrow> uint (token_balance_of s k a) + uint (token_balance_of s k b) \<le> token_total k s"
  unfolding token_total_def token_balance_of_def by (rule fmsum_two_le) simp_all

lemma recorded_supply_bound: "recorded_supply k s < 2 ^ 64"
  by (auto simp: recorded_supply_def split: option.splits)


section \<open>How updates change the measures\<close>

lemma hkm_total_upd [simp]:
  "hkm_total (s\<lparr>cs_balances := fmupd a v m\<rparr>)
   = hkm_total (s\<lparr>cs_balances := m\<rparr>) - uint (balance_of (s\<lparr>cs_balances := m\<rparr>) a) + uint v"
  "hkm_total (s\<lparr>cs_balances := cs_balances s'\<rparr>) = hkm_total s'"
  by (simp_all add: hkm_total_def balance_of_def ledger_simps)

lemma bonded_upd:
  "fmsum (\<lambda>i. uint (si_stake i)) (fmupd a i m)
   = fmsum (\<lambda>i. uint (si_stake i)) m - uint (si_stake (fmfind default_stake_info m a)) + uint (si_stake i)"
  by (rule fmsum_upd) (simp add: default_stake_info_def)

lemma unbonding_upd:
  "fmsum unbonding_units (fmupd a es m) = fmsum unbonding_units m - unbonding_units (fmfind [] m a) + unbonding_units es"
  by (rule fmsum_upd) (simp add: unbonding_units_def)

lemma unbonding_drop:
  "fmsum unbonding_units (fmdrop a m) = fmsum unbonding_units m - unbonding_units (fmfind [] m a)"
  by (rule fmsum_drop) (simp add: unbonding_units_def)

lemma unvested_upd:
  "fmsum unvested_units (fmupd a es m) = fmsum unvested_units m - unvested_units (fmfind [] m a) + unvested_units es"
  by (rule fmsum_upd) (simp add: unvested_units_def)

lemma unvested_drop:
  "fmsum unvested_units (fmdrop a m) = fmsum unvested_units m - unvested_units (fmfind [] m a)"
  by (rule fmsum_drop) (simp add: unvested_units_def)

lemma pooled_upd:
  "fmsum (\<lambda>p. uint (pl_reserve_hkm p)) (fmupd k p m)
   = fmsum (\<lambda>p. uint (pl_reserve_hkm p)) m - uint (pl_reserve_hkm (fmfind default_pool m k)) + uint (pl_reserve_hkm p)"
  by (rule fmsum_upd) (simp add: default_pool_def)

lemmas measure_defs = bonded_total_def unbonding_sum_def unvested_sum_def pooled_hkm_def lp_total_def
  recorded_supply_def pool_of_def lp_shares_of_def
lemmas measure_upds = bonded_upd unbonding_upd unbonding_drop unvested_upd unvested_drop pooled_upd ledger_simps
lemmas inv_defs = supply_inv_def staking_inv_def vesting_inv_def amm_inv_def token_inv_def lp_inv_def keys_inv_def

lemma unbonding_units_append [simp]: "unbonding_units (xs @ ys) = unbonding_units xs + unbonding_units ys"
  by (simp add: unbonding_units_def)

lemma unvested_units_append [simp]: "unvested_units (xs @ ys) = unvested_units xs + unvested_units ys"
  by (simp add: unvested_units_def)

lemma spend_measures [simp]:
  "balance_of (spend a n c s) b = (if b = a then balance_of s a - c else balance_of s b)"
  "hkm_total (spend a n c s) = hkm_total s - uint (balance_of s a) + uint (balance_of s a - c)"
  "cs_fee_pot (spend a n c s) = cs_fee_pot s" "cs_total_supply (spend a n c s) = cs_total_supply s"
  "cs_stakers (spend a n c s) = cs_stakers s" "cs_unbonding (spend a n c s) = cs_unbonding s"
  "cs_vesting (spend a n c s) = cs_vesting s" "cs_pools (spend a n c s) = cs_pools s"
  "cs_tokens (spend a n c s) = cs_tokens s" "cs_token_balances (spend a n c s) = cs_token_balances s"
  "cs_lp_shares (spend a n c s) = cs_lp_shares s" "cs_base_fee (spend a n c s) = cs_base_fee s"
  "token_balance_of (spend a n c s) k b = token_balance_of s k b"
  "token_total k (spend a n c s) = token_total k s"
  by (auto simp: spend_def hkm_total_def balance_of_def ledger_simps token_balance_of_def token_total_def)

lemma uint_le: "(a :: u64) \<le> b \<longleftrightarrow> uint a \<le> uint b"
  by (simp add: word_le_def)

lemma unat_fits: "unat (a :: u64) + unat b < 2 ^ 64 \<longleftrightarrow> uint a + uint b < 2 ^ 64"
proof -
  have "unat a + unat b < 2 ^ 64 \<longleftrightarrow> int (unat a + unat b) < int (2 ^ 64)" by (simp only: of_nat_less_iff)
  also have "\<dots> \<longleftrightarrow> uint a + uint b < 2 ^ 64" by simp
  finally show ?thesis .
qed


text \<open>A fee that was debited from somebody fits into the pot.\<close>

lemma fee_fits:
  assumes "supply_inv s" "c \<le> balance_of s a" "uint f \<le> uint c"
  shows "uint (cs_fee_pot s) + uint f < 2 ^ 64"
  using supply_inv_bound [OF assms(1)] balance_le_total [of s a] assms(2,3) by (simp add: uint_le)


section \<open>Transfers\<close>

lemma apply_transfer_sound:
  assumes "apply_transfer tx s = (Inr (), t)" and "tx_from tx = Some a" "\<not> internal_account a" and "sound s"
  shows "sound t"
proof -
  let ?f = "cs_base_fee s" and ?n = "tx_amount tx"
  obtain u where to: "is_valid_address (tx_to tx)"
    and cost: "unat ?n + unat ?f < 2 ^ 64" "?n + ?f \<le> balance_of s a"
    and u: "u = spend a (tx_nonce tx) (?n + ?f) s"
    and cap: "unat (balance_of u (tx_to tx)) + unat ?n < 2 ^ 64"
    and t: "t = u\<lparr>cs_balances := fmupd (tx_to tx) (balance_of u (tx_to tx) + ?n) (cs_balances u),
                 cs_fee_pot := sat_add (cs_fee_pot s) ?f\<rparr>"
    using assms(1,2) by (auto simp: apply_transfer_ok)
  have ext: "\<not> internal_account (tx_to tx)" using to by (simp add: is_valid_address_def address_not_internal)
  have "uint (cs_fee_pot s) + uint ?f < 2 ^ 64"
    using assms(4) cost by (intro fee_fits [where c = "?n + ?f" and a = a]) (auto simp: sound_def uint_plus_fits)
  with cost cap show ?thesis
    using assms(3,4) not_internal_neq [OF assms(3)] not_internal_neq [OF ext]
    by (simp add: sound_def inv_defs t u measure_defs uint_minus_le uint_plus_fits u64_simps)
qed


lemma apply_vest_sound:
  assumes "apply_vest tx h s = (Inr (), t)" and "tx_from tx = Some a" "\<not> internal_account a" and "sound s"
  shows "sound t"
proof -
  let ?f = "cs_base_fee s" and ?n = "tx_amount tx"
  obtain cliff duration u where to: "is_valid_address (tx_to tx)"
    and cost: "unat ?n + unat ?f < 2 ^ 64" "?n + ?f \<le> balance_of s a"
    and u: "u = spend a (tx_nonce tx) (?n + ?f) s"
    and cap: "unat (balance_of u VESTING_POOL_ACCOUNT) + unat ?n < 2 ^ 64"
    and sched: "duration \<noteq> 0" "unat h + unat cliff < 2 ^ 64" "unat h + unat duration < 2 ^ 64"
    and t: "t = u\<lparr>cs_balances := fmupd VESTING_POOL_ACCOUNT (balance_of u VESTING_POOL_ACCOUNT + ?n) (cs_balances u),
                 cs_fee_pot := sat_add (cs_fee_pot s) ?f,
                 cs_vesting := fmupd (tx_to tx)
                   (fmfind [] (cs_vesting s) (tx_to tx) @
                     [\<lparr>ve_total = ?n, ve_released = 0, ve_start_height = h,
                       ve_cliff_height = h + cliff, ve_end_height = h + duration\<rparr>]) (cs_vesting s)\<rparr>"
    using assms(1,2) by (auto simp: apply_vest_ok)
  have ext: "\<not> internal_account (tx_to tx)" using to by (simp add: is_valid_address_def address_not_internal)
  have "uint (cs_fee_pot s) + uint ?f < 2 ^ 64"
    using assms(4) cost by (intro fee_fits [where c = "?n + ?f" and a = a]) (auto simp: sound_def uint_plus_fits)
  moreover have "schedule_ok \<lparr>ve_total = ?n, ve_released = 0, ve_start_height = h,
      ve_cliff_height = h + cliff, ve_end_height = h + duration\<rparr>"
    using sched unat_gt_0 [of duration] by (simp add: schedule_ok_def word_le_nat_alt word_less_nat_alt unat_plus)
  moreover have "list_all schedule_ok (fmfind [] (cs_vesting s) (tx_to tx))"
    using assms(4) by (auto simp: sound_def vesting_inv_def fmfind_def fmpred_iff split: option.splits)
  ultimately show ?thesis
    using assms(3,4) not_internal_neq [OF assms(3)] not_internal_neq [OF ext] ext cost cap
    by (auto simp: sound_def inv_defs t u measure_defs measure_upds uint_minus_le uint_plus_fits u64_simps
        unvested_units_def fmpred_iff split: if_splits)
qed

lemma apply_reward_sound:
  assumes "apply_reward tx s = (Inr (), t)" and "\<not> internal_account (tx_to tx)" and "sound s"
    and "uint (cs_total_supply s) + uint (tx_amount tx) < 2 ^ 64"
  shows "sound t"
proof -
  have "uint (balance_of s (tx_to tx)) + uint (tx_amount tx) < 2 ^ 64"
    using assms(3,4) balance_le_total [of s "tx_to tx"] by (simp add: sound_def supply_inv_def)
       (smt (verit) uint_u64_bounds(1))
  then show ?thesis
    using assms not_internal_neq [OF assms(2)]
    by (simp add: sound_def inv_defs apply_reward_ok measure_defs u64_simps)
qed

lemma sound_frame [simp]:
  "sound (s\<lparr>cs_nonces := x\<rparr>) = sound s" "sound (s\<lparr>cs_credentials := y\<rparr>) = sound s"
  "sound (s\<lparr>cs_slashed_offenses := z\<rparr>) = sound s" "sound (s\<lparr>cs_burned := w\<rparr>) = sound s"
  "sound (s\<lparr>cs_base_fee := v\<rparr>) = sound s"
  by (simp_all add: sound_def inv_defs measure_defs)

lemma apply_certificate_sound:
  assumes "apply_certificate L tx s = (Inr (), t)" and "sound s"
  shows "sound t"
proof (cases "tx_credential tx")
  case None
  with assms show ?thesis by (simp add: apply_certificate_ok)
next
  case (Some action)
  with assms(1) obtain n c where "t = s\<lparr>cs_nonces := n, cs_credentials := c\<rparr>"
    unfolding apply_certificate_ok by (auto simp: Some)
  then show ?thesis using assms(2) by simp
qed

text \<open>Paying a fee keeps the books, which is all the token arms do in HKM.\<close>

lemma pay_fee_sound:
  assumes "can_pay_fee a n s" "\<not> internal_account a" "sound s"
  shows "sound (pay_fee a n s)"
proof -
  have "uint (cs_fee_pot s) + uint (cs_base_fee s) < 2 ^ 64"
    using assms by (intro fee_fits [where c = "cs_base_fee s" and a = a]) (auto simp: sound_def can_pay_fee_def)
  with assms not_internal_neq [OF assms(2)] show ?thesis
    by (simp add: sound_def inv_defs pay_fee_def can_pay_fee_def measure_defs uint_minus_le u64_simps)
qed


section \<open>Stake, withdraw and slash\<close>

lemma apply_stake_sound:
  assumes "apply_stake tx s = (Inr (), t)" and "tx_from tx = Some a" "\<not> internal_account a" and "sound s"
  shows "sound t"
proof -
  let ?f = "cs_base_fee s" and ?n = "tx_amount tx"
  obtain pk vk u pq where
    cost: "unat ?n + unat ?f < 2 ^ 64" "?n + ?f \<le> balance_of s a"
    and u: "u = spend a (tx_nonce tx) (?n + ?f) s"
    and cap: "unat (balance_of u STAKING_POOL_ACCOUNT) + unat ?n < 2 ^ 64"
    and stake: "unat (si_stake (staker_of s a)) + unat ?n < 2 ^ 64"
    and t: "t = set_staker a
              \<lparr>si_stake = si_stake (staker_of s a) + ?n, si_public_key = pk, si_vrf_public_key = vk, si_pq_public_key = pq\<rparr>
              (u\<lparr>cs_balances := fmupd STAKING_POOL_ACCOUNT (balance_of u STAKING_POOL_ACCOUNT + ?n) (cs_balances u),
                 cs_fee_pot := sat_add (cs_fee_pot s) ?f\<rparr>)"
    using assms(1,2) by (auto simp: apply_stake_ok register_stake_ok staker_of_def)
  have "uint (cs_fee_pot s) + uint ?f < 2 ^ 64"
    using assms(4) cost by (intro fee_fits [where c = "?n + ?f" and a = a]) (auto simp: sound_def uint_plus_fits)
  then show ?thesis
    using assms(3,4) not_internal_neq [OF assms(3)] cost cap stake
    by (auto simp: sound_def inv_defs t u measure_defs measure_upds set_staker_def staker_of_def uint_minus_le
        uint_plus_fits u64_simps split: if_splits)
qed

lemma apply_withdraw_sound:
  assumes "apply_withdraw L tx h s = (Inr (), t)" and "sound s"
  shows "sound t"
proof -
  obtain a info where a: "fmlookup (cs_stakers s) a = Some info" and n: "tx_amount tx \<le> si_stake info"
    and fee: "can_pay_fee a (tx_nonce tx) s"
    and t: "t = (pay_fee a (tx_nonce tx) s)
             \<lparr>cs_stakers := fmupd a (info\<lparr>si_stake := si_stake info - tx_amount tx\<rparr>) (cs_stakers s),
              cs_unbonding := fmupd a
                (fmfind [] (cs_unbonding s) a @ [\<lparr>ub_amount = tx_amount tx, ub_release_height = h + 20\<rparr>])
                (cs_unbonding s)\<rparr>"
    using assms(1) by (auto simp: apply_withdraw_ok)
  have ext: "\<not> internal_account a" using assms(2) a by (auto simp: sound_def keys_inv_def fmhas_def)
  have info: "fmfind default_stake_info (cs_stakers s) a = info" using a by (simp add: fmfind_def)
  have "sound (pay_fee a (tx_nonce tx) s)" by (rule pay_fee_sound [OF fee ext assms(2)])
  then show ?thesis
    using n ext
    by (auto simp: sound_def inv_defs t measure_defs measure_upds info uint_minus_le unbonding_units_def)
qed

lemma take_unbonding_units:
  "uint n \<le> unbonding_units es \<Longrightarrow> unbonding_units (take_unbonding n es) = unbonding_units es - uint n"
proof (induction n es rule: take_unbonding.induct)
  case (1 n)
  then show ?case by (simp add: unbonding_units_def)
next
  case (2 n e es)
  show ?case
  proof (cases "n \<le> ub_amount e")
    case True
    then show ?thesis by (simp add: unbonding_units_def Let_def min_def uint_minus_le)
  next
    case False
    then have le: "ub_amount e \<le> n" by simp
    from False have "n - ub_amount e \<noteq> 0" by auto
    moreover have "uint (n - ub_amount e) \<le> unbonding_units es"
      using 2(2) le by (simp add: unbonding_units_def uint_minus_le)
    ultimately show ?thesis
      using 2(1) [OF refl refl refl] le False
      by (simp add: unbonding_units_def Let_def min_def uint_minus_le)
  qed
qed

lemma unbonding_units_filter: "unbonding_units (filter (\<lambda>e. 0 < ub_amount e) es) = unbonding_units es"
  by (induction es) (auto simp: unbonding_units_def word_neq_0_conv [symmetric])

lemma unbonding_units_nat: "unbonding_units es = int (sum_list (map (unat \<circ> ub_amount) es))"
  by (induction es) (simp_all add: unbonding_units_def)

lemma unbonding_total_units:
  assumes "unbonding_total s a = Inr n"
  shows "uint n = unbonding_units (fmfind [] (cs_unbonding s) a)"
proof (cases "fmlookup (cs_unbonding s) a")
  case None
  with assms show ?thesis by (simp add: unbonding_total_def fmfind_def unbonding_units_def)
next
  case (Some es)
  with assms have "unat n = sum_list (map (unat \<circ> ub_amount) es)" by (simp add: unbonding_total_def exec_ok)
  then have "int (unat n) = unbonding_units es" by (simp only: unbonding_units_nat)
  with Some show ?thesis by (simp add: fmfind_def)
qed

lemma unbonding_units_nonneg: "0 \<le> unbonding_units es"
  by (simp add: unbonding_units_nat)

lemma take_unbonding_zero [simp]: "take_unbonding 0 es = es"
  by (cases es) (simp_all add: Let_def)

lemma deduct_unbonding_sum:
  assumes "uint n \<le> unbonding_units (fmfind [] (cs_unbonding s) v)"
  shows "unbonding_sum (deduct_unbonding v n s) = unbonding_sum s - uint n"
proof (cases "fmlookup (cs_unbonding s) v")
  case None
  with assms show ?thesis by (simp add: deduct_unbonding_def fmfind_def unbonding_units_def)
next
  case (Some es)
  then have find: "fmfind [] (cs_unbonding s) v = es" by (simp add: fmfind_def)
  then have "unbonding_units (filter (\<lambda>e. 0 < ub_amount e) (take_unbonding n es)) = unbonding_units es - uint n"
    using assms by (simp add: unbonding_units_filter take_unbonding_units)
  then show ?thesis
    using Some find unbonding_units_def [of "[]"]
    by (auto simp: deduct_unbonding_def Let_def unbonding_sum_def unbonding_upd unbonding_drop)
qed

lemma deduct_unbonding_frame:
  "deduct_unbonding v n s = s\<lparr>cs_unbonding := cs_unbonding (deduct_unbonding v n s)\<rparr>"
  by (auto simp: deduct_unbonding_def Let_def split: option.splits)

lemma deduct_unbonding_keys: "fmhas (cs_unbonding (deduct_unbonding v n s)) a \<Longrightarrow> fmhas (cs_unbonding s) a"
  by (auto simp: deduct_unbonding_def Let_def fmhas_def split: option.splits if_splits)

text \<open>A slash takes what it burns out of the bonded and unbonding stake, to the unit.\<close>

lemma slash_share:
  fixes b :: u64
  shows "sat_mul b 10 div 100 \<le> b"
proof -
  have "unat (sat_mul b 10 div 100) \<le> unat b"
    by (simp add: unat_div unat_sat_mul min_def)
  then show ?thesis by (simp add: word_le_nat_alt)
qed

lemma apply_slash_sound:
  assumes "apply_slash tx h s = (Inr (), t)" and "sound s"
  shows "sound t"
proof -
  let ?v = "tx_to tx"
  obtain index info n where chk: "check_slash tx h s = Inr (index, info, n)"
    and le: "n \<le> balance_of s STAKING_POOL_ACCOUNT"
    and t: "t = punish ?v index info n
        (s\<lparr>cs_balances := fmupd STAKING_POOL_ACCOUNT (balance_of s STAKING_POOL_ACCOUNT - n) (cs_balances s)\<rparr>)"
    using assms(1) by (auto simp: apply_slash_ok)
  obtain ub where info: "fmlookup (cs_stakers s) ?v = Some info" and ub: "unbonding_total s ?v = Inr ub"
    and fits: "unat (si_stake info) + unat ub < 2 ^ 64" and n: "n = sat_mul (si_stake info + ub) 10 div 100"
    using chk by (auto simp: check_slash_ok)
  have ext: "\<not> internal_account ?v" using assms(2) info by (auto simp: sound_def keys_inv_def fmhas_def)
  have find: "fmfind default_stake_info (cs_stakers s) ?v = info" using info by (simp add: fmfind_def)
  have units: "uint ub = unbonding_units (fmfind [] (cs_unbonding s) ?v)" using ub by (rule unbonding_total_units)
  have "uint n \<le> uint (si_stake info) + uint ub"
    using slash_share [of "si_stake info + ub"] fits by (simp add: n uint_le uint_plus_fits)
  let ?b = "min n (si_stake info)"
  have b: "?b \<le> n" "?b \<le> si_stake info" by (rule min.cobounded1, rule min.cobounded2)
  have burnt: "n \<le> cs_total_supply s"
    using assms(2) le balance_le_total [of s STAKING_POOL_ACCOUNT] by (simp add: sound_def supply_inv_def uint_le)
       (smt (verit) uint_u64_bounds(1))
  have rest: "uint (n - ?b) \<le> unbonding_units (fmfind [] (cs_unbonding s) ?v)"
    using \<open>uint n \<le> uint (si_stake info) + uint ub\<close> units b(1) uint_u64_bounds(1) [of ub]
    by (auto simp: uint_minus_le min_def)
  let ?u = "set_staker ?v (info\<lparr>si_stake := si_stake info - ?b\<rparr>)
      (s\<lparr>cs_balances := fmupd STAKING_POOL_ACCOUNT (balance_of s STAKING_POOL_ACCOUNT - n) (cs_balances s),
         cs_burned := sat_add (cs_burned s) n, cs_total_supply := sat_sub (cs_total_supply s) n\<rparr>)"
  let ?w = "if 0 < n - ?b then deduct_unbonding ?v (n - ?b) ?u else ?u"
  have t': "t = ?w\<lparr>cs_slashed_offenses := fmupd (offense_key ?v index) n (cs_slashed_offenses ?w)\<rparr>"
    by (simp add: t punish_def Let_def)
  obtain x where w: "?w = ?u\<lparr>cs_unbonding := x\<rparr>"
  proof (cases "0 < n - ?b")
    case True
    with that deduct_unbonding_frame [of ?v "n - ?b" ?u] show thesis by (simp only: if_True)
  next
    case False
    have "?u = ?u\<lparr>cs_unbonding := cs_unbonding ?u\<rparr>" by simp
    with that False show thesis by (simp only: if_False)
  qed
  have "unbonding_sum ?w = unbonding_sum ?u - uint (n - ?b)"
  proof (cases "0 < n - ?b")
    case True
    then show ?thesis using deduct_unbonding_sum [of "n - ?b" ?u ?v] rest by (simp add: set_staker_def)
  qed (simp add: word_neq_0_conv [symmetric])
  then have sum: "fmsum unbonding_units x = unbonding_sum s - uint (n - ?b)"
    unfolding w by (simp add: unbonding_sum_def set_staker_def)
  have "fmhas x a \<Longrightarrow> fmhas (cs_unbonding s) a" for a
    using deduct_unbonding_keys [of ?v "n - ?b" ?u a] arg_cong [OF w, of cs_unbonding]
    by (auto simp: set_staker_def split: if_splits)
  then have "sound (?u\<lparr>cs_unbonding := x\<rparr>)"
    using assms(2) le burnt b ext sum
    by (auto simp: sound_def inv_defs measure_defs measure_upds find uint_minus_le u64_simps set_staker_def)
  then show ?thesis by (simp add: t' w)
qed


section \<open>Tokens\<close>

text \<open>
  The token books of a state: what \<open>sound\<close> asks of them, apart from the HKM side. A step that
  leaves HKM alone only has to keep these.
\<close>

lemma sound_token_step:
  assumes "sound s" and t: "t = s\<lparr>cs_tokens := x, cs_token_balances := y\<rparr>"
    and "\<And>k. token_total k t = recorded_supply k t"
    and "\<And>k. token_balance_of t k AMM_POOL_ACCOUNT = token_balance_of s k AMM_POOL_ACCOUNT"
  shows "sound t"
proof -
  have "token_inv t"
    using assms by (auto simp: sound_def token_inv_def pool_of_def)
  moreover have "supply_inv t \<and> staking_inv t \<and> vesting_inv t \<and> amm_inv t \<and> lp_inv t \<and> keys_inv t"
    using assms(1) by (simp add: t sound_def inv_defs measure_defs)
  ultimately show ?thesis by (simp add: sound_def)
qed

lemma recorded_supply_cong: "cs_tokens t = cs_tokens s \<Longrightarrow> recorded_supply k t = recorded_supply k s"
  by (simp add: recorded_supply_def)

lemma sound_tokenD: "sound s \<Longrightarrow> token_total k s = recorded_supply k s"
  by (simp add: sound_def token_inv_def)

lemma apply_token_transfer_sound:
  assumes "apply_token_transfer tx s = (Inr (), t)" and "tx_from tx = Some a" "\<not> internal_account a" and "sound s"
  shows "sound t"
proof -
  let ?u = "pay_fee a (tx_nonce tx) s"
  obtain k v where to: "is_valid_address (tx_to tx)" and fee: "can_pay_fee a (tx_nonce tx) s"
    and d: "debit_token k a (tx_amount tx) ?u = (Inr (), v)"
    and c: "try_credit_token k (tx_to tx) (tx_amount tx) v = (Inr (), t)"
    using assms(1,2) by (auto simp: apply_token_transfer_ok tok.move_def bindE_ok)
  have ext: "\<not> internal_account (tx_to tx)" using to by (simp add: is_valid_address_def address_not_internal)
  have u: "sound ?u" by (rule pay_fee_sound [OF fee assms(3,4)])
  have t: "t = set_token_balance k (tx_to tx) (token_balance_of v k (tx_to tx) + tx_amount tx) v"
    "v = drop_token_units k a (tx_amount tx) ?u" "tx_amount tx \<le> token_balance_of ?u k a"
    "unat (token_balance_of v k (tx_to tx)) + unat (tx_amount tx) < 2 ^ 64"
    using d c by (simp_all add: exec_ok)
  show ?thesis
  proof (rule sound_token_step [OF u])
    show "t = ?u\<lparr>cs_tokens := cs_tokens ?u, cs_token_balances := cs_token_balances t\<rparr>"
      by (simp add: t(1,2) set_token_balance_def drop_token_units_def Let_def)
    show "token_total k' t = recorded_supply k' t" for k'
      using sound_tokenD [OF u, of k'] t(3,4)
      by (auto simp: t(1,2) token_total_drop uint_plus_fits recorded_supply_def)
    show "token_balance_of t k' AMM_POOL_ACCOUNT = token_balance_of ?u k' AMM_POOL_ACCOUNT" for k'
      using not_internal_neq [OF ext] not_internal_neq [OF assms(3)]
      by (auto simp: t(1,2) token_balance_of_drop)
  qed
qed

lemma apply_token_burn_sound:
  assumes "apply_token_burn tx s = (Inr (), t)" and "tx_from tx = Some a" "\<not> internal_account a" and "sound s"
  shows "sound t"
proof -
  let ?u = "pay_fee a (tx_nonce tx) s" and ?n = "tx_amount tx"
  obtain k info v where info: "fmlookup (cs_tokens s) k = Some info" and fee: "can_pay_fee a (tx_nonce tx) s"
    and d: "debit_token k a ?n ?u = (Inr (), v)" and t: "t = reduce_token_supply k ?n v"
    using assms(1,2) by (auto simp: apply_token_burn_ok fmhas_def)
  have u: "sound ?u" by (rule pay_fee_sound [OF fee assms(3,4)])
  have v: "v = drop_token_units k a ?n ?u" "?n \<le> token_balance_of ?u k a" using d by (simp_all add: exec_ok)
  have t': "t = v\<lparr>cs_tokens := fmupd k (info\<lparr>ti_total_supply := sat_sub (ti_total_supply info) ?n\<rparr>) (cs_tokens s)\<rparr>"
    using info by (simp add: t reduce_token_supply_def v(1))
  have le: "?n \<le> ti_total_supply info"
    using sound_tokenD [OF u, of k] token_balance_le_total [of ?u k a] v(2) info
    by (simp add: recorded_supply_def uint_le)
  show ?thesis
  proof (rule sound_token_step [OF u])
    show "t = ?u\<lparr>cs_tokens := cs_tokens t, cs_token_balances := cs_token_balances t\<rparr>"
      by (simp add: t' v(1) drop_token_units_def Let_def)
    show "token_total k' t = recorded_supply k' t" for k'
      using sound_tokenD [OF u, of k'] v(2) info le
      by (auto simp: t' v(1) token_total_drop recorded_supply_def u64_simps)
    show "token_balance_of t k' AMM_POOL_ACCOUNT = token_balance_of ?u k' AMM_POOL_ACCOUNT" for k'
      using not_internal_neq [OF assms(3)] by (auto simp: t' v(1) token_balance_of_drop)
  qed
qed

lemma apply_token_create_sound:
  assumes "apply_token_create L tx h s = (Inr (), t)" and "tx_from tx = Some a" "\<not> internal_account a" and "sound s"
  shows "sound t"
proof -
  let ?u = "pay_fee a (tx_nonce tx) s" and ?n = "tx_amount tx"
  from assms(1) obtain sender action k where "tx_token tx = Some action"
      and *: "tx_from tx = Some sender" "\<not> fmhas (cs_tokens s) k"
      "can_pay_fee sender (tx_nonce tx) s" "unat (token_balance_of s k sender) + unat ?n < 2 ^ 64"
      "t = set_token_balance k sender (token_balance_of s k sender + ?n)
        ((pay_fee sender (tx_nonce tx) s)\<lparr>cs_tokens := fmupd k
          \<lparr>ti_token_id = k, ti_symbol = ta_symbol action, ti_name = ta_name action,
           ti_decimals = ta_decimals action, ti_total_supply = tx_amount tx, ti_creator = sender,
           ti_created_at_height = h\<rparr> (cs_tokens s)\<rparr>)"
    unfolding apply_token_create_ok by blast
  from assms(2) *(1) have "sender = a" by simp
  note fresh = *(2) and fee = *(3) [unfolded this] and cap = *(4) [unfolded this] and t0 = *(5) [unfolded this]
  obtain i where i: "ti_total_supply i = ?n"
    and t: "t = set_token_balance k a (token_balance_of s k a + ?n) (?u\<lparr>cs_tokens := fmupd k i (cs_tokens s)\<rparr>)"
    using t0 by (metis token_info.select_convs(5))
  have u: "sound ?u" by (rule pay_fee_sound [OF fee assms(3,4)])
  have zero: "token_total k s = 0"
    using sound_tokenD [OF assms(4), of k] fresh by (simp add: recorded_supply_def fmhas_def)
  show ?thesis
  proof (rule sound_token_step [OF u])
    show "t = ?u\<lparr>cs_tokens := cs_tokens t, cs_token_balances := cs_token_balances t\<rparr>"
      by (simp add: t set_token_balance_def)
    show "token_total k' t = recorded_supply k' t" for k'
      using sound_tokenD [OF assms(4), of k'] cap i zero
      by (auto simp: t recorded_supply_def uint_plus_fits)
    show "token_balance_of t k' AMM_POOL_ACCOUNT = token_balance_of ?u k' AMM_POOL_ACCOUNT" for k'
      using not_internal_neq [OF assms(3)] by (auto simp: t)
  qed
qed


section \<open>Liquidity\<close>

lemma apply_add_liquidity_ok:
  "apply_add_liquidity tx s = (Inr (), t) \<longleftrightarrow>
     (\<exists>a action h u m first s1 s2 s3. tx_from tx = Some a \<and> tx_amm tx = Some action
        \<and> fmhas (cs_tokens s) (aa_token_id action)
        \<and> plan_liquidity (pool_of s (aa_token_id action)) action = Inr (h, u, m, first)
        \<and> can_pay_amount a (tx_nonce tx) h s
        \<and> try_credit AMM_POOL_ACCOUNT h (pay_amount a (tx_nonce tx) h s) = (Inr (), s1)
        \<and> tok.move (aa_token_id action) a AMM_POOL_ACCOUNT u s1 = (Inr (), s2)
        \<and> grow_pool (aa_token_id action) h u m first s2 = (Inr (), s3)
        \<and> grant_shares (aa_token_id action) a m s3 = (Inr (), t))"
  unfolding apply_add_liquidity_def Let_def tok.move_def
  by (auto simp: bindE_ok charge_amount_ok ok_or_ok require_ok split: prod.splits)


lemma pool_updates_frame [simp]:
  "balance_of (set_pool k p s) b = balance_of s b" "hkm_total (set_pool k p s) = hkm_total s"
  "balance_of (set_lp_shares k a v s) b = balance_of s b" "hkm_total (set_lp_shares k a v s) = hkm_total s"
  "balance_of (drop_lp_shares k a s) b = balance_of s b" "hkm_total (drop_lp_shares k a s) = hkm_total s"
  "token_balance_of (set_pool k p s) k' b = token_balance_of s k' b" "token_total k' (set_pool k p s) = token_total k' s"
  "token_balance_of (set_lp_shares k a v s) k' b = token_balance_of s k' b"
  "token_total k' (set_lp_shares k a v s) = token_total k' s"
  "token_balance_of (drop_lp_shares k a s) k' b = token_balance_of s k' b"
  "token_total k' (drop_lp_shares k a s) = token_total k' s"
  by (simp_all add: set_pool_def set_lp_shares_def drop_lp_shares_def)

lemma lp_total_upd:
  "lp_total k' (set_lp_shares k a v s)
   = (if k' = k then lp_total k s - uint (lp_shares_of s k a) + uint v else lp_total k' s)"
  "lp_total k' (drop_lp_shares k a s)
   = (if k' = k then lp_total k s - uint (lp_shares_of s k a) else lp_total k' s)"
  by (auto simp: lp_total_def lp_shares_of_def set_lp_shares_def drop_lp_shares_def ledger_simps)

text \<open>
  The pool side of the books. A pool operation is sound when what it moves between accounts
  is what it adds to or takes from the reserves and shares.
\<close>

lemma sound_pool_step:
  assumes "sound s"
    and t: "t = s\<lparr>cs_nonces := x1, cs_balances := x2, cs_fee_pot := x3, cs_token_balances := x4,
                  cs_pools := x5, cs_lp_shares := x6\<rparr>"
    and "hkm_total t + uint x3 = hkm_total s + uint (cs_fee_pot s)"
    and "balance_of t STAKING_POOL_ACCOUNT = balance_of s STAKING_POOL_ACCOUNT"
    and "balance_of t VESTING_POOL_ACCOUNT = balance_of s VESTING_POOL_ACCOUNT"
    and "uint (balance_of t AMM_POOL_ACCOUNT) - pooled_hkm t = uint (balance_of s AMM_POOL_ACCOUNT) - pooled_hkm s"
    and "\<And>k. token_total k t = token_total k s"
    and "\<And>k. uint (token_balance_of t k AMM_POOL_ACCOUNT) = uint (pl_reserve_token (pool_of t k))"
    and "lp_inv t"
  shows "sound t"
proof -
  have "supply_inv t" "staking_inv t" "vesting_inv t" "amm_inv t" "keys_inv t"
    using assms(1,3-6) by (simp_all add: t sound_def inv_defs measure_defs)
  moreover have "token_inv t"
    using assms(1,7,8) recorded_supply_cong [of t s] by (simp add: sound_def token_inv_def t)
  ultimately show ?thesis using assms(9) by (simp add: sound_def)
qed

lemma plan_liquidity_nonzero:
  assumes "plan_liquidity p a = Inr (h, u, m, first)"
  shows "0 < h \<and> 0 < u"
proof (cases first)
  case True
  with assms have "1000 < isqrt_u128 (unat h * unat u)" using plan_liquidity_first by simp
  then have "unat h * unat u \<noteq> 0" by (metis isqrt_u128_def less_nat_zero_code zero_less_numeral)
  then show ?thesis by (simp add: unat_gt_0 word_neq_0_conv [symmetric])
next
  case False
  with assms show ?thesis
    by (auto simp: plan_liquidity_def exec_ok first_liquidity_def more_liquidity_def Let_def
        word_neq_0_conv split: if_splits)
qed

lemma no_pool_no_shares: "sound s \<Longrightarrow> \<not> fmhas (cs_pools s) k \<Longrightarrow> pl_total_shares (pool_of s k) = 0 \<and> lp_total k s = 0"
  by (auto simp: sound_def lp_inv_def pool_of_def fmhas_def fmfind_def default_pool_def dest: spec [of _ k])

lemma pool_has_shares:
  "sound s \<Longrightarrow> fmhas (cs_pools s) k \<Longrightarrow>
   pl_total_shares (pool_of s k) \<noteq> 0 \<and> 0 < pl_reserve_hkm (pool_of s k) \<and> 0 < pl_reserve_token (pool_of s k)"
proof -
  assume s: "sound s" and k: "fmhas (cs_pools s) k"
  then obtain p where p: "fmlookup (cs_pools s) k = Some p" by (auto simp: fmhas_def)
  have "0 \<le> lp_total k s" unfolding lp_total_def by (rule fmsum_nonneg) simp
  moreover have "lp_total k s + 1000 = uint (pl_total_shares (pool_of s k))"
    using s k unfolding sound_def lp_inv_def by (auto dest: spec [of _ k])
  ultimately have "pl_total_shares (pool_of s k) \<noteq> 0" by auto
  moreover have "0 < pl_reserve_hkm p \<and> 0 < pl_reserve_token p"
    using s p by (auto simp: sound_def lp_inv_def fmpred_iff)
  ultimately show ?thesis using p by (simp add: pool_of_def fmfind_def)
qed


lemma lp_inv_step:
  assumes "lp_inv s" and "cs_pools t = fmupd k p (cs_pools s)"
    and "\<And>k'. k' \<noteq> k \<Longrightarrow> lp_total k' t = lp_total k' s"
    and "lp_total k t + 1000 = uint (pl_total_shares p)" and "0 < pl_reserve_hkm p \<and> 0 < pl_reserve_token p"
  shows "lp_inv t"
  using assms by (auto simp: lp_inv_def pool_of_def fmpred_iff split: if_splits)

lemma apply_add_liquidity_sound:
  assumes "apply_add_liquidity tx s = (Inr (), t)" and "tx_from tx = Some a" "\<not> internal_account a" and "sound s"
  shows "sound t"
proof -
  obtain action h u m first s1 s2 s3 where
      plan: "plan_liquidity (pool_of s (aa_token_id action)) action = Inr (h, u, m, first)"
    and pay: "can_pay_amount a (tx_nonce tx) h s"
    and s1: "try_credit AMM_POOL_ACCOUNT h (pay_amount a (tx_nonce tx) h s) = (Inr (), s1)"
    and s2: "tok.move (aa_token_id action) a AMM_POOL_ACCOUNT u s1 = (Inr (), s2)"
    and s3: "grow_pool (aa_token_id action) h u m first s2 = (Inr (), s3)"
    and t: "grant_shares (aa_token_id action) a m s3 = (Inr (), t)"
    using assms(1,2) unfolding apply_add_liquidity_ok by auto
  let ?k = "aa_token_id action" and ?s0 = "pay_amount a (tx_nonce tx) h s"
  have fee: "uint (cs_fee_pot s) + uint (cs_base_fee s) < 2 ^ 64"
    using assms(4) pay by (intro fee_fits [where c = "h + cs_base_fee s" and a = a])
      (auto simp: sound_def can_pay_amount_def uint_plus_fits)
  have S1: "s1 = ?s0\<lparr>cs_balances := fmupd AMM_POOL_ACCOUNT (balance_of ?s0 AMM_POOL_ACCOUNT + h) (cs_balances ?s0)\<rparr>"
      "unat (balance_of ?s0 AMM_POOL_ACCOUNT) + unat h < 2 ^ 64"
    using s1 by (simp_all add: exec_ok)
  have S2: "s2 = set_token_balance ?k AMM_POOL_ACCOUNT (token_balance_of s ?k AMM_POOL_ACCOUNT + u) (drop_token_units ?k a u s1)"
      "u \<le> token_balance_of s ?k a" "unat (token_balance_of s ?k AMM_POOL_ACCOUNT) + unat u < 2 ^ 64"
    using s2 not_internal_neq [OF assms(3)] by (auto simp: tok.move_def exec_ok S1(1) token_balance_of_drop)
  have pool: "pool_of s2 ?k = pool_of s ?k" by (simp add: pool_of_def S2(1) S1(1))
  obtain mt where S3: "if first then unat m + 1000 < 2 ^ 64 \<and> mt = m + 1000 else mt = m"
      "unat (pl_reserve_hkm (pool_of s ?k)) + unat h < 2 ^ 64"
      "unat (pl_reserve_token (pool_of s ?k)) + unat u < 2 ^ 64"
      "unat (pl_total_shares (pool_of s ?k)) + unat mt < 2 ^ 64"
      "s3 = set_pool ?k (grown_pool s2 ?k h u mt) s2"
    using s3 unfolding grow_pool_ok pool by auto
  have T: "t = set_lp_shares ?k a (lp_shares_of s ?k a + m) s3" "unat (lp_shares_of s ?k a) + unat m < 2 ^ 64"
    using t by (simp_all add: grant_shares_ok S3(5) S2(1) S1(1) set_pool_def lp_shares_of_def)
  let ?g = "grown_pool s2 ?k h u mt"
  have pools: "cs_pools t = fmupd ?k ?g (cs_pools s)"
    by (simp add: T(1) S3(5) S2(1) S1(1) set_lp_shares_def set_pool_def)
  have g: "pl_reserve_hkm ?g = pl_reserve_hkm (pool_of s ?k) + h" "pl_reserve_token ?g = pl_reserve_token (pool_of s ?k) + u"
      "pl_total_shares ?g = pl_total_shares (pool_of s ?k) + mt"
    by (simp_all add: grown_pool_def pool)
  have first: "first \<longleftrightarrow> \<not> fmhas (cs_pools s) ?k"
    using plan_liquidity_ok [OF plan] pool_has_shares [OF assms(4)] no_pool_no_shares [OF assms(4)] by auto
  note moved = T(1) S3(5) S2(1) S1(1)
  have cost: "uint (h + cs_base_fee s) = uint h + uint (cs_base_fee s)" "h + cs_base_fee s \<le> balance_of s a"
    using pay by (simp_all add: can_pay_amount_def uint_plus_fits)
  show ?thesis
  proof (rule sound_pool_step [OF assms(4)])
    show "t = s\<lparr>cs_nonces := cs_nonces t, cs_balances := cs_balances t, cs_fee_pot := cs_fee_pot t,
               cs_token_balances := cs_token_balances t, cs_pools := cs_pools t, cs_lp_shares := cs_lp_shares t\<rparr>"
      by (simp add: moved set_lp_shares_def set_pool_def set_token_balance_def drop_token_units_def Let_def
          pay_amount_def spend_def)
    have "cs_fee_pot t = sat_add (cs_fee_pot s) (cs_base_fee s)"
      by (simp add: moved set_lp_shares_def set_pool_def pay_amount_def)
    then show "hkm_total t + uint (cs_fee_pot t) = hkm_total s + uint (cs_fee_pot s)"
      using fee cost S1(2) by (simp add: moved pay_amount_def u64_simps uint_plus_fits)
    show "balance_of t STAKING_POOL_ACCOUNT = balance_of s STAKING_POOL_ACCOUNT"
      "balance_of t VESTING_POOL_ACCOUNT = balance_of s VESTING_POOL_ACCOUNT"
      using not_internal_neq [OF assms(3)] by (simp_all add: moved pay_amount_def)
    have "uint (balance_of t AMM_POOL_ACCOUNT) = uint (balance_of s AMM_POOL_ACCOUNT) + uint h"
      using not_internal_neq [OF assms(3)] S1(2) by (simp add: moved pay_amount_def uint_plus_fits)
    moreover have "pooled_hkm t = pooled_hkm s + uint h"
      using g(1) S3(2) by (simp add: pooled_hkm_def pools pooled_upd uint_plus_fits pool_of_def [symmetric])
    ultimately show "uint (balance_of t AMM_POOL_ACCOUNT) - pooled_hkm t
        = uint (balance_of s AMM_POOL_ACCOUNT) - pooled_hkm s" by simp
    show "token_total k t = token_total k s" for k
      using S2(2,3) not_internal_neq [OF assms(3)]
      by (auto simp: moved token_total_drop token_balance_of_drop uint_plus_fits)
    show "uint (token_balance_of t k AMM_POOL_ACCOUNT) = uint (pl_reserve_token (pool_of t k))" for k
      using assms(4) S2(3) S3(3) g(2) not_internal_neq [OF assms(3)]
      by (auto simp: moved token_balance_of_drop uint_plus_fits pool_of_def set_pool_def set_lp_shares_def
          sound_def token_inv_def)
    have "lp_total k t = lp_total k s + (if k = ?k then uint m else 0)" for k
    proof -
      have "lp_total k t = lp_total k s3 + (if k = ?k then uint m else 0)"
        using T(2) by (simp add: T(1) lp_total_upd uint_plus_fits)
          (simp add: moved set_pool_def lp_shares_of_def set_token_balance_def)
      also have "lp_total k s3 = lp_total k s" by (simp add: moved set_pool_def lp_total_def)
      finally show ?thesis .
    qed
    moreover have "lp_total ?k s + uint m + 1000 = uint (pl_total_shares ?g)"
      using S3(1,4) first assms(4) no_pool_no_shares [OF assms(4), of ?k]
      by (auto simp: g(3) uint_plus_fits sound_def lp_inv_def dest: spec [of _ ?k])
    moreover have "0 < pl_reserve_hkm ?g \<and> 0 < pl_reserve_token ?g"
      using plan_liquidity_nonzero [OF plan] S3(2,3) by (simp add: g word_less_nat_alt unat_plus)
    ultimately show "lp_inv t"
      using assms(4) by (intro lp_inv_step [OF _ pools]) (auto simp: sound_def)
  qed
qed


lemma apply_remove_liquidity_ok:
  "apply_remove_liquidity tx s = (Inr (), t) \<longleftrightarrow>
     (\<exists>a action p h u s1 s2 s3 s4 s5. tx_from tx = Some a \<and> tx_amm tx = Some action
        \<and> fmlookup (cs_pools s) (aa_token_id action) = Some p
        \<and> aa_shares action \<le> lp_shares_of s (aa_token_id action) a
        \<and> plan_removal p action = Inr (h, u)
        \<and> can_pay_fee a (tx_nonce tx) s
        \<and> burn_shares (aa_token_id action) a (aa_shares action) (pay_fee a (tx_nonce tx) s) = (Inr (), s1)
        \<and> debit AMM_POOL_ACCOUNT h s1 = (Inr (), s2) \<and> credit a h s2 = (Inr (), s3)
        \<and> debit_token (aa_token_id action) AMM_POOL_ACCOUNT u s3 = (Inr (), s4)
        \<and> credit_token (aa_token_id action) a u s4 = (Inr (), s5)
        \<and> shrink_pool (aa_token_id action) h u (aa_shares action) s5 = (Inr (), t))"
  unfolding apply_remove_liquidity_def Let_def
  by (auto simp: bindE_ok charge_fee_ok ok_or_ok require_ok split: prod.splits)

lemma take_shares_frame [simp]:
  "balance_of (take_shares k a n s) b = balance_of s b" "hkm_total (take_shares k a n s) = hkm_total s"
  "token_balance_of (take_shares k a n s) k' b = token_balance_of s k' b"
  "token_total k' (take_shares k a n s) = token_total k' s"
  "cs_balances (take_shares k a n s) = cs_balances s" "cs_pools (take_shares k a n s) = cs_pools s"
  "cs_token_balances (take_shares k a n s) = cs_token_balances s"
  by (simp_all add: take_shares_def) (simp_all add: drop_lp_shares_def set_lp_shares_def)

lemma lp_total_take:
  "n \<le> lp_shares_of s k a \<Longrightarrow>
   lp_total k' (take_shares k a n s) = lp_total k' s - (if k' = k then uint n else 0)"
  by (auto simp: take_shares_def lp_total_upd uint_minus_le)

text \<open>Crediting saturates, but what has just been debited elsewhere always fits.\<close>

lemma credit_exact:
  assumes "hkm_total s + uint n < 2 ^ 64"
  shows "uint (sat_add (balance_of s a) n) = uint (balance_of s a) + uint n"
  using assms balance_le_total [of s a] by (intro uint_sat_add_exact) simp

lemma sound_hkm_bound: "sound s \<Longrightarrow> hkm_total s < 2 ^ 64"
  using supply_inv_bound [of s] uint_u64_bounds(1) [of "cs_fee_pot s"] unfolding sound_def by linarith

lemma credit_token_exact:
  assumes "token_total k s + uint n < 2 ^ 64"
  shows "uint (sat_add (token_balance_of s k a) n) = uint (token_balance_of s k a) + uint n"
  using assms token_balance_le_total [of s k a] by (intro uint_sat_add_exact) simp

text \<open>Fewer shares than there are take out less than the whole reserve.\<close>

lemma share_of_reserve_less:
  assumes "unat n < unat ts" "0 < unat r"
  shows "unat (as_u64 (unat n * unat r div unat ts)) < unat (r :: u64)"
proof -
  have "unat n * unat r < unat ts * unat r" using assms by simp
  then have "unat n * unat r div unat ts < unat r"
    using assms by (simp add: div_less_iff_less_mult mult.commute)
  then show ?thesis using unat_as_u64_le le_less_trans by blast
qed

lemma lp_share_bound:
  assumes "sound s" "fmlookup (cs_pools s) k = Some p"
  shows "unat (lp_shares_of s k a) + 1000 \<le> unat (pl_total_shares p)"
proof -
  have "uint (lp_shares_of s k a) \<le> lp_total k s"
    unfolding lp_total_def lp_shares_of_def by (rule fmsum_find_le) simp_all
  moreover have "lp_total k s + 1000 = uint (pl_total_shares p)"
    using assms unfolding sound_def lp_inv_def by (auto simp: pool_of_def fmfind_def fmhas_def dest: spec [of _ k])
  ultimately have "int (unat (lp_shares_of s k a) + 1000) \<le> int (unat (pl_total_shares p))" by simp
  then show ?thesis by (simp only: of_nat_le_iff)
qed

lemma apply_remove_liquidity_sound:
  assumes "apply_remove_liquidity tx s = (Inr (), t)" and "tx_from tx = Some a" "\<not> internal_account a" and "sound s"
  shows "sound t"
proof -
  obtain action p h u s1 s2 s3 s4 s5 where
      p: "fmlookup (cs_pools s) (aa_token_id action) = Some p"
    and held: "aa_shares action \<le> lp_shares_of s (aa_token_id action) a"
    and plan: "plan_removal p action = Inr (h, u)"
    and pay: "can_pay_fee a (tx_nonce tx) s"
    and s1: "burn_shares (aa_token_id action) a (aa_shares action) (pay_fee a (tx_nonce tx) s) = (Inr (), s1)"
    and s2: "debit AMM_POOL_ACCOUNT h s1 = (Inr (), s2)" and s3: "credit a h s2 = (Inr (), s3)"
    and s4: "debit_token (aa_token_id action) AMM_POOL_ACCOUNT u s3 = (Inr (), s4)"
    and s5: "credit_token (aa_token_id action) a u s4 = (Inr (), s5)"
    and t: "shrink_pool (aa_token_id action) h u (aa_shares action) s5 = (Inr (), t)"
    using assms(1,2) unfolding apply_remove_liquidity_ok by auto
  let ?k = "aa_token_id action" and ?s0 = "pay_fee a (tx_nonce tx) s" and ?n = "aa_shares action"
  have s0: "sound ?s0" by (rule pay_fee_sound [OF pay assms(3,4)])
  have p0: "fmlookup (cs_pools ?s0) ?k = Some p" "pool_of ?s0 ?k = p" using p by (simp_all add: pool_of_def fmfind_def)
  note ne = not_internal_neq [OF assms(3)]
  have lp: "lp_shares_of ?s0 ?k a = lp_shares_of s ?k a" by (simp add: lp_shares_of_def)
  have S: "s1 = take_shares ?k a ?n ?s0"
      "s2 = s1\<lparr>cs_balances := fmupd AMM_POOL_ACCOUNT (balance_of s1 AMM_POOL_ACCOUNT - h) (cs_balances s1)\<rparr>"
      "h \<le> balance_of ?s0 AMM_POOL_ACCOUNT"
      "s3 = s2\<lparr>cs_balances := fmupd a (sat_add (balance_of s2 a) h) (cs_balances s2)\<rparr>"
      "s4 = drop_token_units ?k AMM_POOL_ACCOUNT u s3" "u \<le> token_balance_of ?s0 ?k AMM_POOL_ACCOUNT"
      "s5 = set_token_balance ?k a (sat_add (token_balance_of s4 ?k a) u) s4"
    using s1 s2 s3 s4 s5 by (simp_all add: burn_shares_ok exec_ok)
  have pools5: "cs_pools s5 = cs_pools s" by (simp add: S)
  have T: "t = set_pool ?k (p\<lparr>pl_reserve_hkm := pl_reserve_hkm p - h, pl_reserve_token := pl_reserve_token p - u,
                            pl_total_shares := pl_total_shares p - ?n\<rparr>) s5"
      "h \<le> pl_reserve_hkm p" "u \<le> pl_reserve_token p" "?n \<le> pl_total_shares p"
    using t p by (auto simp: shrink_pool_ok pools5)
  let ?g = "p\<lparr>pl_reserve_hkm := pl_reserve_hkm p - h, pl_reserve_token := pl_reserve_token p - u,
             pl_total_shares := pl_total_shares p - ?n\<rparr>"
  have pools: "cs_pools t = fmupd ?k ?g (cs_pools ?s0)" by (simp add: T(1) set_pool_def pools5)
  have h2: "hkm_total s2 = hkm_total ?s0 - uint h" using S(3) by (simp add: S(1,2) uint_minus_le)
  have c1: "uint (sat_add (balance_of s2 a) h) = uint (balance_of s2 a) + uint h"
    using sound_hkm_bound [OF s0] by (intro credit_exact) (simp add: h2)
  have t4: "token_total ?k s4 = token_total ?k ?s0 - uint u"
    using S(6) by (simp add: S(1-5) token_total_drop)
  have c2: "uint (sat_add (token_balance_of s4 ?k a) u) = uint (token_balance_of s4 ?k a) + uint u"
    using sound_tokenD [OF s0, of ?k] recorded_supply_bound [of ?k ?s0]
    by (intro credit_token_exact) (simp add: t4)
  show ?thesis
  proof (rule sound_pool_step [OF s0])
    show "t = ?s0\<lparr>cs_nonces := cs_nonces t, cs_balances := cs_balances t, cs_fee_pot := cs_fee_pot t,
               cs_token_balances := cs_token_balances t, cs_pools := cs_pools t, cs_lp_shares := cs_lp_shares t\<rparr>"
      by (simp add: T(1) S set_pool_def set_token_balance_def drop_token_units_def Let_def take_shares_def
          drop_lp_shares_def set_lp_shares_def)
    have "cs_fee_pot t = cs_fee_pot ?s0"
      by (simp add: T(1) S set_pool_def take_shares_def drop_lp_shares_def set_lp_shares_def)
    moreover have "hkm_total t = hkm_total s2 + uint h" using c1 by (simp add: T(1) S(7,5,4))
    ultimately show "hkm_total t + uint (cs_fee_pot t) = hkm_total ?s0 + uint (cs_fee_pot ?s0)" using h2 by simp
    show "balance_of t STAKING_POOL_ACCOUNT = balance_of ?s0 STAKING_POOL_ACCOUNT"
      "balance_of t VESTING_POOL_ACCOUNT = balance_of ?s0 VESTING_POOL_ACCOUNT"
      using ne by (simp_all add: T(1) S)
    have "uint (balance_of t AMM_POOL_ACCOUNT) = uint (balance_of ?s0 AMM_POOL_ACCOUNT) - uint h"
      using ne S(3) by (simp add: T(1) S(1,2,4,5,7) uint_minus_le)
    moreover have "pooled_hkm t = pooled_hkm ?s0 - uint h"
      using T(2) p0 by (simp add: pooled_hkm_def pools pooled_upd uint_minus_le fmfind_def)
    ultimately show "uint (balance_of t AMM_POOL_ACCOUNT) - pooled_hkm t
        = uint (balance_of ?s0 AMM_POOL_ACCOUNT) - pooled_hkm ?s0" by simp
    show "token_total k t = token_total k ?s0" for k
      using c2 t4 S(6) by (simp add: T(1) S(7)) (simp add: S(1-5) token_total_drop)
    show "uint (token_balance_of t k AMM_POOL_ACCOUNT) = uint (pl_reserve_token (pool_of t k))" for k
      using s0 S(6) T(3) p0 ne
      by (auto simp: T(1) S(1-5,7) token_balance_of_drop uint_minus_le pool_of_def set_pool_def
          sound_def token_inv_def)
    have "lp_total k t = lp_total k ?s0 - (if k = ?k then uint ?n else 0)" for k
    proof -
      have "lp_total k t = lp_total k s1"
        by (simp add: T(1) S(2-7) set_pool_def lp_total_def set_token_balance_def drop_token_units_def Let_def)
      then show ?thesis using held by (simp add: S(1) lp_total_take lp)
    qed
    moreover have "lp_total ?k ?s0 + 1000 = uint (pl_total_shares p)"
      using s0 p0 unfolding sound_def lp_inv_def by (auto simp: fmhas_def dest: spec [of _ ?k])
    moreover have "unat ?n < unat (pl_total_shares p)"
      using lp_share_bound [OF assms(4) p, of a] held by (simp add: word_le_nat_alt)
    then have "0 < pl_reserve_hkm ?g \<and> 0 < pl_reserve_token ?g"
      using plan_removal_ok [OF plan] pool_has_shares [OF s0, of ?k] p0
        share_of_reserve_less [of ?n "pl_total_shares p" "pl_reserve_hkm p"]
        share_of_reserve_less [of ?n "pl_total_shares p" "pl_reserve_token p"] T(2,3)
      by (simp add: fmhas_def word_less_nat_alt unat_minus)
    ultimately show "lp_inv t"
      using s0 T(4) by (intro lp_inv_step [OF _ pools]) (auto simp: sound_def uint_minus_le)
  qed
qed


section \<open>Swaps\<close>

lemma apply_swap_ok:
  "apply_swap tx s = (Inr (), t) \<longleftrightarrow>
     (\<exists>a action p out. tx_from tx = Some a \<and> tx_amm tx = Some action
        \<and> fmlookup (cs_pools s) (aa_token_id action) = Some p \<and> plan_swap p action = Inr out
        \<and> (if aa_hkm_to_token action
           then \<exists>s1 s2 s3. can_pay_amount a (tx_nonce tx) (aa_amount_in action) s
             \<and> try_credit AMM_POOL_ACCOUNT (aa_amount_in action)
                  (pay_amount a (tx_nonce tx) (aa_amount_in action) s) = (Inr (), s1)
             \<and> debit_token (aa_token_id action) AMM_POOL_ACCOUNT out s1 = (Inr (), s2)
             \<and> credit_token (aa_token_id action) a out s2 = (Inr (), s3)
             \<and> swap_reserves (aa_token_id action) True (aa_amount_in action) out s3 = (Inr (), t)
           else \<exists>s1 s2 s3. can_pay_fee a (tx_nonce tx) s
             \<and> tok.move (aa_token_id action) a AMM_POOL_ACCOUNT (aa_amount_in action)
                  (pay_fee a (tx_nonce tx) s) = (Inr (), s1)
             \<and> debit AMM_POOL_ACCOUNT out s1 = (Inr (), s2) \<and> credit a out s2 = (Inr (), s3)
             \<and> swap_reserves (aa_token_id action) False (aa_amount_in action) out s3 = (Inr (), t)))"
  (is "?l = ?r")
proof
  assume ?l
  then show ?r unfolding apply_swap_def Let_def tok.move_def
    by (auto simp: bindE_ok charge_amount_ok charge_fee_ok ok_or_ok require_ok split: if_splits)
next
  assume ?r
  then show ?l unfolding apply_swap_def Let_def tok.move_def
    by (auto simp: bindE_ok charge_amount_ok charge_fee_ok split: if_splits)
qed

lemma swap_hkm_to_token_sound:
  assumes s: "sound s" and a: "\<not> internal_account a"
    and p: "fmlookup (cs_pools s) k = Some p" and pay: "can_pay_amount a nonce n s"
    and s1: "try_credit AMM_POOL_ACCOUNT n (pay_amount a nonce n s) = (Inr (), s1)"
    and s2: "debit_token k AMM_POOL_ACCOUNT out s1 = (Inr (), s2)"
    and s3: "credit_token k a out s2 = (Inr (), s3)"
    and t: "swap_reserves k True n out s3 = (Inr (), t)" and out: "out < pl_reserve_token p"
  shows "sound t"
proof -
  let ?s0 = "pay_amount a nonce n s"
  note ne = not_internal_neq [OF a]
  have fee: "uint (cs_fee_pot s) + uint (cs_base_fee s) < 2 ^ 64"
    using s pay by (intro fee_fits [where c = "n + cs_base_fee s" and a = a])
      (auto simp: sound_def can_pay_amount_def uint_plus_fits)
  have cost: "uint (n + cs_base_fee s) = uint n + uint (cs_base_fee s)" "n + cs_base_fee s \<le> balance_of s a"
    using pay by (simp_all add: can_pay_amount_def uint_plus_fits)
  have S: "s1 = ?s0\<lparr>cs_balances := fmupd AMM_POOL_ACCOUNT (balance_of ?s0 AMM_POOL_ACCOUNT + n) (cs_balances ?s0)\<rparr>"
      "unat (balance_of ?s0 AMM_POOL_ACCOUNT) + unat n < 2 ^ 64"
      "s2 = drop_token_units k AMM_POOL_ACCOUNT out s1" "out \<le> token_balance_of s k AMM_POOL_ACCOUNT"
      "s3 = set_token_balance k a (sat_add (token_balance_of s2 k a) out) s2"
    using s1 s2 s3 by (simp_all add: exec_ok)
  have T: "t = set_pool k (swapped_pool p True n out) s3" "unat (pl_reserve_hkm p) + unat n < 2 ^ 64"
    using t p by (auto simp: swap_reserves_ok S(5,3,1))
  have pools: "cs_pools t = fmupd k (swapped_pool p True n out) (cs_pools s)"
    by (simp add: T(1) set_pool_def S(1,3,5))
  have t2: "token_total k s2 = token_total k s - uint out" using S(4) by (simp add: S(1,3) token_total_drop)
  have c: "uint (sat_add (token_balance_of s2 k a) out) = uint (token_balance_of s2 k a) + uint out"
    using sound_tokenD [OF s, of k] recorded_supply_bound [of k s] by (intro credit_token_exact) (simp add: t2)
  have find: "fmfind default_pool (cs_pools s) k = p" using p by (simp add: fmfind_def)
  show ?thesis
  proof (rule sound_pool_step [OF s])
    show "t = s\<lparr>cs_nonces := cs_nonces t, cs_balances := cs_balances t, cs_fee_pot := cs_fee_pot t,
               cs_token_balances := cs_token_balances t, cs_pools := cs_pools t, cs_lp_shares := cs_lp_shares t\<rparr>"
      by (simp add: T(1) S(1,3,5) set_pool_def set_token_balance_def drop_token_units_def Let_def
          pay_amount_def spend_def)
    have "cs_fee_pot t = sat_add (cs_fee_pot s) (cs_base_fee s)"
      by (simp add: T(1) S(1,3,5) set_pool_def pay_amount_def)
    then show "hkm_total t + uint (cs_fee_pot t) = hkm_total s + uint (cs_fee_pot s)"
      using fee cost S(2) by (simp add: T(1) S(1,3,5) pay_amount_def u64_simps uint_plus_fits)
    show "balance_of t STAKING_POOL_ACCOUNT = balance_of s STAKING_POOL_ACCOUNT"
      "balance_of t VESTING_POOL_ACCOUNT = balance_of s VESTING_POOL_ACCOUNT"
      using ne by (simp_all add: T(1) S(1,3,5) pay_amount_def)
    have "uint (balance_of t AMM_POOL_ACCOUNT) = uint (balance_of s AMM_POOL_ACCOUNT) + uint n"
      using ne S(2) by (simp add: T(1) S(1,3,5) pay_amount_def uint_plus_fits)
    moreover have "pooled_hkm t = pooled_hkm s + uint n"
      using T(2) by (simp add: pooled_hkm_def pools pooled_upd find swapped_pool_def uint_plus_fits)
    ultimately show "uint (balance_of t AMM_POOL_ACCOUNT) - pooled_hkm t
        = uint (balance_of s AMM_POOL_ACCOUNT) - pooled_hkm s" by simp
    show "token_total k' t = token_total k' s" for k'
      using c t2 S(4) by (simp add: T(1) S(5)) (simp add: S(1,3) token_total_drop)
    show "uint (token_balance_of t k' AMM_POOL_ACCOUNT) = uint (pl_reserve_token (pool_of t k'))" for k'
      using s S(4) out ne find
      by (auto simp: T(1) S(1,3,5) token_balance_of_drop uint_minus_le pool_of_def set_pool_def swapped_pool_def
          sound_def token_inv_def)
    have "lp_total k' t = lp_total k' s" for k'
      by (simp add: T(1) S(1,3,5) set_pool_def lp_total_def)
    moreover have "lp_total k s + 1000 = uint (pl_total_shares p)"
      using s p find unfolding sound_def lp_inv_def by (auto simp: fmhas_def pool_of_def dest: spec [of _ k])
    moreover have "0 < pl_reserve_hkm p" using pool_has_shares [OF s, of k] p find by (simp add: fmhas_def pool_of_def)
    then have "0 < pl_reserve_hkm (swapped_pool p True n out) \<and> 0 < pl_reserve_token (swapped_pool p True n out)"
      using out T(2) by (simp add: swapped_pool_def word_less_nat_alt unat_plus unat_minus word_le_nat_alt)
    ultimately show "lp_inv t"
      using s by (intro lp_inv_step [OF _ pools]) (auto simp: sound_def swapped_pool_def)
  qed
qed

lemma swap_token_to_hkm_sound:
  assumes s: "sound s" and a: "\<not> internal_account a"
    and p: "fmlookup (cs_pools s) k = Some p" and pay: "can_pay_fee a nonce s"
    and s1: "tok.move k a AMM_POOL_ACCOUNT n (pay_fee a nonce s) = (Inr (), s1)"
    and s2: "debit AMM_POOL_ACCOUNT out s1 = (Inr (), s2)" and s3: "credit a out s2 = (Inr (), s3)"
    and t: "swap_reserves k False n out s3 = (Inr (), t)" and out: "out < pl_reserve_hkm p"
  shows "sound t"
proof -
  let ?s0 = "pay_fee a nonce s"
  have s0: "sound ?s0" by (rule pay_fee_sound [OF pay a s])
  note ne = not_internal_neq [OF a]
  have S: "s1 = set_token_balance k AMM_POOL_ACCOUNT (token_balance_of s k AMM_POOL_ACCOUNT + n) (drop_token_units k a n ?s0)"
      "n \<le> token_balance_of s k a" "unat (token_balance_of s k AMM_POOL_ACCOUNT) + unat n < 2 ^ 64"
      "s2 = s1\<lparr>cs_balances := fmupd AMM_POOL_ACCOUNT (balance_of s1 AMM_POOL_ACCOUNT - out) (cs_balances s1)\<rparr>"
      "out \<le> balance_of ?s0 AMM_POOL_ACCOUNT"
      "s3 = s2\<lparr>cs_balances := fmupd a (sat_add (balance_of s2 a) out) (cs_balances s2)\<rparr>"
    using s1 s2 s3 ne by (auto simp: tok.move_def exec_ok token_balance_of_drop)
  have T: "t = set_pool k (swapped_pool p False n out) s3" "unat (pl_reserve_token p) + unat n < 2 ^ 64"
    using t p by (auto simp: swap_reserves_ok S(1,4,6))
  have pools: "cs_pools t = fmupd k (swapped_pool p False n out) (cs_pools ?s0)"
    by (simp add: T(1) set_pool_def S(1,4,6))
  have h2: "hkm_total s2 = hkm_total ?s0 - uint out" using S(5) by (simp add: S(1,4) uint_minus_le)
  have c: "uint (sat_add (balance_of s2 a) out) = uint (balance_of s2 a) + uint out"
    using sound_hkm_bound [OF s0] by (intro credit_exact) (simp add: h2)
  have find: "fmfind default_pool (cs_pools ?s0) k = p" using p by (simp add: fmfind_def)
  show ?thesis
  proof (rule sound_pool_step [OF s0])
    show "t = ?s0\<lparr>cs_nonces := cs_nonces t, cs_balances := cs_balances t, cs_fee_pot := cs_fee_pot t,
               cs_token_balances := cs_token_balances t, cs_pools := cs_pools t, cs_lp_shares := cs_lp_shares t\<rparr>"
      by (simp add: T(1) S(1,4,6) set_pool_def set_token_balance_def drop_token_units_def Let_def)
    have "cs_fee_pot t = cs_fee_pot ?s0" by (simp add: T(1) S(1,4,6) set_pool_def)
    moreover have "hkm_total t = hkm_total s2 + uint out" using c by (simp add: T(1) S(6))
    ultimately show "hkm_total t + uint (cs_fee_pot t) = hkm_total ?s0 + uint (cs_fee_pot ?s0)" using h2 by simp
    show "balance_of t STAKING_POOL_ACCOUNT = balance_of ?s0 STAKING_POOL_ACCOUNT"
      "balance_of t VESTING_POOL_ACCOUNT = balance_of ?s0 VESTING_POOL_ACCOUNT"
      using ne by (simp_all add: T(1) S(1,4,6))
    have "uint (balance_of t AMM_POOL_ACCOUNT) = uint (balance_of ?s0 AMM_POOL_ACCOUNT) - uint out"
      using ne S(5) by (simp add: T(1) S(1,4,6) uint_minus_le)
    moreover have "pooled_hkm t = pooled_hkm ?s0 - uint out"
      using out by (simp add: pooled_hkm_def pools pooled_upd find [simplified] swapped_pool_def uint_minus_le)
    ultimately show "uint (balance_of t AMM_POOL_ACCOUNT) - pooled_hkm t
        = uint (balance_of ?s0 AMM_POOL_ACCOUNT) - pooled_hkm ?s0" by simp
    show "token_total k' t = token_total k' ?s0" for k'
      using S(2,3) ne by (auto simp: T(1) S(1,4,6) token_total_drop token_balance_of_drop uint_plus_fits)
    show "uint (token_balance_of t k' AMM_POOL_ACCOUNT) = uint (pl_reserve_token (pool_of t k'))" for k'
      using s0 S(3) T(2) ne find
      by (auto simp: T(1) S(1,4,6) token_balance_of_drop uint_plus_fits pool_of_def set_pool_def swapped_pool_def
          sound_def token_inv_def)
    have "lp_total k' t = lp_total k' ?s0" for k'
      by (simp add: T(1) S(1,4,6) set_pool_def lp_total_def)
    moreover have "lp_total k ?s0 + 1000 = uint (pl_total_shares p)"
      using s0 p find unfolding sound_def lp_inv_def by (auto simp: fmhas_def pool_of_def dest: spec [of _ k])
    moreover have "0 < pl_reserve_token p" using pool_has_shares [OF s0, of k] p find by (simp add: fmhas_def pool_of_def)
    then have "0 < pl_reserve_hkm (swapped_pool p False n out) \<and> 0 < pl_reserve_token (swapped_pool p False n out)"
      using out T(2) by (simp add: swapped_pool_def word_less_nat_alt unat_plus unat_minus word_le_nat_alt)
    ultimately show "lp_inv t"
      using s0 by (intro lp_inv_step [OF _ pools]) (auto simp: sound_def swapped_pool_def)
  qed
qed

lemma apply_swap_sound:
  assumes "apply_swap tx s = (Inr (), t)" and "tx_from tx = Some a" "\<not> internal_account a" and "sound s"
  shows "sound t"
proof -
  obtain action p out where p: "fmlookup (cs_pools s) (aa_token_id action) = Some p"
    and plan: "plan_swap p action = Inr out"
    and steps: "if aa_hkm_to_token action
           then \<exists>s1 s2 s3. can_pay_amount a (tx_nonce tx) (aa_amount_in action) s
             \<and> try_credit AMM_POOL_ACCOUNT (aa_amount_in action)
                  (pay_amount a (tx_nonce tx) (aa_amount_in action) s) = (Inr (), s1)
             \<and> debit_token (aa_token_id action) AMM_POOL_ACCOUNT out s1 = (Inr (), s2)
             \<and> credit_token (aa_token_id action) a out s2 = (Inr (), s3)
             \<and> swap_reserves (aa_token_id action) True (aa_amount_in action) out s3 = (Inr (), t)
           else \<exists>s1 s2 s3. can_pay_fee a (tx_nonce tx) s
             \<and> tok.move (aa_token_id action) a AMM_POOL_ACCOUNT (aa_amount_in action)
                  (pay_fee a (tx_nonce tx) s) = (Inr (), s1)
             \<and> debit AMM_POOL_ACCOUNT out s1 = (Inr (), s2) \<and> credit a out s2 = (Inr (), s3)
             \<and> swap_reserves (aa_token_id action) False (aa_amount_in action) out s3 = (Inr (), t)"
    using assms(1,2) unfolding apply_swap_ok by auto
  show ?thesis
    using steps plan_swap_ok [OF plan] swap_hkm_to_token_sound [OF assms(4,3) p] swap_token_to_hkm_sound [OF assms(4,3) p]
    by (cases "aa_hkm_to_token action") (simp; blast)+
qed

end
