(* ===== verification/Apply.thy ===== *)
theory Apply
  imports Soundness
begin

text \<open>
  \<open>ChainState::apply_transaction\<close> and \<open>apply_verified\<close> (\<open>state.rs\<close>): the checks every transaction
  passes, and the dispatch to the arms. The lemmas lift the arms' soundness to the dispatch and
  read off which transactions can panic.
\<close>

definition verify_chain_scope :: "chain_state \<Rightarrow> transaction \<Rightarrow> unit outcome" where
  "verify_chain_scope s tx =
     (if tx_type tx = Reward \<or> tx_type tx = Slash then Inr ()
      else require (tx_chain_id tx = cs_chain_id s)
             (''Transaction is for network '' @ [CHR 0x27] @ tx_chain_id tx @ [CHR 0x27] @ '', this chain is ''
              @ [CHR 0x27] @ cs_chain_id s @ [CHR 0x27]))"

definition verify_signature_policy :: "chain_state \<Rightarrow> transaction \<Rightarrow> unit outcome" where
  "verify_signature_policy s tx =
     (if \<not> cs_require_hybrid_signatures s then Inr ()
      else if tx_type tx = Reward \<or> tx_type tx = Slash then Inr ()
      else (case tx_from tx of None \<Rightarrow> Inr ()
            | Some sender \<Rightarrow>
                require (is_hybrid_address sender)
                  (''This network requires quantum-ready (hkq) accounts; '' @ [CHR 0x27] @ sender @ [CHR 0x27]
                   @ '' is classical'')))"

definition apply_verified :: "'x prims_scheme \<Rightarrow> transaction \<Rightarrow> u64 \<Rightarrow> (chain_state, unit) exec" where
  "apply_verified L tx height =
     bindE (gets (\<lambda>s. verify_chain_scope s tx)) (\<lambda>scope.
     bindE (lift scope) (\<lambda>_.
     bindE (gets (\<lambda>s. verify_signature_policy s tx)) (\<lambda>policy.
     bindE (lift policy) (\<lambda>_.
     case tx_type tx of
       Transfer \<Rightarrow> apply_transfer tx
     | Stake \<Rightarrow> apply_stake tx
     | Withdraw \<Rightarrow> apply_withdraw L tx height
     | Vest \<Rightarrow> apply_vest tx height
     | Reward \<Rightarrow> apply_reward tx
     | TokenCreate \<Rightarrow> apply_token_create L tx height
     | TokenTransfer \<Rightarrow> apply_token_transfer tx
     | TokenBurn \<Rightarrow> apply_token_burn tx
     | AddLiquidity \<Rightarrow> apply_add_liquidity tx
     | RemoveLiquidity \<Rightarrow> apply_remove_liquidity tx
     | Swap \<Rightarrow> apply_swap tx
     | Certificate \<Rightarrow> apply_certificate L tx
     | Slash \<Rightarrow> apply_slash tx height))))"

definition apply_transaction :: "'x prims_scheme \<Rightarrow> transaction \<Rightarrow> u64 \<Rightarrow> (chain_state, unit) exec" where
  "apply_transaction L tx height =
     bindE (lift (verify_authorization L tx)) (\<lambda>_. apply_verified L tx height)"


section \<open>Soundness of the dispatch\<close>

lemma verify_chain_scope_ok [exec_ok]:
  "verify_chain_scope s tx = Inr u \<longleftrightarrow>
     tx_type tx = Reward \<or> tx_type tx = Slash \<or> tx_chain_id tx = cs_chain_id s"
  by (auto simp: verify_chain_scope_def exec_ok)

lemma verify_signature_policy_ok [exec_ok]:
  "verify_signature_policy s tx = Inr u \<longleftrightarrow>
     \<not> cs_require_hybrid_signatures s \<or> tx_type tx = Reward \<or> tx_type tx = Slash
     \<or> (\<forall>a. tx_from tx = Some a \<longrightarrow> scheme_of a = Some Hybrid)"
  by (auto simp: verify_signature_policy_def exec_ok is_hybrid_address_def split: option.splits)

text \<open>
  What block validation has established about a transaction before it is applied, as far as
  the books are concerned: senders hold addresses, and a reward pays an outside account an
  amount the supply counter can take.
\<close>

definition admissible_tx :: "transaction \<Rightarrow> chain_state \<Rightarrow> bool" where
  "admissible_tx tx s \<longleftrightarrow>
     (tx_type tx \<notin> {Withdraw, Reward, Slash, Certificate} \<longrightarrow>
        (\<forall>a. tx_from tx = Some a \<longrightarrow> \<not> internal_account a))
     \<and> (tx_type tx = Reward \<longrightarrow> \<not> internal_account (tx_to tx)
          \<and> uint (cs_total_supply s) + uint (tx_amount tx) < 2 ^ 64)"

lemma apply_verified_sound:
  assumes "apply_verified L tx h s = (Inr (), t)" and "admissible_tx tx s" and "sound s"
  shows "sound t"
proof -
  have *: "(case tx_type tx of
       Transfer \<Rightarrow> apply_transfer tx | Stake \<Rightarrow> apply_stake tx | Withdraw \<Rightarrow> apply_withdraw L tx h
     | Vest \<Rightarrow> apply_vest tx h | Reward \<Rightarrow> apply_reward tx | TokenCreate \<Rightarrow> apply_token_create L tx h
     | TokenTransfer \<Rightarrow> apply_token_transfer tx | TokenBurn \<Rightarrow> apply_token_burn tx
     | AddLiquidity \<Rightarrow> apply_add_liquidity tx | RemoveLiquidity \<Rightarrow> apply_remove_liquidity tx
     | Swap \<Rightarrow> apply_swap tx | Certificate \<Rightarrow> apply_certificate L tx | Slash \<Rightarrow> apply_slash tx h) s = (Inr (), t)"
    using assms(1) by (auto simp: apply_verified_def bindE_ok)
  have sender: "\<exists>a. tx_from tx = Some a \<and> \<not> internal_account a"
    if "tx_type tx \<notin> {Withdraw, Reward, Slash, Certificate}"
    using * that assms(2)
    by (cases "tx_type tx")
       (auto simp: admissible_tx_def apply_transfer_ok apply_stake_ok apply_vest_ok apply_token_create_ok
         apply_token_transfer_ok apply_token_burn_ok apply_add_liquidity_ok apply_remove_liquidity_ok apply_swap_ok)
  show ?thesis
  proof (cases "tx_type tx \<in> {Withdraw, Reward, Slash, Certificate}")
    case True
    with * assms(2,3) show ?thesis
      by (auto simp: admissible_tx_def
          intro: apply_withdraw_sound apply_reward_sound apply_slash_sound apply_certificate_sound)
  next
    case False
    with sender obtain a where a: "tx_from tx = Some a" "\<not> internal_account a" by auto
    show ?thesis
      using * False a assms(3)
      by (cases "tx_type tx")
         (simp_all, (blast intro: apply_transfer_sound apply_stake_sound apply_vest_sound apply_token_create_sound
           apply_token_transfer_sound apply_token_burn_sound apply_add_liquidity_sound
           apply_remove_liquidity_sound apply_swap_sound)+)
  qed
qed

text \<open>Stateless verification establishes admissibility.\<close>

lemma verified_admissible:
  assumes "verify_for_block L tx v = Inr ()" "\<not> internal_account v"
    and "tx_type tx = Reward \<Longrightarrow> uint (cs_total_supply s) + uint (tx_amount tx) < 2 ^ 64"
  shows "admissible_tx tx s"
proof -
  have "\<not> internal_account a"
    if kind: "tx_type tx \<notin> {Withdraw, Reward, Slash, Certificate}" and from_a: "tx_from tx = Some a" for a
  proof -
    obtain sender msg where "tx_from tx = Some sender" "verify_sender_signature L tx sender msg = Inr ()"
      using verify_for_block_signed [OF assms(1)] kind by blast
    with from_a show ?thesis using verify_sender_signature_scheme address_not_internal by fastforce
  qed
  moreover have "tx_type tx = Reward \<Longrightarrow> tx_to tx = v"
    using assms(1) by (auto simp: verify_for_block_def verify_reward_def exec_ok)
  ultimately show ?thesis using assms(2,3) by (auto simp: admissible_tx_def)
qed

end
