(* ===== verification/EndBlock.thy ===== *)
theory EndBlock
  imports Apply
begin

text \<open>
  Block-boundary housekeeping: \<open>ChainState::end_block\<close> and \<open>next_base_fee\<close> (\<open>state.rs\<close>). Matured
  unbonding stake and newly vested tokens leave their pools, the base fee moves, and the
  validator is paid the fee pot. On a sound state none of it can fail: every release is
  covered by its pool, and the books balance afterwards.
\<close>


section \<open>The fee market\<close>

definition next_base_fee :: "u64 \<Rightarrow> u64 \<Rightarrow> u64" where
  "next_base_fee current fee_paying_txs =
     (let target = BASE_FEE_TARGET_TXS in
      if fee_paying_txs = target then clampW TX_FEE BASE_FEE_MAX current
      else (let max_step = max (current div 8) 1;
                next_fee =
                  (if target < fee_paying_txs
                   then (let step = max (sat_mul max_step (fee_paying_txs - target) div target) 1 in sat_add current step)
                   else (let step = max (sat_mul max_step (target - fee_paying_txs) div target) 1 in sat_sub current step))
            in clampW TX_FEE BASE_FEE_MAX next_fee))"

lemma fee_bounds_value: "TX_FEE = 1000" "BASE_FEE_MAX = 100000000"
  by (simp_all add: TX_FEE_def BASE_FEE_MAX_def UNITS_PER_HKM_def)

lemma next_base_fee_bounds: "TX_FEE \<le> next_base_fee c n \<and> next_base_fee c n \<le> BASE_FEE_MAX"
proof -
  have "TX_FEE \<le> BASE_FEE_MAX" by (simp add: fee_bounds_value)
  then show ?thesis
    using clampW_bounds [of TX_FEE BASE_FEE_MAX] by (simp add: next_base_fee_def Let_def)
qed


section \<open>Releasing unbonding stake\<close>

text \<open>\<open>let _ = self.debit(..)\<close>: an error is dropped, a panic is not.\<close>

definition ignoring :: "('s, unit) exec \<Rightarrow> ('s, unit) exec" where
  "ignoring m = (\<lambda>s. case m s of (Inl (Err e), t) \<Rightarrow> (Inr (), t) | (Inl Panic, t) \<Rightarrow> (Inl Panic, t) | (Inr u, t) \<Rightarrow> (Inr u, t))"

definition matured :: "u64 \<Rightarrow> unbonding_entry \<Rightarrow> bool" where
  "matured height entry \<longleftrightarrow> ub_release_height entry \<le> height"

text \<open>\<open>entries.retain(..)\<close> with the sum of what it drops.\<close>

definition drop_matured :: "u64 \<Rightarrow> string \<Rightarrow> (chain_state, u64) exec" where
  "drop_matured height account =
     bindE (gets (\<lambda>s. fmlookup (cs_unbonding s) account)) (\<lambda>found.
     case found of None \<Rightarrow> ret 0
     | Some entries \<Rightarrow>
         bindE (lift (sum_u64 (map ub_amount (filter (matured height) entries)))) (\<lambda>released.
         let kept = filter (\<lambda>e. \<not> matured height e) entries in
         bindE (modify (\<lambda>s. s\<lparr>cs_unbonding :=
                  (if kept = [] then fmdrop account (cs_unbonding s) else fmupd account kept (cs_unbonding s))\<rparr>)) (\<lambda>_.
         ret released)))"

definition remove_exited :: "string \<Rightarrow> chain_state \<Rightarrow> chain_state" where
  "remove_exited account s =
     (if (case fmlookup (cs_stakers s) account of None \<Rightarrow> False | Some i \<Rightarrow> si_stake i = 0)
         \<and> \<not> fmhas (cs_unbonding s) account
      then s\<lparr>cs_stakers := fmdrop account (cs_stakers s)\<rparr> else s)"

definition pay_from_pool :: "string \<Rightarrow> string \<Rightarrow> u64 \<Rightarrow> (chain_state, unit) exec" where
  "pay_from_pool pool_account account amount =
     (if 0 < amount
      then bindE (ignoring (debit pool_account amount)) (\<lambda>_. credit account amount)
      else ret ())"

definition release_unbonding :: "u64 \<Rightarrow> string \<Rightarrow> (chain_state, unit) exec" where
  "release_unbonding height account =
     bindE (drop_matured height account) (\<lambda>released.
     bindE (pay_from_pool STAKING_POOL_ACCOUNT account released) (\<lambda>_.
     modify (remove_exited account)))"


section \<open>Releasing vested tokens\<close>

text \<open>The loop over a recipient's entries, with the sum released so far.\<close>

fun accrue :: "u64 \<Rightarrow> u64 \<Rightarrow> vesting_entry list \<Rightarrow> (vesting_entry list \<times> u64) outcome" where
  "accrue height newly [] = Inr ([], newly)"
| "accrue height newly (e # es) =
     bindR (vested_at e height) (\<lambda>vested.
     bindR (if ve_released e < vested
            then bindR (add_u64 newly (vested - ve_released e)) (\<lambda>n. Inr (e\<lparr>ve_released := vested\<rparr>, n))
            else Inr (e, newly)) (\<lambda>(e', newly').
     bindR (accrue height newly' es) (\<lambda>(es', n). Inr (e' # es', n))))"

definition accrue_account :: "u64 \<Rightarrow> string \<Rightarrow> (chain_state, u64) exec" where
  "accrue_account height recipient =
     bindE (gets (\<lambda>s. fmlookup (cs_vesting s) recipient)) (\<lambda>found.
     case found of None \<Rightarrow> ret 0
     | Some entries \<Rightarrow>
         bindE (lift (accrue height 0 entries)) (\<lambda>(entries', newly_released).
         let kept = filter (\<lambda>e. ve_released e < ve_total e) entries' in
         bindE (modify (\<lambda>s. s\<lparr>cs_vesting :=
                  (if kept = [] then fmdrop recipient (cs_vesting s) else fmupd recipient kept (cs_vesting s))\<rparr>)) (\<lambda>_.
         ret newly_released)))"

definition release_vested :: "u64 \<Rightarrow> string \<Rightarrow> (chain_state, unit) exec" where
  "release_vested height recipient =
     bindE (accrue_account height recipient) (\<lambda>newly_released.
     pay_from_pool VESTING_POOL_ACCOUNT recipient newly_released)"


section \<open>The end of a block\<close>

definition move_base_fee :: "chain_state \<Rightarrow> chain_state" where
  "move_base_fee s =
     (let fee_paying_txs = (if 0 < cs_base_fee s then cs_fee_pot s div cs_base_fee s else 0) in
      s\<lparr>cs_base_fee := next_base_fee (cs_base_fee s) fee_paying_txs\<rparr>)"

definition pay_fees :: "string \<Rightarrow> (chain_state, unit) exec" where
  "pay_fees validator =
     bindE (gets cs_fee_pot) (\<lambda>fees.
     if 0 < fees then bindE (modify (\<lambda>s. s\<lparr>cs_fee_pot := 0\<rparr>)) (\<lambda>_. credit validator fees) else ret ())"

definition end_block :: "u64 \<Rightarrow> string \<Rightarrow> (chain_state, unit) exec" where
  "end_block height validator =
     bindE (gets (\<lambda>s. keys_of (cs_unbonding s))) (\<lambda>accounts.
     bindE (forE accounts (release_unbonding height)) (\<lambda>_.
     bindE (gets (\<lambda>s. keys_of (cs_vesting s))) (\<lambda>recipients.
     bindE (forE recipients (release_vested height)) (\<lambda>_.
     bindE (modify move_base_fee) (\<lambda>_.
     pay_fees validator)))))"


section \<open>Every step keeps the books, and none of them fails\<close>

lemma ignoring_ok: "m s = (Inr u, t) \<Longrightarrow> ignoring m s = (Inr (), t)"
  by (simp add: ignoring_def)

lemma pay_from_pool_covered:
  assumes "n \<le> balance_of s pool" "pool \<noteq> a"
  shows "pay_from_pool pool a n s = (Inr (),
      if n = 0 then s else s\<lparr>cs_balances := fmupd a (sat_add (balance_of s a) n)
                 (fmupd pool (balance_of s pool - n) (cs_balances s))\<rparr>)"
proof (cases "n = 0")
  case False
  have "debit pool n s = (Inr (), s\<lparr>cs_balances := fmupd pool (balance_of s pool - n) (cs_balances s)\<rparr>)"
    using assms by (simp add: exec_ok)
  from ignoring_ok [where m = "debit pool n", OF this] False assms(2) show ?thesis
    by (simp add: pay_from_pool_def bindE_def credit_def word_neq_0_conv)
qed (simp add: pay_from_pool_def)

lemma vested_le_total:
  assumes "vested_at e h = Inr v"
  shows "v \<le> ve_total e"
proof -
  consider "v = 0" | "v = ve_total e"
    | "ve_start_height e \<le> h" "h < ve_end_height e"
      "v = as_u64 (unat (ve_total e) * unat (h - ve_start_height e) div unat (ve_end_height e - ve_start_height e))"
    using assms by (auto simp: vested_at_def exec_ok not_le split: if_splits)
  then show ?thesis
  proof cases
    case 3
    let ?e = "unat (h - ve_start_height e)" and ?s = "unat (ve_end_height e - ve_start_height e)"
    have "?e \<le> ?s" using 3 by (simp add: unat_minus word_le_nat_alt word_less_nat_alt)
    then have "unat (ve_total e) * ?e div ?s \<le> unat (ve_total e) * ?s div ?s" 
      by (intro div_le_mono mult_le_mono2)
    also have "\<dots> \<le> unat (ve_total e)" by (cases "?s = 0") simp_all
    finally have "unat v \<le> unat (ve_total e)" using unat_as_u64_le 3(3) le_trans by blast
    then show ?thesis by (simp add: word_le_nat_alt)
  qed simp_all
qed

lemma vested_at_total:
  assumes "schedule_ok e"
  shows "\<exists>v. vested_at e h = Inr v"
proof (cases "h < ve_cliff_height e \<or> ve_end_height e \<le> h")
  case True
  then show ?thesis by (auto simp: vested_at_def)
next
  case False
  with assms have "ve_start_height e \<le> h" "ve_start_height e \<le> ve_end_height e"
    "ve_end_height e - ve_start_height e \<noteq> 0"
    by (auto simp: schedule_ok_def)
  with False show ?thesis by (auto simp: vested_at_def sub_u64_def unat_eq_0)
qed


text \<open>Vesting releases never go backwards.\<close>

lemma vested_at_value:
  assumes "vested_at e h = Inr v" "schedule_ok e"
  shows "unat v = (if h < ve_cliff_height e then 0 else if ve_end_height e \<le> h then unat (ve_total e)
    else unat (ve_total e) * (unat h - unat (ve_start_height e))
           div (unat (ve_end_height e) - unat (ve_start_height e)))"
proof (cases "h < ve_cliff_height e \<or> ve_end_height e \<le> h")
  case True
  then show ?thesis using assms(1) by (auto simp: vested_at_def split: if_splits)
next
  case False
  let ?a = "unat h - unat (ve_start_height e)" and ?b = "unat (ve_end_height e) - unat (ve_start_height e)"
  have ord: "ve_start_height e \<le> h" "ve_start_height e \<le> ve_end_height e" "?a \<le> ?b"
    using False assms(2) by (auto simp: schedule_ok_def word_le_nat_alt word_less_nat_alt)
  have v: "v = as_u64 (unat (ve_total e) * ?a div ?b)"
    using assms(1) False ord by (auto simp: vested_at_def exec_ok unat_minus split: if_splits)
  have "unat (ve_total e) * ?a div ?b \<le> unat (ve_total e) * ?b div ?b"
    using ord by (intro div_le_mono mult_le_mono2)
  also have "\<dots> \<le> unat (ve_total e)" by (cases "?b = 0") simp_all
  finally have "unat (ve_total e) * ?a div ?b < 2 ^ 64" using unat_u64_less [of "ve_total e"] by (simp del: unat_u64_less)
  then show ?thesis using False by (simp add: v unat_as_u64_small)
qed

lemma vested_at_mono:
  assumes "vested_at e h = Inr v" "vested_at e h' = Inr v'" "schedule_ok e" "h \<le> h'"
  shows "v \<le> v'"
proof -
  note 1 = vested_at_value [OF assms(1,3)] and 2 = vested_at_value [OF assms(2,3)]
  have "unat v \<le> unat (ve_total e)" using vested_le_total [OF assms(1)] by (simp add: word_le_nat_alt)
  moreover have "unat (ve_total e) * (unat h - unat (ve_start_height e)) div k
      \<le> unat (ve_total e) * (unat h' - unat (ve_start_height e)) div k" for k
    using assms(4) by (intro div_le_mono mult_le_mono2 diff_le_mono) (simp add: word_le_nat_alt)
  ultimately have "unat v \<le> unat v'" using 1 2 assms(4) by (auto simp: word_le_nat_alt word_less_nat_alt)
  then show ?thesis by (simp add: word_le_nat_alt)
qed

lemma unbonding_units_member:
  "fmlookup (cs_unbonding s) a = Some es \<Longrightarrow> unbonding_units es \<le> unbonding_sum s"
  using fmsum_find_le [where f = unbonding_units and d = "[]" and m = "cs_unbonding s" and k = a]
  by (simp add: unbonding_sum_def fmfind_def unbonding_units_nonneg) (simp add: unbonding_units_def)

lemma unbonding_units_split:
  "unbonding_units (filter P es) + unbonding_units (filter (\<lambda>e. \<not> P e) es) = unbonding_units es"
  by (induction es) (auto simp: unbonding_units_def)

lemma remove_exited_sound: "sound s \<Longrightarrow> sound (remove_exited a s)"
proof (cases "remove_exited a s = s")
  case False
  assume s: "sound s"
  with False obtain i where i: "fmlookup (cs_stakers s) a = Some i" "si_stake i = 0"
    and r: "remove_exited a s = s\<lparr>cs_stakers := fmdrop a (cs_stakers s)\<rparr>"
    by (auto simp: remove_exited_def split: option.splits if_splits)
  have "fmsum (\<lambda>i. uint (si_stake i)) (fmdrop a (cs_stakers s)) = fmsum (\<lambda>i. uint (si_stake i)) (cs_stakers s)"
    using fmsum_drop [where f = "\<lambda>i. uint (si_stake i)" and d = default_stake_info and k = a and m = "cs_stakers s"] i
    by (simp add: default_stake_info_def fmfind_def)
  with s show ?thesis by (simp add: r sound_def inv_defs measure_defs)
qed simp

lemma bonded_total_nonneg: "0 \<le> bonded_total s"
  unfolding bonded_total_def by (rule fmsum_nonneg) simp

lemma release_unbonding_step:
  assumes s: "sound s" and a: "\<not> internal_account a"
  shows "\<exists>t. release_unbonding h a s = (Inr (), t) \<and> sound t \<and> cs_vesting t = cs_vesting s
    \<and> (\<forall>b. fmhas (cs_unbonding t) b \<longrightarrow> fmhas (cs_unbonding s) b)"
proof (cases "fmlookup (cs_unbonding s) a")
  case None
  then have "release_unbonding h a s = (Inr (), remove_exited a s)"
    by (simp add: release_unbonding_def drop_matured_def pay_from_pool_def bindE_def)
  moreover have "cs_vesting (remove_exited a s) = cs_vesting s" "cs_unbonding (remove_exited a s) = cs_unbonding s"
    by (auto simp: remove_exited_def)
  ultimately show ?thesis using remove_exited_sound [OF s] by auto
next
  case (Some es)
  let ?out = "filter (matured h) es" and ?kept = "filter (\<lambda>e. \<not> matured h e) es"
  let ?m = "if ?kept = [] then fmdrop a (cs_unbonding s) else fmupd a ?kept (cs_unbonding s)"
  let ?u = "s\<lparr>cs_unbonding := ?m\<rparr>"
  have "unbonding_units ?out \<le> unbonding_units es"
    using unbonding_units_split [of "matured h" es] unbonding_units_nonneg [of ?kept] by simp
  also have "\<dots> \<le> unbonding_sum s" using unbonding_units_member [OF Some] .
  also have "\<dots> \<le> uint (balance_of s STAKING_POOL_ACCOUNT)"
    using s bonded_total_nonneg [of s] by (simp add: sound_def staking_inv_def)
  finally have le: "unbonding_units ?out \<le> uint (balance_of s STAKING_POOL_ACCOUNT)" .
  let ?w = "sum_list (map (unat \<circ> ub_amount) ?out)"
  have "int ?w \<le> uint (balance_of s STAKING_POOL_ACCOUNT)" using le by (simp only: unbonding_units_nat)
  then have "int ?w < 18446744073709551616" using uint_u64_bounds(2) [of "balance_of s STAKING_POOL_ACCOUNT"] by linarith
  then have fits: "?w < 2 ^ 64" by simp
  obtain n where n: "sum_u64 (map ub_amount ?out) = (Inr n :: u64 outcome)" "unat n = ?w"
    using unat_as_u64_small [OF fits] fits by (metis (no_types) map_map sum_u64_ok)
  have un: "uint n = unbonding_units ?out" using n(2) by (simp only: unbonding_units_nat) (simp flip: n(2))
  have d: "drop_matured h a s = (Inr n, ?u)"
    using n(1) Some by (simp add: drop_matured_def Let_def)
  have cover: "n \<le> balance_of ?u STAKING_POOL_ACCOUNT" using le un by (simp add: uint_le)
  have ne: "STAKING_POOL_ACCOUNT \<noteq> a" using not_internal_neq [OF a] by simp
  let ?v = "if n = 0 then ?u else ?u\<lparr>cs_balances := fmupd a (sat_add (balance_of ?u a) n)
      (fmupd STAKING_POOL_ACCOUNT (balance_of ?u STAKING_POOL_ACCOUNT - n) (cs_balances ?u))\<rparr>"
  have r: "release_unbonding h a s = (Inr (), remove_exited a ?v)"
    using d pay_from_pool_covered [OF cover ne] by (simp add: release_unbonding_def bindE_def)
  have rest: "fmsum unbonding_units ?m = unbonding_sum s - uint n"
  proof -
    have "fmsum unbonding_units ?m = unbonding_sum s - unbonding_units es + unbonding_units ?kept"
    proof (cases "?kept = []")
      case True
      then have "unbonding_units ?kept = 0" by (simp only: unbonding_units_def list.map sum_list.Nil)
      with True Some show ?thesis by (simp only: if_True) (simp add: unbonding_drop unbonding_sum_def fmfind_def)
    next
      case False
      with Some show ?thesis by (simp only: if_False) (simp add: unbonding_upd unbonding_sum_def fmfind_def)
    qed
    then show ?thesis using unbonding_units_split [of "matured h" es] un by linarith
  qed
  have keys: "fmhas ?m b \<Longrightarrow> fmhas (cs_unbonding s) b" for b
    using Some by (auto simp: fmhas_def split: if_splits)
  have "sound ?v"
  proof -
    have "uint (sat_add (balance_of s a) n) = uint (balance_of s a) + uint n"
      using two_balances_le_total [OF ne, of s] cover sound_hkm_bound [OF s]
      by (intro uint_sat_add_exact) (simp add: uint_le)
    then show ?thesis
      using s cover rest keys not_internal_neq [OF a] a
      by (auto simp: sound_def inv_defs measure_defs uint_minus_le)
  qed
  moreover have "cs_vesting (remove_exited a ?v) = cs_vesting s" "cs_unbonding (remove_exited a ?v) = ?m"
    by (auto simp: remove_exited_def)
  ultimately show ?thesis
    using r remove_exited_sound [of ?v a] keys by auto
qed


lemma unvested_units_simps [simp]:
  "unvested_units [] = 0"
  "unvested_units (e # es) = uint (ve_total e) - uint (ve_released e) + unvested_units es"
  by (simp_all add: unvested_units_def)

lemma unvested_units_nonneg: "list_all schedule_ok es \<Longrightarrow> 0 \<le> unvested_units es"
proof (induction es)
  case (Cons e es)
  then have "uint (ve_released e) \<le> uint (ve_total e)" by (simp add: schedule_ok_def uint_le)
  with Cons show ?case by simp
qed simp

lemma accrue_books:
  "list_all schedule_ok es \<Longrightarrow> uint acc + unvested_units es < 2 ^ 64 \<Longrightarrow>
   \<exists>es' n. accrue h acc es = Inr (es', n) \<and> uint acc \<le> uint n
      \<and> unvested_units es' = unvested_units es - (uint n - uint acc) \<and> list_all schedule_ok es'"
proof (induction es arbitrary: acc)
  case Nil
  then show ?case by simp
next
  case (Cons e es)
  then have ok: "schedule_ok e" "list_all schedule_ok es" by simp_all
  obtain v where v: "vested_at e h = Inr v" using vested_at_total [OF ok(1)] by blast
  have vt: "uint v \<le> uint (ve_total e)" using vested_le_total [OF v] by (simp add: uint_le)
  have nn: "0 \<le> unvested_units es" using unvested_units_nonneg [OF ok(2)] .
  show ?case
  proof (cases "ve_released e < v")
    case False
    have rt: "uint (ve_released e) \<le> uint (ve_total e)" using ok(1) by (simp add: schedule_ok_def uint_le)
    have "uint acc + unvested_units es < 2 ^ 64" using Cons.prems(2) rt by simp
    from Cons.IH [OF ok(2) this] obtain es' n where *: "accrue h acc es = Inr (es', n)" "uint acc \<le> uint n"
      "unvested_units es' = unvested_units es - (uint n - uint acc)" "list_all schedule_ok es'" by blast
    with v False ok(1) show ?thesis by simp
  next
    case True
    then have d: "uint (v - ve_released e) = uint v - uint (ve_released e)"
      by (intro uint_minus_le) simp
    have rv: "uint (ve_released e) < uint v" using True by (simp add: word_less_def)
    have fits: "uint acc + uint (v - ve_released e) < 2 ^ 64" using Cons.prems(2) vt nn by (simp add: d)
    then have fits': "unat acc + unat (v - ve_released e) < 2 ^ 64" by (simp only: unat_fits)
    let ?a = "acc + (v - ve_released e)"
    have a: "uint ?a = uint acc + uint v - uint (ve_released e)" using uint_plus_fits [OF fits'] d by simp
    have "uint ?a + unvested_units es < 2 ^ 64" using Cons.prems(2) vt by (simp add: a)
    from Cons.IH [OF ok(2) this] obtain es' n where *: "accrue h ?a es = Inr (es', n)" "uint ?a \<le> uint n"
      "unvested_units es' = unvested_units es - (uint n - uint ?a)" "list_all schedule_ok es'" by blast
    have "add_u64 acc (v - ve_released e) = (Inr ?a :: u64 outcome)" using fits' by (simp add: add_u64_ok)
    moreover have "schedule_ok (e\<lparr>ve_released := v\<rparr>)"
      using ok(1) vested_le_total [OF v] by (simp add: schedule_ok_def)
    ultimately show ?thesis using v True * a rv by simp
  qed
qed

lemma unvested_units_filter:
  "list_all schedule_ok es \<Longrightarrow> unvested_units (filter (\<lambda>e. ve_released e < ve_total e) es) = unvested_units es"
  by (induction es) (auto simp: schedule_ok_def)

lemma unvested_units_member:
  assumes "sound s" "fmlookup (cs_vesting s) a = Some es"
  shows "unvested_units es \<le> uint (balance_of s VESTING_POOL_ACCOUNT) \<and> list_all schedule_ok es"
proof -
  have ok: "list_all schedule_ok fs" if "fmlookup (cs_vesting s) b = Some fs" for b fs
    using assms(1) that by (auto simp: sound_def vesting_inv_def fmpred_iff)
  have "unvested_sum s = unvested_units es + fmsum unvested_units (fmdrop a (cs_vesting s))"
    unfolding unvested_sum_def by (rule fmsum_fmdrop_add [OF assms(2)])
  moreover have "0 \<le> fmsum unvested_units (fmdrop a (cs_vesting s))"
    unfolding fmsum_def
  proof (rule sum_nonneg)
    fix k assume "k \<in> fmdom' (fmdrop a (cs_vesting s))"
    then obtain fs where "fmlookup (cs_vesting s) k = Some fs" "k \<noteq> a"
      by (auto simp: fmlookup_dom'_iff split: if_splits)
    then show "0 \<le> unvested_units (the (fmlookup (fmdrop a (cs_vesting s)) k))"
      using unvested_units_nonneg [OF ok] by simp
  qed
  ultimately show ?thesis using assms(1) ok [OF assms(2)] by (simp add: sound_def vesting_inv_def)
qed

lemma release_vested_step:
  assumes s: "sound s" and a: "\<not> internal_account a"
  shows "\<exists>t. release_vested h a s = (Inr (), t) \<and> sound t"
proof (cases "fmlookup (cs_vesting s) a")
  case None
  then show ?thesis using s by (simp add: release_vested_def accrue_account_def pay_from_pool_def bindE_def)
next
  case (Some es)
  note ok = unvested_units_member [OF s Some]
  have "unvested_units es < 18446744073709551616"
    using ok uint_u64_bounds(2) [of "balance_of s VESTING_POOL_ACCOUNT"] by linarith
  then have "uint (0 :: u64) + unvested_units es < 2 ^ 64" by simp
  from accrue_books [OF _ this, of h] ok obtain es' n where acc: "accrue h 0 es = Inr (es', n)"
    and un: "unvested_units es' = unvested_units es - uint n" and ok': "list_all schedule_ok es'" by auto
  let ?kept = "filter (\<lambda>e. ve_released e < ve_total e) es'"
  let ?m = "if ?kept = [] then fmdrop a (cs_vesting s) else fmupd a ?kept (cs_vesting s)"
  let ?u = "s\<lparr>cs_vesting := ?m\<rparr>"
  have kept: "unvested_units ?kept = unvested_units es - uint n" using unvested_units_filter [OF ok'] un by simp
  have kept_ok: "list_all schedule_ok ?kept" using ok' by (induction es') auto
  have d: "accrue_account h a s = (Inr n, ?u)" using acc Some by (simp add: accrue_account_def Let_def)
  have cover: "n \<le> balance_of ?u VESTING_POOL_ACCOUNT"
    using kept ok unvested_units_nonneg [OF kept_ok] by (simp add: uint_le)
  have ne: "VESTING_POOL_ACCOUNT \<noteq> a" using not_internal_neq [OF a] by simp
  let ?v = "if n = 0 then ?u else ?u\<lparr>cs_balances := fmupd a (sat_add (balance_of ?u a) n)
      (fmupd VESTING_POOL_ACCOUNT (balance_of ?u VESTING_POOL_ACCOUNT - n) (cs_balances ?u))\<rparr>"
  have r: "release_vested h a s = (Inr (), ?v)"
    using d pay_from_pool_covered [OF cover ne] by (simp add: release_vested_def bindE_def)
  have rest: "fmsum unvested_units ?m = unvested_sum s - uint n"
  proof (cases "?kept = []")
    case True
    then have "unvested_units ?kept = 0" by (simp only: unvested_units_simps)
    with True Some kept show ?thesis by (simp only: if_True) (simp add: unvested_drop unvested_sum_def fmfind_def)
  next
    case False
    with Some kept show ?thesis by (simp only: if_False) (simp add: unvested_upd unvested_sum_def fmfind_def)
  qed
  have keys: "fmhas ?m b \<Longrightarrow> fmhas (cs_vesting s) b" for b
    using Some by (auto simp: fmhas_def split: if_splits)
  have pred: "fmpred (\<lambda>_. list_all schedule_ok) ?m"
    using s kept_ok by (auto simp: sound_def vesting_inv_def fmpred_iff split: if_splits)
  have "uint (sat_add (balance_of s a) n) = uint (balance_of s a) + uint n"
    using two_balances_le_total [OF ne, of s] cover sound_hkm_bound [OF s]
    by (intro uint_sat_add_exact) (simp add: uint_le)
  then have "sound ?v"
    using s cover rest keys pred not_internal_neq [OF a] a
    by (auto simp: sound_def inv_defs measure_defs uint_minus_le)
  with r show ?thesis by auto
qed


section \<open>The whole of \<open>end_block\<close>\<close>

interpretation unbonding_loop: total_stepper "release_unbonding h" "\<lambda>a. \<not> internal_account a" sound for h
  by (rule total_stepperI) (use release_unbonding_step in blast)

interpretation vesting_loop: total_stepper "release_vested h" "\<lambda>a. \<not> internal_account a" sound for h
  by (rule total_stepperI) (use release_vested_step in blast)

lemma pay_fees_sound:
  assumes "sound s" "\<not> internal_account v"
  shows "\<exists>t. pay_fees v s = (Inr (), t) \<and> sound t \<and> cs_fee_pot t = 0 \<and> cs_base_fee t = cs_base_fee s"
proof (cases "cs_fee_pot s = 0")
  case True
  with assms show ?thesis by (simp add: pay_fees_def)
next
  case False
  let ?t = "s\<lparr>cs_fee_pot := 0, cs_balances := fmupd v (sat_add (balance_of s v) (cs_fee_pot s)) (cs_balances s)\<rparr>"
  have "pay_fees v s = (Inr (), ?t)" using False by (simp add: pay_fees_def credit_def word_neq_0_conv)
  moreover have "uint (sat_add (balance_of s v) (cs_fee_pot s)) = uint (balance_of s v) + uint (cs_fee_pot s)"
    using assms(1) supply_inv_bound [of s] by (intro credit_exact) (simp add: sound_def)
  then have "sound ?t"
    using assms not_internal_neq [OF assms(2)] by (simp add: sound_def inv_defs measure_defs)
  ultimately show ?thesis by simp
qed

lemma keys_external:
  assumes "sound s"
  shows "list_all (\<lambda>a. \<not> internal_account a) (keys_of (cs_unbonding s))"
    "list_all (\<lambda>a. \<not> internal_account a) (keys_of (cs_vesting s))"
  using assms by (auto simp: list_all_iff sound_def keys_inv_def fmhas_def fmlookup_dom'_iff)

lemma end_block_books:
  assumes s: "sound s" and v: "\<not> internal_account v"
  shows "\<exists>t. end_block h v s = (Inr (), t) \<and> sound t \<and> cs_fee_pot t = 0
    \<and> TX_FEE \<le> cs_base_fee t \<and> cs_base_fee t \<le> BASE_FEE_MAX"
proof -
  obtain s1 where s1: "forE (keys_of (cs_unbonding s)) (release_unbonding h) s = (Inr (), s1)" "sound s1"
    using unbonding_loop.run_total [OF keys_external(1) [OF s] s] by blast
  obtain s2 where s2: "forE (keys_of (cs_vesting s1)) (release_vested h) s1 = (Inr (), s2)" "sound s2"
    using vesting_loop.run_total [OF keys_external(2) [OF s1(2)] s1(2)] by blast
  have s3: "sound (move_base_fee s2)" using s2(2) by (simp add: move_base_fee_def Let_def)
  obtain t where t: "pay_fees v (move_base_fee s2) = (Inr (), t)" "sound t" "cs_fee_pot t = 0"
      "cs_base_fee t = cs_base_fee (move_base_fee s2)"
    using pay_fees_sound [OF s3 v] by blast
  have "end_block h v s = (Inr (), t)"
    using s1(1) s2(1) t(1) by (simp add: end_block_def bindE_def)
  moreover have "TX_FEE \<le> cs_base_fee t \<and> cs_base_fee t \<le> BASE_FEE_MAX"
    using next_base_fee_bounds by (simp add: t(4) move_base_fee_def Let_def)
  ultimately show ?thesis using t(2,3) by blast
qed

end
