(* ===== verification/Frames.thy ===== *)
theory Frames
  imports EndBlock
begin

text \<open>
  What no transaction and no block end can undo, successful or not: a relation between the
  state before and the state after a stateful method is lifted through the combinators of the
  exec monad by the locale \<open>frame\<close>, once for every reflexive and transitive relation.
\<close>

definition after :: "('s \<Rightarrow> 's \<Rightarrow> bool) \<Rightarrow> ('s, 'a) exec \<Rightarrow> 's \<Rightarrow> bool" where
  "after R m s \<longleftrightarrow> R s (snd (m s))"

locale frame =
  fixes R :: "'s \<Rightarrow> 's \<Rightarrow> bool"
  assumes refl: "R s s"
    and trans: "R s t \<Longrightarrow> R t u \<Longrightarrow> R s u"
begin

lemma after_lift [simp, intro]: "after R (lift r) s"
  by (simp add: after_def lift_def refl)

lemma after_ret [simp, intro]: "after R (ret x) s"
  by (simp add: after_def ret_def refl)

lemma after_gets [simp, intro]: "after R (gets f) s"
  by (simp add: after_def gets_def refl)

lemma after_modify: "R s (f s) \<Longrightarrow> after R (modify f) s"
  by (simp add: after_def modify_def)

lemma after_bind:
  assumes "after R m s" and "\<And>x t. m s = (Inr x, t) \<Longrightarrow> after R (f x) t"
  shows "after R (bindE m f) s"
proof (cases "m s")
  case (Pair r t)
  show ?thesis
  proof (cases r)
    case (Inr x)
    then have "R s t" "R t (snd (f x t))" using assms Pair by (auto simp: after_def)
    then have "R s (snd (f x t))" by (rule trans)
    with Pair Inr show ?thesis by (simp add: after_def bindE_def)
  qed (use assms Pair in \<open>simp add: after_def bindE_def\<close>)
qed

lemma after_ignoring: "after R m s \<Longrightarrow> after R (ignoring m) s"
  by (cases "m s") (auto simp: after_def ignoring_def split: sum.splits failure.splits)

lemma after_forE: "(\<And>x s. after R (f x) s) \<Longrightarrow> after R (forE xs f) s"
  by (induction xs arbitrary: s) (auto intro: after_bind)

lemma after_result: "after R m s \<Longrightarrow> m s = (r, t) \<Longrightarrow> R s t"
  by (simp add: after_def)

end


section \<open>A relation on the chain state through every arm\<close>

text \<open>
  A relation that tolerates each kind of write the transactions make; the reward and the slash,
  which change the recorded supply, are left to the interpretations.
\<close>

locale ledger_frame = frame R for R :: "chain_state \<Rightarrow> chain_state \<Rightarrow> bool" +
  assumes money: "R s (s\<lparr>cs_balances := x1\<rparr>)" "R s (s\<lparr>cs_fee_pot := x2\<rparr>)" "R s (s\<lparr>cs_base_fee := x3\<rparr>)"
    and locked: "R s (s\<lparr>cs_vesting := x4\<rparr>)" "R s (s\<lparr>cs_unbonding := x5\<rparr>)" "R s (s\<lparr>cs_stakers := x6\<rparr>)"
    and pools: "R s (s\<lparr>cs_pools := x7\<rparr>)" "R s (s\<lparr>cs_lp_shares := x8\<rparr>)" "R s (s\<lparr>cs_token_balances := x9\<rparr>)"
    and nonce: "unat (nonce_of s a) + 1 < 2 ^ 64 \<Longrightarrow>
      R s (s\<lparr>cs_nonces := fmupd a (nonce_of s a + 1) (cs_nonces s)\<rparr>)"
    and new_token: "fmlookup (cs_tokens s) k = None \<Longrightarrow> R s (s\<lparr>cs_tokens := fmupd k i (cs_tokens s)\<rparr>)"
    and burnt_token: "fmlookup (cs_tokens s) k = Some i \<Longrightarrow>
      R s (s\<lparr>cs_tokens := fmupd k (i\<lparr>ti_total_supply := sat_sub (ti_total_supply i) n\<rparr>) (cs_tokens s)\<rparr>)"
    and new_credential: "fmlookup (cs_credentials s) c = None \<Longrightarrow>
      R s (s\<lparr>cs_credentials := fmupd c r (cs_credentials s)\<rparr>)"
    and revoked: "fmlookup (cs_credentials s) c = Some r \<Longrightarrow>
      R s (s\<lparr>cs_credentials := fmupd c (r\<lparr>cr_revoked := True\<rparr>) (cs_credentials s)\<rparr>)"
begin

lemmas rules = after_bind after_ignoring after_forE after_modify

lemma helpers [simp]:
  "R s (set_staker a i s)" "R s (set_pool k p s)" "R s (set_lp_shares k a v s)"
  "R s (drop_lp_shares k a s)" "R s (set_token_balance k a v s)" "R s (remove_exited a s)"
  "R s (move_base_fee s)" "R s (deduct_unbonding a n s)" "R s (reduce_token_supply k n s)"
  by (simp_all add: set_staker_def set_pool_def set_lp_shares_def drop_lp_shares_def set_token_balance_def
      remove_exited_def move_base_fee_def deduct_unbonding_def reduce_token_supply_def Let_def refl money
      locked pools burnt_token split: option.splits)

lemma after_consume_nonce: "after R (consume_nonce a n) s"
  by (auto simp: consume_nonce_def add_u64_ok exec_ok nonce intro!: rules)

lemma after_primitives [intro!]:
  "after R (debit a n) s" "after R (try_credit a n) s" "after R (credit a n) s"
  "after R (collect_fee n) s" "after R (try_credit_token k a n) s"
  "after R (credit_token k a n) s" "after R (debit_token k a n) s" "after R (consume_nonce a n) s"
  by (auto simp: debit_def try_credit_def credit_def collect_fee_def try_credit_token_def credit_token_def
      debit_token_def money pools intro!: rules after_consume_nonce)

lemma after_charges [intro!]:
  "after R (charge_fee a n) s" "after R (charge_amount a n m) s"
  by (auto simp: charge_fee_def charge_amount_def intro!: rules)

lemma after_pool_steps [intro!]:
  "after R (grow_pool k n m q b) s" "after R (grant_shares k a n) s"
  "after R (burn_shares k a n) s" "after R (shrink_pool k n m q) s"
  "after R (swap_reserves k b n m) s" "after R (register_stake tx a pk vk) s"
  by (auto simp: grow_pool_def grant_shares_def burn_shares_def shrink_pool_def swap_reserves_def
      register_stake_def intro!: rules)

lemma after_arms [intro!]:
  "after R (apply_transfer tx) s" "after R (apply_vest tx h) s"
  "after R (apply_stake tx) s" "after R (apply_withdraw L tx h) s"
  "after R (apply_token_transfer tx) s" "after R (apply_token_burn tx) s"
  "after R (apply_add_liquidity tx) s" "after R (apply_remove_liquidity tx) s"
  "after R (apply_swap tx) s"
  by (auto simp: apply_transfer_def apply_vest_def apply_stake_def apply_withdraw_def
      apply_token_transfer_def apply_token_burn_def apply_add_liquidity_def apply_remove_liquidity_def
      apply_swap_def Let_def split_def locked intro!: rules)

lemma after_token_create [intro!]: "after R (apply_token_create L tx h) s"
  unfolding apply_token_create_def Let_def
proof (intro after_bind after_lift after_gets, goal_cases)
  case (1 sender u action u1 taken u2 x u3)
  show ?case by (rule after_charges)
next
  case (2 sender u action u1 taken u2 x u3 y u4)
  then have "fmlookup (cs_tokens u4) (derive_token_id L sender (ta_symbol action) (tx_nonce tx)) = None"
    by (auto simp: exec_ok fmhas_def pay_fee_def spend_def)
  then show ?case by (intro after_modify new_token)
next
  case 3
  show ?case by (rule after_primitives)
qed

lemma after_credential_update:
  "cs_credentials s = m \<Longrightarrow> fmlookup m c = None \<Longrightarrow> after R (modify (\<lambda>s. s\<lparr>cs_credentials := fmupd c r (cs_credentials s)\<rparr>)) s"
  "cs_credentials s = m \<Longrightarrow> fmlookup m c = Some q \<Longrightarrow>
     after R (modify (\<lambda>s. s\<lparr>cs_credentials := fmupd c (q\<lparr>cr_revoked := True\<rparr>) (cs_credentials s)\<rparr>)) s"
  by (auto intro: after_modify new_credential revoked)

lemma after_certificate [intro!]: "after R (apply_certificate L tx) s"
proof (cases "tx_credential tx")
  case (Some action)
  then show ?thesis
    by (auto simp: apply_certificate_def exec_ok fmhas_def intro!: after_bind after_credential_update)
qed (simp add: apply_certificate_def)

lemma after_end_block: "after R (end_block h v) s"
  by (auto simp: end_block_def release_unbonding_def drop_matured_def pay_from_pool_def release_vested_def
      accrue_account_def pay_fees_def Let_def split_def money locked intro!: rules split: option.split)

lemma after_apply_verified:
  assumes "\<And>s. after R (apply_reward tx) s" and "\<And>s. after R (apply_slash tx h) s"
  shows "after R (apply_verified L tx h) s"
  unfolding apply_verified_def
  using assms by (auto intro!: after_bind split: transaction_type.splits)

end


section \<open>What never changes and what only grows\<close>

text \<open>
  The network parameters stay; nonces only grow; an offense once slashed stays recorded; a
  token stays defined with its symbol, name, decimals and creator; a credential keeps what it
  certifies and a revocation is final.
\<close>

definition same_token :: "token_info \<Rightarrow> token_info \<Rightarrow> bool" where
  "same_token i j \<longleftrightarrow> ti_token_id i = ti_token_id j \<and> ti_symbol i = ti_symbol j \<and> ti_name i = ti_name j
     \<and> ti_decimals i = ti_decimals j \<and> ti_creator i = ti_creator j
     \<and> ti_created_at_height i = ti_created_at_height j \<and> ti_total_supply j \<le> ti_total_supply i"

definition same_credential :: "credential_record \<Rightarrow> credential_record \<Rightarrow> bool" where
  "same_credential r q \<longleftrightarrow> cr_issuer r = cr_issuer q \<and> cr_subject r = cr_subject q
     \<and> cr_data_hash r = cr_data_hash q \<and> cr_issued_at r = cr_issued_at q \<and> (cr_revoked r \<longrightarrow> cr_revoked q)"

definition kept_in :: "('v \<Rightarrow> 'v \<Rightarrow> bool) \<Rightarrow> ('k, 'v) fmap \<Rightarrow> ('k, 'v) fmap \<Rightarrow> bool" where
  "kept_in P m n \<longleftrightarrow> (\<forall>k v. fmlookup m k = Some v \<longrightarrow> (\<exists>w. fmlookup n k = Some w \<and> P v w))"

definition evolves :: "chain_state \<Rightarrow> chain_state \<Rightarrow> bool" where
  "evolves s t \<longleftrightarrow>
     cs_chain_id t = cs_chain_id s \<and> cs_require_hybrid_signatures t = cs_require_hybrid_signatures s
     \<and> cs_validator_allowlist t = cs_validator_allowlist s
     \<and> (\<forall>a. nonce_of s a \<le> nonce_of t a)
     \<and> kept_in (=) (cs_slashed_offenses s) (cs_slashed_offenses t)
     \<and> kept_in same_token (cs_tokens s) (cs_tokens t)
     \<and> kept_in same_credential (cs_credentials s) (cs_credentials t)"

lemma kept_in_refl: "(\<And>v. P v v) \<Longrightarrow> kept_in P m m"
  by (simp add: kept_in_def)

lemma kept_in_trans:
  "kept_in P m n \<Longrightarrow> kept_in P n k \<Longrightarrow> (\<And>u v w. P u v \<Longrightarrow> P v w \<Longrightarrow> P u w) \<Longrightarrow> kept_in P m k"
  unfolding kept_in_def by metis

lemma kept_in_new: "fmlookup m k = None \<Longrightarrow> (\<And>v. P v v) \<Longrightarrow> kept_in P m (fmupd k v m)"
  by (auto simp: kept_in_def)

lemma kept_in_upd:
  "fmlookup m k = Some u \<Longrightarrow> P u v \<Longrightarrow> (\<And>v. P v v) \<Longrightarrow> kept_in P m (fmupd k v m)"
  by (auto simp: kept_in_def)

lemma same_token_refl [simp]: "same_token i i"
  by (simp add: same_token_def)

lemma same_credential_refl [simp]: "same_credential r r"
  by (simp add: same_credential_def)

lemma same_token_trans: "same_token i j \<Longrightarrow> same_token j k \<Longrightarrow> same_token i k"
  by (auto simp: same_token_def)

lemma same_credential_trans: "same_credential i j \<Longrightarrow> same_credential j k \<Longrightarrow> same_credential i k"
  by (auto simp: same_credential_def)

lemma evolves_refl [simp]: "evolves s s"
  by (auto simp: evolves_def intro: kept_in_refl)

lemma evolves_trans: "evolves s t \<Longrightarrow> evolves t u \<Longrightarrow> evolves s u"
    unfolding evolves_def
    by (auto intro: order_trans kept_in_trans [where P = "(=)"] kept_in_trans [OF _ _ same_token_trans]
        kept_in_trans [OF _ _ same_credential_trans])

interpretation evo: ledger_frame evolves
proof unfold_locales
  fix s :: chain_state and k i n
  assume i: "fmlookup (cs_tokens s) k = Some i"
  have "same_token i (i\<lparr>ti_total_supply := sat_sub (ti_total_supply i) n\<rparr>)"
    by (simp add: same_token_def sat_sub_def word_sub_le)
  with i show "evolves s (s\<lparr>cs_tokens := fmupd k (i\<lparr>ti_total_supply := sat_sub (ti_total_supply i) n\<rparr>) (cs_tokens s)\<rparr>)"
    by (simp add: evolves_def nonce_of_def kept_in_refl kept_in_upd)
next
  fix s :: chain_state and a
  assume "unat (nonce_of s a) + 1 < 2 ^ 64"
  then have "nonce_of s a \<le> nonce_of s a + 1" by (simp add: word_le_nat_alt unat_plus)
  then show "evolves s (s\<lparr>cs_nonces := fmupd a (nonce_of s a + 1) (cs_nonces s)\<rparr>)"
    by (auto simp: evolves_def nonce_of_def fmfind_def kept_in_refl)
next
  show "evolves s t \<Longrightarrow> evolves t u \<Longrightarrow> evolves s u" for s t u by (rule evolves_trans)
qed (simp_all add: evolves_def nonce_of_def kept_in_refl kept_in_new kept_in_upd same_credential_def)

lemma punish_evolves:
  assumes "\<not> fmhas (cs_slashed_offenses s) (offense_key v i)"
  shows "evolves s (punish v i info n s)"
proof -
  let ?s1 = "s\<lparr>cs_burned := sat_add (cs_burned s) n, cs_total_supply := sat_sub (cs_total_supply s) n\<rparr>"
  define s3 where "s3 = (if 0 < n - min n (si_stake info)
      then deduct_unbonding v (n - min n (si_stake info))
             (set_staker v (info\<lparr>si_stake := si_stake info - min n (si_stake info)\<rparr>) ?s1)
      else set_staker v (info\<lparr>si_stake := si_stake info - min n (si_stake info)\<rparr>) ?s1)"
  have "evolves s ?s1" by (simp add: evolves_def nonce_of_def kept_in_refl)
  moreover have "evolves ?s1 s3"
    unfolding s3_def by (auto intro: evo.trans [OF evo.helpers(1) evo.helpers(8)])
  ultimately have e: "evolves s s3" by (rule evo.trans)
  have "cs_slashed_offenses s3 = cs_slashed_offenses s"
    by (simp add: s3_def deduct_unbonding_def set_staker_def Let_def split: option.split)
  with assms have "evolves s3 (s3\<lparr>cs_slashed_offenses := fmupd (offense_key v i) n (cs_slashed_offenses s3)\<rparr>)"
    by (simp add: evolves_def nonce_of_def kept_in_refl fmhas_def kept_in_new)
  with e have "evolves s (s3\<lparr>cs_slashed_offenses := fmupd (offense_key v i) n (cs_slashed_offenses s3)\<rparr>)"
    by (rule evo.trans)
  then show ?thesis by (simp only: punish_def Let_def s3_def)
qed

lemma evo_slash [intro]: "after evolves (apply_slash tx h) s"
proof -
  have "after evolves (modify (punish (tx_to tx) i info n)) t"
    if "check_slash tx h s = Inr (i, info, n)"
      and "t = s\<lparr>cs_balances := fmupd STAKING_POOL_ACCOUNT (balance_of s STAKING_POOL_ACCOUNT - n) (cs_balances s)\<rparr>"
    for i info n t
    using that by (auto simp: check_slash_ok intro!: evo.after_modify punish_evolves)
  then show ?thesis
    unfolding apply_slash_def by (auto simp: exec_ok split_def intro!: evo.after_bind)
qed

lemma evo_reward [intro]: "after evolves (apply_reward tx) s"
  unfolding apply_reward_def
  by (intro evo.after_bind evo.after_modify evo.after_primitives)
     (simp add: evolves_def nonce_of_def kept_in_refl)

text \<open>Read on outcomes.\<close>

lemma apply_verified_evolves: "apply_verified L tx h s = (r, t) \<Longrightarrow> evolves s t"
  by (rule evo.after_result [OF evo.after_apply_verified]) auto

lemma end_block_evolves: "end_block h v s = (r, t) \<Longrightarrow> evolves s t"
  by (rule evo.after_result [OF evo.after_end_block])


section \<open>The recorded supply\<close>

interpretation mint: ledger_frame "\<lambda>s t. cs_total_supply t = cs_total_supply s"
  by unfold_locales simp_all

lemma end_block_supply: "end_block h v s = (r, t) \<Longrightarrow> cs_total_supply t = cs_total_supply s"
  by (rule mint.after_result [OF mint.after_end_block])

lemma punish_supply: "cs_total_supply (punish v i info n s) = sat_sub (cs_total_supply s) n"
  by (simp add: punish_def Let_def deduct_unbonding_def set_staker_def split: option.split)

text \<open>Only a reward raises it, by its amount; only a slash lowers it.\<close>

lemma apply_verified_supply:
  assumes ok: "apply_verified L tx h s = (Inr (), t)"
  shows "uint (cs_total_supply t) \<le> uint (cs_total_supply s) + (if tx_type tx = Reward then uint (tx_amount tx) else 0)"
proof -
  consider (reward) "tx_type tx = Reward" | (slash) "tx_type tx = Slash"
    | (other) "tx_type tx \<noteq> Reward" "tx_type tx \<noteq> Slash" by blast
  then show ?thesis
  proof cases
    case reward
    with ok have "cs_total_supply t = sat_add (cs_total_supply s) (tx_amount tx)"
      by (auto simp: apply_verified_def exec_ok apply_reward_ok)
    with reward show ?thesis by (simp add: uint_sat_add)
  next
    case slash
    with ok have "\<exists>n. cs_total_supply t = sat_sub (cs_total_supply s) n"
      by (auto simp: apply_verified_def exec_ok apply_slash_ok punish_supply)
    moreover have "sat_sub w n \<le> w" for w n :: u64 by (simp add: sat_sub_def word_sub_le)
    ultimately show ?thesis using slash by (auto simp: uint_le)
  next
    case other
    then have "apply_verified L tx h s = (Inr (), t) \<Longrightarrow> cs_total_supply t = cs_total_supply s"
      by (intro mint.after_result [where m = "apply_verified L tx h"])
         (auto simp: apply_verified_def intro!: mint.after_bind split: transaction_type.splits)
    with ok other show ?thesis by simp
  qed
qed

end
