(* ===== verification/History.thy ===== *)
theory History
  imports Frames
begin

text \<open>
  Histories of the chain state: any interleaving of transactions, accepted or not, and of block
  ends. What the relation \<open>evolves\<close> keeps over one step it keeps over a history, and an
  accepted transaction leaves a mark there that makes the same transaction, the same token, the
  same credential or the same offense unacceptable for ever after.
\<close>

inductive reaches :: "'x prims_scheme \<Rightarrow> chain_state \<Rightarrow> chain_state \<Rightarrow> bool" for L s where
  start: "reaches L s s"
| transact: "reaches L s t \<Longrightarrow> apply_verified L tx h t = (r, u) \<Longrightarrow> reaches L s u"
| finish: "reaches L s t \<Longrightarrow> end_block h v t = (r, u) \<Longrightarrow> reaches L s u"

lemma reaches_evolves: "reaches L s t \<Longrightarrow> evolves s t"
  by (induction rule: reaches.induct)
     (auto intro: evolves_trans apply_verified_evolves end_block_evolves)

lemma reaches_trans: "reaches L t u \<Longrightarrow> reaches L s t \<Longrightarrow> reaches L s u"
  by (induction rule: reaches.induct) (auto intro: reaches.intros)


section \<open>Spent nonces\<close>

text \<open>
  \<open>spends a n m s\<close>: if \<open>m\<close> succeeds on \<open>s\<close> then \<open>n\<close> was the account's next nonce and is used up
  afterwards.
\<close>

definition spends :: "string \<Rightarrow> u64 \<Rightarrow> (chain_state, 'a) exec \<Rightarrow> chain_state \<Rightarrow> bool" where
  "spends a n m s \<longleftrightarrow>
     (\<forall>x t. m s = (Inr x, t) \<longrightarrow> unat (nonce_of s a) + 1 < 2 ^ 64 \<and> n = nonce_of s a + 1 \<and> n \<le> nonce_of t a)"

lemma spends_pure:
  "(\<And>x. r = Inr x \<Longrightarrow> spends a n (f x) s) \<Longrightarrow> spends a n (bindE (lift r) f) s"
  "spends a n (f (g s)) s \<Longrightarrow> spends a n (bindE (gets g) f) s"
  by (auto simp: spends_def bindE_ok exec_ok)

lemma spends_then:
  assumes m: "\<And>u. m s = (Inr (), u) \<Longrightarrow>
      unat (nonce_of s a) + 1 < 2 ^ 64 \<and> n = nonce_of s a + 1 \<and> nonce_of u a = n"
    and f: "\<And>u. after evolves (f ()) u"
  shows "spends a n (bindE m f) s"
  unfolding spends_def bindE_ok
proof (intro allI impI, elim exE conjE)
  fix x t y u
  assume *: "m s = (Inr y, u)" "f y u = (Inr x, t)"
  then have "evolves u t" using evo.after_result [OF f] by simp
  then have "nonce_of u a \<le> nonce_of t a" by (simp add: evolves_def)
  with m [of u] * show "unat (nonce_of s a) + 1 < 2 ^ 64 \<and> n = nonce_of s a + 1 \<and> n \<le> nonce_of t a" by simp
qed

lemma spends_charges:
  assumes "\<And>u. after evolves (f ()) u"
  shows "spends a n (bindE (consume_nonce a n) f) s" "spends a n (bindE (charge_fee a n) f) s"
    "spends a n (bindE (charge_amount a n m) f) s"
  using assms
  by (auto intro!: spends_then
      simp: exec_ok can_pay_fee_def can_pay_amount_def pay_fee_def pay_amount_def spend_def nonce_of_def fmfind_def)

lemmas spends_rules = spends_pure spends_charges

definition spends_nonce :: "transaction \<Rightarrow> bool" where
  "spends_nonce tx \<longleftrightarrow> tx_type tx \<noteq> Reward \<and> tx_type tx \<noteq> Slash
     \<and> (tx_type tx = Certificate \<longrightarrow> tx_credential tx \<noteq> None)"

lemma arm_spends:
  assumes "tx_from tx = Some a"
  shows "spends a (tx_nonce tx) (apply_transfer tx) s" "spends a (tx_nonce tx) (apply_stake tx) s"
    "spends a (tx_nonce tx) (apply_withdraw L tx h) s" "spends a (tx_nonce tx) (apply_vest tx h) s"
    "spends a (tx_nonce tx) (apply_token_transfer tx) s" "spends a (tx_nonce tx) (apply_token_burn tx) s"
    "spends a (tx_nonce tx) (apply_add_liquidity tx) s" "spends a (tx_nonce tx) (apply_remove_liquidity tx) s"
    "spends a (tx_nonce tx) (apply_swap tx) s"
  using assms
  by (auto simp: apply_transfer_def apply_stake_def apply_withdraw_def apply_vest_def
      apply_token_transfer_def apply_token_burn_def apply_add_liquidity_def apply_remove_liquidity_def
      apply_swap_def Let_def split_def evo.locked intro!: spends_rules evo.rules)

lemma set_token_balance_nonce [simp]: "nonce_of (set_token_balance k b v s) a = nonce_of s a"
  by (simp add: set_token_balance_def nonce_of_def)

lemma create_spends:
  assumes "tx_from tx = Some a"
  shows "spends a (tx_nonce tx) (apply_token_create L tx h) s"
  using assms
  by (auto simp: spends_def apply_token_create_ok can_pay_fee_def pay_fee_def spend_def nonce_of_def fmfind_def)

lemma certificate_spends:
  assumes "tx_from tx = Some a" "tx_credential tx \<noteq> None"
  shows "spends a (tx_nonce tx) (apply_certificate L tx) s"
  using assms
  by (auto simp: spends_def apply_certificate_ok nonce_of_def fmfind_def)

lemma has_sender:
  assumes "apply_verified L tx h s = (Inr (), t)" "spends_nonce tx"
  obtains a where "tx_from tx = Some a"
  using assms
  by (cases "tx_type tx")
     (auto simp: spends_nonce_def apply_verified_def exec_ok apply_transfer_ok apply_stake_ok apply_withdraw_ok
       apply_vest_ok apply_token_create_ok apply_token_transfer_ok apply_token_burn_ok apply_add_liquidity_ok
       apply_remove_liquidity_ok apply_swap_ok apply_certificate_ok)

lemma apply_verified_spends:
  assumes "tx_from tx = Some a" "spends_nonce tx"
  shows "spends a (tx_nonce tx) (apply_verified L tx h) s"
  unfolding apply_verified_def
  using assms arm_spends [OF assms(1)] create_spends [OF assms(1)] certificate_spends [OF assms(1)]
  by (intro spends_pure; cases "tx_type tx") (auto simp: spends_nonce_def)

text \<open>An accepted transaction that spends a nonce is refused in every later state.\<close>

lemma never_again:
  assumes first: "apply_verified L tx h s = (Inr (), t)" and "spends_nonce tx" and later: "evolves t u"
  shows "fst (apply_verified L tx h' u) \<noteq> Inr ()"
proof
  assume again: "fst (apply_verified L tx h' u) = Inr ()"
  obtain a where a: "tx_from tx = Some a" using has_sender [OF first assms(2)] .
  note spends = apply_verified_spends [OF a assms(2), unfolded spends_def, rule_format]
  have 1: "tx_nonce tx \<le> nonce_of t a" using spends [OF first] by blast
  obtain w where "apply_verified L tx h' u = (Inr (), w)" using again by (metis prod.collapse)
  from spends [OF this] have 2: "unat (nonce_of u a) + 1 < 2 ^ 64" "tx_nonce tx = nonce_of u a + 1" by blast+
  have "nonce_of t a \<le> nonce_of u a" using later by (simp add: evolves_def)
  with 1 2 show False by (simp add: word_le_nat_alt unat_plus)
qed


section \<open>Offenses, tokens and credentials\<close>

lemma kept_in_fmhas: "kept_in P m n \<Longrightarrow> fmhas m k \<Longrightarrow> fmhas n k"
  by (auto simp: kept_in_def fmhas_def)

lemma slashed_marks:
  assumes "apply_slash tx h s = (Inr (), t)"
  obtains pf where "tx_slash_proof tx = Some pf"
    "fmhas (cs_slashed_offenses t) (offense_key (tx_to tx) (blk_index (sp_block_a pf)))"
  using assms by (auto simp: apply_slash_ok check_slash_ok punish_def Let_def fmhas_def)

lemma slash_needs_new_offense:
  assumes "apply_slash tx h s = (Inr (), t)" "tx_slash_proof tx = Some pf"
  shows "\<not> fmhas (cs_slashed_offenses s) (offense_key (tx_to tx) (blk_index (sp_block_a pf)))"
  using assms by (auto simp: apply_slash_ok check_slash_ok)

end
