(* ===== verification/Chain.thy ===== *)
theory Chain
  imports Frames
begin

text \<open>
  The chain: \<open>src/src/blockchain/chain.rs\<close>. Blocks are validated against the state, the
  randomness beacon and the difficulty schedule at their parent; a chain caches those three at
  its tip and can rebuild them by replaying its blocks. The current time is an argument.
\<close>


section \<open>Constants and data\<close>

definition MAX_TIMESTAMP_SKEW_SECONDS :: int where "MAX_TIMESTAMP_SKEW_SECONDS = 120"
definition DEFAULT_GENESIS_SUPPLY :: u64 where "DEFAULT_GENESIS_SUPPLY = 30000000000 * UNITS_PER_HKM"
definition TARGET_BLOCK_SECONDS :: int where "TARGET_BLOCK_SECONDS = 15"
definition RETARGET_INTERVAL :: u64 where "RETARGET_INTERVAL = 10"
definition SLOT_TIMEOUT_SECONDS :: int where "SLOT_TIMEOUT_SECONDS = 30"
definition MAX_SLOT_ROUNDS :: u64 where "MAX_SLOT_ROUNDS = 16"

text \<open>
  Integer division truncates towards zero (the divisor is positive), and so does
  \<open>Duration::num_seconds\<close>.
\<close>

definition trunc_div :: "int \<Rightarrow> int \<Rightarrow> int" where
  "trunc_div a b = (if a < 0 then - ((- a) div b) else a div b)"

definition num_seconds :: "int \<Rightarrow> int" where
  "num_seconds nanos = trunc_div nanos 1000000000"

definition seconds :: "int \<Rightarrow> int" where
  "seconds n = n * 1000000000"

record checkpoint_root =
  cp_state :: chain_state
  cp_randomness :: string
  cp_difficulty :: u64

record chain_head =
  ch_chain_id :: string
  ch_root_hash :: string
  ch_base_height :: u64
  ch_height :: u64
  ch_tip_hash :: string
  ch_finalized_height :: u64
  ch_cumulative_work :: string

record blockchain =
  bc_blocks :: "block list"
  bc_difficulty :: u64
  bc_finalized_height :: u64
  bc_genesis_treasury :: string
  bc_genesis_validator_public_key :: "string option"
  bc_genesis_validator_vrf_public_key :: "string option"
  bc_genesis_supply :: u64
  bc_genesis_validator_allowlist :: "string list"
  bc_genesis_chain_id :: string
  bc_genesis_require_hybrid_signatures :: bool
  bc_genesis_validator_pq_public_key :: "string option"
  bc_state :: chain_state
  bc_randomness :: string
  bc_current_difficulty :: u64
  bc_base_height :: u64
  bc_checkpoint :: "checkpoint_root option"

record checkpoint_bundle =
  cb_difficulty :: u64
  cb_genesis_treasury :: string
  cb_genesis_validator_public_key :: "string option"
  cb_genesis_validator_vrf_public_key :: "string option"
  cb_genesis_supply :: u64
  cb_genesis_validator_allowlist :: "string list"
  cb_genesis_chain_id :: string
  cb_anchor :: block
  cb_checkpoint :: checkpoint_root
  cb_forward_blocks :: "block list"

record block_error =
  be_reason :: string
  be_slashable :: bool

record slash_evidence =
  ev_validator :: string
  ev_reason :: string
  ev_timestamp :: string

definition structural :: "string \<Rightarrow> block_error" where
  "structural reason = \<lparr>be_reason = reason, be_slashable = False\<rparr>"

definition slashable :: "string \<Rightarrow> block_error" where
  "slashable reason = \<lparr>be_reason = reason, be_slashable = True\<rparr>"

type_synonym 'a checked = "(block_error, 'a) result"


section \<open>Difficulty retargeting\<close>

definition adjusted_difficulty :: "u64 \<Rightarrow> block list \<Rightarrow> ('e, u64) result" where
  "adjusted_difficulty current window =
     (if length window < 2 then Inr current
      else let span = num_seconds (blk_timestamp (last window) - blk_timestamp (hd window));
               average = trunc_div span (int (length window) - 1) in
           if average < TARGET_BLOCK_SECONDS div 2 then
             bindR (add_u64 current 1) (\<lambda>harder. Inr (min harder MAX_DIFFICULTY))
           else if TARGET_BLOCK_SECONDS * 2 < average then Inr (max (sat_sub current 1) MIN_DIFFICULTY)
           else Inr current)"

definition retarget :: "block list \<Rightarrow> u64 \<Rightarrow> u64 \<Rightarrow> u64 \<Rightarrow> ('e, u64) result" where
  "retarget blocks produced_abs base_height current =
     bindR (add_u64 produced_abs 1) (\<lambda>next.
     if next mod RETARGET_INTERVAL \<noteq> 0 then Inr current
     else let start0 = length blocks - unat RETARGET_INTERVAL;
              start = (if base_height = 0 then max start0 1 else start0) in
          if length blocks < start then Inl Panic
          else adjusted_difficulty current (drop start blocks))"


section \<open>Positions\<close>

definition next_index :: "blockchain \<Rightarrow> ('e, u64) result" where
  "next_index c = add_u64 (bc_base_height c) (as_u64 (length (bc_blocks c)))"

definition tip_index :: "blockchain \<Rightarrow> ('e, u64) result" where
  "tip_index c = bindR (next_index c) (\<lambda>n. Inr (sat_sub n 1))"

definition latest_hash :: "blockchain \<Rightarrow> string" where
  "latest_hash c = (if bc_blocks c = [] then ''0'' else blk_hash (last (bc_blocks c)))"

text \<open>The \<open>u128\<close> sum of the blocks' work.\<close>

fun sum_u128 :: "nat \<Rightarrow> nat list \<Rightarrow> ('e, nat) result" where
  "sum_u128 acc [] = Inr acc"
| "sum_u128 acc (x # xs) = (if acc + x < 2 ^ 128 then sum_u128 (acc + x) xs else Inl Panic)"

definition cumulative_work :: "blockchain \<Rightarrow> ('e, nat) result" where
  "cumulative_work c = sum_u128 0 (map (\<lambda>b. work_for_difficulty (blk_difficulty b)) (bc_blocks c))"

definition head_of :: "blockchain \<Rightarrow> ('e, chain_head) result" where
  "head_of c =
     bindR (tip_index c) (\<lambda>height.
     bindR (cumulative_work c) (\<lambda>work.
     Inr \<lparr>ch_chain_id = bc_genesis_chain_id c,
          ch_root_hash = (case bc_blocks c of [] \<Rightarrow> [] | b # _ \<Rightarrow> blk_hash b),
          ch_base_height = bc_base_height c, ch_height = height, ch_tip_hash = latest_hash c,
          ch_finalized_height = bc_finalized_height c, ch_cumulative_work = dec_string work\<rparr>))"

definition blocks_from :: "blockchain \<Rightarrow> u64 \<Rightarrow> u64 \<Rightarrow> block list" where
  "blocks_from c start limit =
     (if start < bc_base_height c then []
      else take (unat limit) (drop (unat (start - bc_base_height c)) (bc_blocks c)))"

definition create_block ::
  "'x prims_scheme \<Rightarrow> int \<Rightarrow> blockchain \<Rightarrow> string list \<Rightarrow> string option \<Rightarrow> string option \<Rightarrow> string \<Rightarrow> block outcome" where
  "create_block L now c transactions validator validator_public_key root =
     bindR (next_index c) (\<lambda>index.
     new_at L now index transactions (latest_hash c) (bc_current_difficulty c) validator
       validator_public_key None root)"

definition apply_finality :: "u64 \<Rightarrow> blockchain \<Rightarrow> ('e, blockchain) result" where
  "apply_finality finality_depth c =
     (if bc_blocks c = [] then Inr (c\<lparr>bc_finalized_height := bc_base_height c\<rparr>)
      else bindR (tip_index c) (\<lambda>tip.
           Inr (c\<lparr>bc_finalized_height :=
             (if finality_depth = 0 then tip else max (sat_sub tip finality_depth) (bc_base_height c))\<rparr>)))"

definition commit_block :: "'x prims_scheme \<Rightarrow> block \<Rightarrow> chain_state \<Rightarrow> blockchain \<Rightarrow> ('e, blockchain) result" where
  "commit_block L b post_state c =
     (let c1 = c\<lparr>bc_randomness :=
                 next_randomness L (bc_randomness c) (case blk_vrf_output b of None \<Rightarrow> [] | Some v \<Rightarrow> v),
                bc_blocks := bc_blocks c @ [b], bc_state := post_state\<rparr> in
      bindR (tip_index c1) (\<lambda>tip.
      bindR (retarget (bc_blocks c1) tip (bc_base_height c1) (bc_current_difficulty c1)) (\<lambda>d.
      Inr (c1\<lparr>bc_current_difficulty := d\<rparr>))))"


section \<open>Leader rounds\<close>

definition open_rounds :: "int \<Rightarrow> int \<Rightarrow> u64" where
  "open_rounds parent_ts block_ts =
     (let elapsed = num_seconds (block_ts - parent_ts) in
      if elapsed \<le> 0 then 0 else min (word_of_int (elapsed div SLOT_TIMEOUT_SECONDS)) MAX_SLOT_ROUNDS)"

text \<open>\<open>0..=rounds\<close>.\<close>

definition rounds_upto :: "u64 \<Rightarrow> u64 list" where
  "rounds_upto rounds = map word_of_nat [0..<unat rounds + 1]"

text \<open>The smallest open round that selects \<open>claimed\<close>, with its slot input.\<close>

fun find_slot ::
  "'x prims_scheme \<Rightarrow> string \<Rightarrow> u64 \<Rightarrow> staker list \<Rightarrow> string \<Rightarrow> u64 list \<Rightarrow> ('e, (u64 \<times> string) option) result" where
  "find_slot L randomness height validators claimed [] = Inr None"
| "find_slot L randomness height validators claimed (r # rs) =
     (let candidate = slot_input_at_round randomness height r in
      bindR (select_staker_with_seed L candidate validators) (\<lambda>selected.
      if selected = Some claimed then Inr (Some (r, candidate))
      else find_slot L randomness height validators claimed rs))"

definition next_slot_input :: "blockchain \<Rightarrow> ('e, string) result" where
  "next_slot_input c = bindR (next_index c) (\<lambda>n. Inr (slot_input (bc_randomness c) n))"

definition eligible_slot_for ::
  "'x prims_scheme \<Rightarrow> int \<Rightarrow> blockchain \<Rightarrow> string \<Rightarrow> ('e, (u64 \<times> string) option) result" where
  "eligible_slot_for L now c validator =
     (if bc_blocks c = [] then Inr None
      else let rounds = open_rounds (blk_timestamp (last (bc_blocks c))) now in
           bindR (next_index c) (\<lambda>height.
           find_slot L (bc_randomness c) height (validator_set (bc_state c)) validator (rounds_upto rounds)))"

fun collect_leaders ::
  "'x prims_scheme \<Rightarrow> string \<Rightarrow> u64 \<Rightarrow> staker list \<Rightarrow> (u64 \<times> string \<times> string) list \<Rightarrow> u64 list
   \<Rightarrow> ('e, (u64 \<times> string \<times> string) list) result" where
  "collect_leaders L randomness height validators leaders [] = Inr leaders"
| "collect_leaders L randomness height validators leaders (r # rs) =
     (let input = slot_input_at_round randomness height r in
      bindR (select_staker_with_seed L input validators) (\<lambda>selected.
      case selected of
        None \<Rightarrow> collect_leaders L randomness height validators leaders rs
      | Some v \<Rightarrow>
          if v \<in> set (map (fst \<circ> snd) leaders)
          then collect_leaders L randomness height validators leaders rs
          else collect_leaders L randomness height validators (leaders @ [(r, v, input)]) rs))"

definition open_leaders :: "'x prims_scheme \<Rightarrow> int \<Rightarrow> blockchain \<Rightarrow> ('e, (u64 \<times> string \<times> string) list) result" where
  "open_leaders L now c =
     (if bc_blocks c = [] then Inr []
      else let rounds = open_rounds (blk_timestamp (last (bc_blocks c))) now in
           bindR (next_index c) (\<lambda>height.
           collect_leaders L (bc_randomness c) height (validator_set (bc_state c)) [] (rounds_upto rounds)))"


section \<open>Validating one block\<close>

definition check_header :: "block \<Rightarrow> u64 \<Rightarrow> string \<Rightarrow> int \<Rightarrow> u64 \<Rightarrow> unit checked" where
  "check_header b expected_index expected_previous_hash parent_timestamp expected_difficulty =
     bindR (require (blk_index b = expected_index) (structural ''Block index does not match chain tip'')) (\<lambda>_.
     bindR (require (parent_timestamp \<le> blk_timestamp b) (slashable ''Block timestamp precedes its parent'')) (\<lambda>_.
     bindR (require (blk_difficulty b = expected_difficulty)
              (slashable ''Block difficulty does not match retarget schedule'')) (\<lambda>_.
     bindR (require (blk_previous_hash b = expected_previous_hash)
              (structural ''Block previous hash does not match chain tip'')) (\<lambda>_.
     bindR (require (is_difficulty_in_bounds (blk_difficulty b)) (slashable ''Block difficulty out of bounds'')) (\<lambda>_.
     require (blk_validator b \<noteq> None \<and> blk_validator_public_key b \<noteq> None \<and> blk_validator_signature b \<noteq> None)
       (structural ''Block missing required validator data''))))))"

definition check_slot :: "'x prims_scheme \<Rightarrow> block \<Rightarrow> string \<Rightarrow> chain_state \<Rightarrow> string \<Rightarrow> int \<Rightarrow> string checked" where
  "check_slot L b validator parent_state parent_randomness parent_timestamp =
     (let validators = validator_set parent_state in
      bindR (select_staker_with_seed L (slot_input parent_randomness (blk_index b)) validators) (\<lambda>primary.
      bindR (require (primary \<noteq> None) (structural ''No validators registered at parent state'')) (\<lambda>_.
      bindR (find_slot L parent_randomness (blk_index b) validators validator
               (rounds_upto (open_rounds parent_timestamp (blk_timestamp b)))) (\<lambda>slot.
      bindR (ok_or slot (slashable ''Block validator does not match PoS selection for any open round'')) (\<lambda>(_, input).
      Inr input)))))"

definition check_seal :: "'x prims_scheme \<Rightarrow> block \<Rightarrow> string \<Rightarrow> chain_state \<Rightarrow> string \<Rightarrow> unit checked" where
  "check_seal L b validator parent_state slot =
     (let registered = fmlookup (cs_stakers parent_state) validator;
          public_key = the (blk_validator_public_key b);
          signature = the (blk_validator_signature b);
          pq_key = (case registered of None \<Rightarrow> [] | Some info \<Rightarrow> si_pq_public_key info);
          vrf_key = (case registered of None \<Rightarrow> [] | Some info \<Rightarrow> si_vrf_public_key info) in
      bindR (require (map_option si_public_key registered = Some public_key)
               (slashable (''Block signer key does not match validator'' @ [CHR 0x27] @ ''s registered key''))) (\<lambda>_.
      bindR (require (verify_block_signature L (blk_hash b) public_key signature)
               (slashable ''Block signature verification failed'')) (\<lambda>_.
      bindR (if pq_key = [] then
               require (blk_validator_pq_signature b = None)
                 (slashable ''Classical validator must not carry a post-quantum block signature'')
             else
               bindR (ok_or (blk_validator_pq_signature b)
                        (slashable ''Hybrid validator must sign the block with its post-quantum key'')) (\<lambda>pq_signature.
               require (pq_verify_block_signature L (blk_hash b) pq_key pq_signature)
                 (slashable ''Block post-quantum signature verification failed''))) (\<lambda>_.
      bindR (require (vrf_key \<noteq> []) (structural ''Validator has no registered VRF key'')) (\<lambda>_.
      bindR (ok_or (case (blk_vrf_output b, blk_vrf_proof b) of (Some v, Some p) \<Rightarrow> Some (v, p) | _ \<Rightarrow> None)
               (structural ''Block missing VRF output or proof'')) (\<lambda>(vrf_output, vrf_proof).
      require (vrf_verify L slot vrf_key vrf_output vrf_proof) (slashable ''Block VRF verification failed'')))))))"

text \<open>The body of the loop over the block's transactions; the counter is the number of rewards so far.\<close>

definition execute_transaction ::
  "'x node_lib_scheme \<Rightarrow> string \<Rightarrow> u64 \<Rightarrow> string \<Rightarrow> (chain_state \<times> nat) \<Rightarrow> (chain_state \<times> nat) checked" where
  "execute_transaction L validator index tx_str st =
     (let (post_state, reward_count) = st in
      bindR (ok_or (tx_parse L tx_str) (slashable ''Block contains malformed transaction'')) (\<lambda>tx.
      bindR (map_err slashable (verify_for_block L tx validator)) (\<lambda>_.
      let (r, post_state') = apply_verified L tx index post_state in
      bindR (map_err slashable r) (\<lambda>_.
      if tx_type tx = Reward then
        bindR (require (tx_amount tx = block_reward index)
                 (slashable ''Block reward does not match the emission schedule'')) (\<lambda>_.
        Inr (post_state', reward_count + 1))
      else Inr (post_state', reward_count)))))"

fun execute_transactions ::
  "'x node_lib_scheme \<Rightarrow> string \<Rightarrow> u64 \<Rightarrow> string list \<Rightarrow> (chain_state \<times> nat) \<Rightarrow> (chain_state \<times> nat) checked" where
  "execute_transactions L validator index [] st = Inr st"
| "execute_transactions L validator index (t # ts) st =
     bindR (execute_transaction L validator index t st) (execute_transactions L validator index ts)"

definition execute_block :: "'x node_lib_scheme \<Rightarrow> block \<Rightarrow> string \<Rightarrow> chain_state \<Rightarrow> chain_state checked" where
  "execute_block L b validator parent_state =
     bindR (execute_transactions L validator (blk_index b) (blk_transactions b) (parent_state, 0)) (\<lambda>(post_state, reward_count).
     bindR (require (reward_count = 1) (slashable ''Block must contain exactly one reward transaction'')) (\<lambda>_.
     let (r, final_state) = end_block (blk_index b) validator post_state in
     bindR (map_err slashable r) (\<lambda>_.
     bindR (require (state_root L final_state = blk_state_root b)
              (slashable ''Block state root does not match executed state'')) (\<lambda>_.
     Inr final_state))))"

definition validate_block_at ::
  "'x node_lib_scheme \<Rightarrow> block \<Rightarrow> u64 \<Rightarrow> string \<Rightarrow> chain_state \<Rightarrow> string \<Rightarrow> int \<Rightarrow> u64 \<Rightarrow> chain_state checked" where
  "validate_block_at L b expected_index expected_previous_hash parent_state parent_randomness
     parent_timestamp expected_difficulty =
     bindR (check_header b expected_index expected_previous_hash parent_timestamp expected_difficulty) (\<lambda>_.
     let validator = the (blk_validator b) in
     bindR (check_slot L b validator parent_state parent_randomness parent_timestamp) (\<lambda>slot.
     bindR (check_seal L b validator parent_state slot) (\<lambda>_.
     bindR (require (has_valid_merkle_root L b) (slashable ''Block merkle root mismatch'')) (\<lambda>_.
     bindR (require (has_valid_pow L b) (slashable ''Block PoW validation failed'')) (\<lambda>_.
     execute_block L b validator parent_state)))))"

definition validate_block_candidate :: "'x node_lib_scheme \<Rightarrow> int \<Rightarrow> blockchain \<Rightarrow> block \<Rightarrow> chain_state outcome" where
  "validate_block_candidate L now c b =
     bindR (require (blk_timestamp b \<le> now + seconds MAX_TIMESTAMP_SKEW_SECONDS)
              ''Block timestamp is too far in the future'') (\<lambda>_.
     bindR (require (bc_blocks c \<noteq> []) ''Chain is empty'') (\<lambda>_.
     bindR (next_index c) (\<lambda>index.
     map_err be_reason
       (validate_block_at L b index (latest_hash c) (bc_state c) (bc_randomness c)
          (blk_timestamp (last (bc_blocks c))) (bc_current_difficulty c)))))"


section \<open>What validation establishes\<close>

lemma rounds_upto_nth: "r \<in> set (rounds_upto n) \<longleftrightarrow> r \<le> n"
proof -
  have "r \<in> set (rounds_upto n) \<longleftrightarrow> (\<exists>k\<le>unat n. r = word_of_nat k)"
    by (auto simp: rounds_upto_def less_Suc_eq_le image_iff simp del: upt_Suc)
  also have "\<dots> \<longleftrightarrow> unat r \<le> unat n"
  proof
    assume "\<exists>k\<le>unat n. r = word_of_nat k"
    then obtain k where k: "k \<le> unat n" "r = word_of_nat k" by blast
    have "unat r \<le> k" unfolding k(2) by (rule unat_as_u64_le [unfolded as_u64_def])
    then show "unat r \<le> unat n" using k(1) by (rule le_trans)
  qed (auto intro: exI [of _ "unat r"])
  finally show ?thesis by (simp add: word_le_nat_alt)
qed

text \<open>\<open>find_slot\<close> returns the first round that selects the validator.\<close>

lemma find_slot_Some:
  "find_slot L rnd h vs v rs = (Inr (Some (r, i)) :: ('e, _) result) \<longleftrightarrow>
     (\<exists>xs ys. rs = xs @ r # ys \<and> i = slot_input_at_round rnd h r
        \<and> select_staker_with_seed L i vs = (Inr (Some v) :: ('e, _) result)
        \<and> (\<forall>q\<in>set xs. \<exists>w. select_staker_with_seed L (slot_input_at_round rnd h q) vs
              = (Inr w :: ('e, _) result) \<and> w \<noteq> Some v))"
proof (induction rs)
  case (Cons q rs)
  show ?case
  proof (cases "select_staker_with_seed L (slot_input_at_round rnd h q) vs :: ('e, _) result")
    case (Inl e)
    then show ?thesis by (auto simp: Let_def bindR_def Cons_eq_append_conv)
  next
    case (Inr w)
    show ?thesis
    proof (cases "w = Some v")
      case True
      with Inr show ?thesis by (auto simp: Let_def Cons_eq_append_conv)
    next
      case False
      show ?thesis (is "?l = ?r")
      proof
        assume ?l
        with Inr False obtain xs ys where "rs = xs @ r # ys" "i = slot_input_at_round rnd h r"
          "select_staker_with_seed L i vs = (Inr (Some v) :: ('e, _) result)"
          "\<forall>q\<in>set xs. \<exists>w. select_staker_with_seed L (slot_input_at_round rnd h q) vs
              = (Inr w :: ('e, _) result) \<and> w \<noteq> Some v"
          by (auto simp: Let_def Cons)
        with Inr False show ?r by (intro exI [of _ "q # xs"] exI [of _ ys]) simp
      next
        assume ?r
        then obtain xs ys where *: "q # rs = xs @ r # ys" "i = slot_input_at_round rnd h r"
          "select_staker_with_seed L i vs = (Inr (Some v) :: ('e, _) result)"
          "\<forall>q\<in>set xs. \<exists>w. select_staker_with_seed L (slot_input_at_round rnd h q) vs
              = (Inr w :: ('e, _) result) \<and> w \<noteq> Some v" by blast
        with Inr False obtain xs' where "xs = q # xs'" "rs = xs' @ r # ys"
          by (cases xs) auto
        with * have "find_slot L rnd h vs v rs = (Inr (Some (r, i)) :: ('e, _) result)"
          unfolding Cons by auto
        with Inr False show ?l by (simp add: Let_def)
      qed
    qed
  qed
qed simp

lemma check_header_ok [exec_ok]:
  "check_header b i ph ts d = Inr u \<longleftrightarrow>
     blk_index b = i \<and> ts \<le> blk_timestamp b \<and> blk_difficulty b = d \<and> blk_previous_hash b = ph
     \<and> is_difficulty_in_bounds d \<and> blk_validator b \<noteq> None \<and> blk_validator_public_key b \<noteq> None
     \<and> blk_validator_signature b \<noteq> None"
  by (auto simp: check_header_def exec_ok)

lemma check_slot_ok:
  "check_slot L b v s rnd ts = Inr i \<longleftrightarrow>
     (\<exists>w r. select_staker_with_seed L (slot_input rnd (blk_index b)) (validator_set s) = (Inr (Some w) :: _ checked)
        \<and> find_slot L rnd (blk_index b) (validator_set s) v (rounds_upto (open_rounds ts (blk_timestamp b)))
            = (Inr (Some (r, i)) :: _ checked))"
  unfolding check_slot_def Let_def bindR_ok by (fastforce simp: exec_ok)

text \<open>
  Which signatures a block needs is decided by the keys its validator has registered in the
  parent state.
\<close>

lemma check_seal_ok:
  "check_seal L b v s slot = Inr () \<longleftrightarrow>
     (\<exists>info out prf. fmlookup (cs_stakers s) v = Some info
        \<and> si_public_key info = the (blk_validator_public_key b)
        \<and> verify_block_signature L (blk_hash b) (si_public_key info) (the (blk_validator_signature b))
        \<and> (if si_pq_public_key info = [] then blk_validator_pq_signature b = None
           else \<exists>sg. blk_validator_pq_signature b = Some sg
                  \<and> pq_verify_block_signature L (blk_hash b) (si_pq_public_key info) sg)
        \<and> si_vrf_public_key info \<noteq> [] \<and> blk_vrf_output b = Some out \<and> blk_vrf_proof b = Some prf
        \<and> vrf_verify L slot (si_vrf_public_key info) out prf)"
proof (cases "fmlookup (cs_stakers s) v")
  case (Some info)
  then show ?thesis
    by (cases "blk_vrf_output b"; cases "blk_vrf_proof b")
       (auto simp: check_seal_def Let_def exec_ok)
qed (simp add: check_seal_def exec_ok)

lemma execute_transaction_ok:
  "execute_transaction L v i txt (s, k) = Inr (t, n) \<longleftrightarrow>
     (\<exists>tx. tx_parse L txt = Some tx \<and> verify_for_block L tx v = Inr ()
        \<and> apply_verified L tx i s = (Inr (), t)
        \<and> (if tx_type tx = Reward then tx_amount tx = block_reward i \<and> n = k + 1 else n = k))"
proof (cases "tx_parse L txt")
  case (Some tx)
  show ?thesis
  proof (cases "apply_verified L tx i s")
    case (Pair r u)
    with Some show ?thesis by (auto simp: execute_transaction_def exec_ok Let_def)
  qed
qed (simp add: execute_transaction_def exec_ok)

lemma execute_transactions_cons:
  "execute_transactions L v i (x # xs) (s, k) = Inr (t, n) \<longleftrightarrow>
     (\<exists>u m. execute_transaction L v i x (s, k) = Inr (u, m) \<and> execute_transactions L v i xs (u, m) = Inr (t, n))"
  by (auto simp: exec_ok)

lemma execute_transactions_count: "execute_transactions L v i xs (s, k) = Inr (t, n) \<Longrightarrow> k \<le> n"
proof (induction xs arbitrary: s k)
  case (Cons x xs)
  then obtain u m where "execute_transaction L v i x (s, k) = Inr (u, m)" "m \<le> n"
    unfolding execute_transactions_cons by blast
  then show ?case by (auto simp: execute_transaction_ok split: if_splits)
qed simp

lemma execute_transactions_evolves: "execute_transactions L v i xs (s, k) = Inr (t, n) \<Longrightarrow> evolves s t"
proof (induction xs arbitrary: s k)
  case (Cons x xs)
  then obtain u m where "execute_transaction L v i x (s, k) = Inr (u, m)" "evolves u t"
    unfolding execute_transactions_cons by blast
  then show ?case
    unfolding execute_transaction_ok using apply_verified_evolves evolves_trans by blast
qed simp

text \<open>
  As long as at most one reward is paid and the supply counter has room for it, every step of
  the loop keeps the books.
\<close>

lemma execute_transactions_sound:
  assumes "execute_transactions L v i xs (s, k) = Inr (t, n)" "n \<le> 1" "sound s" "\<not> internal_account v"
    and "uint (cs_total_supply s) \<le> B + int k * uint (block_reward i)"
    and "B + uint (block_reward i) < 2 ^ 64"
  shows "sound t \<and> uint (cs_total_supply t) \<le> B + int n * uint (block_reward i)"
  using assms
proof (induction xs arbitrary: s k)
  case (Cons x xs)
  then obtain u m where step: "execute_transaction L v i x (s, k) = Inr (u, m)"
    and rest: "execute_transactions L v i xs (u, m) = Inr (t, n)"
    unfolding execute_transactions_cons by blast
  obtain tx where tx: "verify_for_block L tx v = Inr ()" "apply_verified L tx i s = (Inr (), u)"
    "if tx_type tx = Reward then tx_amount tx = block_reward i \<and> m = k + 1 else m = k"
    using step by (auto simp: execute_transaction_ok)
  have mn: "m \<le> n" using execute_transactions_count [OF rest] .
  have room: "uint (cs_total_supply s) + uint (tx_amount tx) < 2 ^ 64" if "tx_type tx = Reward"
  proof -
    have "k = 0" using that tx(3) mn Cons.prems(2) by simp
    then show ?thesis using that tx(3) Cons.prems(5,6) by simp
  qed
  have "sound u"
    using apply_verified_sound [OF tx(2) verified_admissible [OF tx(1) Cons.prems(4) room] Cons.prems(3)] .
  moreover have "uint (cs_total_supply u) \<le> B + int m * uint (block_reward i)"
    using apply_verified_supply [OF tx(2)] Cons.prems(5) tx(3) by (auto simp: algebra_simps split: if_splits)
  ultimately show ?case using Cons.IH [OF rest] Cons.prems(2,4,6) by blast
qed simp

lemma execute_block_ok:
  "execute_block L b v s = Inr t \<longleftrightarrow>
     (\<exists>u. execute_transactions L v (blk_index b) (blk_transactions b) (s, 0) = Inr (u, 1)
        \<and> end_block (blk_index b) v u = (Inr (), t) \<and> state_root L t = blk_state_root b)"
  by (auto simp: execute_block_def exec_ok Let_def split_beta prod_eq_iff)

lemma execute_block_sound:
  assumes "execute_block L b v s = Inr t" "sound s" "\<not> internal_account v"
    and "uint (cs_total_supply s) + uint (block_reward (blk_index b)) < 2 ^ 64"
  shows "sound t \<and> cs_fee_pot t = 0 \<and> TX_FEE \<le> cs_base_fee t \<and> cs_base_fee t \<le> BASE_FEE_MAX
    \<and> uint (cs_total_supply t) \<le> uint (cs_total_supply s) + uint (block_reward (blk_index b))"
proof -
  obtain u where u: "execute_transactions L v (blk_index b) (blk_transactions b) (s, 0) = Inr (u, 1)"
    and e: "end_block (blk_index b) v u = (Inr (), t)"
    using assms(1) by (auto simp: execute_block_ok)
  have "sound u \<and> uint (cs_total_supply u) \<le> uint (cs_total_supply s) + int 1 * uint (block_reward (blk_index b))"
    by (rule execute_transactions_sound [OF u]) (use assms in simp_all)
  with end_block_books [of u v "blk_index b"] e end_block_supply [OF e] assms(3) show ?thesis by auto
qed

lemma execute_block_evolves: "execute_block L b v s = Inr t \<Longrightarrow> evolves s t"
  unfolding execute_block_ok
  using execute_transactions_evolves end_block_evolves evolves_trans by blast

lemma validate_block_at_ok:
  "validate_block_at L b i ph s rnd ts d = Inr t \<longleftrightarrow>
     check_header b i ph ts d = Inr ()
     \<and> (\<exists>slot. check_slot L b (the (blk_validator b)) s rnd ts = Inr slot
          \<and> check_seal L b (the (blk_validator b)) s slot = Inr ())
     \<and> has_valid_merkle_root L b \<and> has_valid_pow L b \<and> execute_block L b (the (blk_validator b)) s = Inr t"
  unfolding validate_block_at_def Let_def bindR_ok by (auto simp: exec_ok)

lemma validate_block_candidate_ok:
  "validate_block_candidate L now c b = Inr t \<longleftrightarrow>
     blk_timestamp b \<le> now + seconds MAX_TIMESTAMP_SKEW_SECONDS \<and> bc_blocks c \<noteq> []
     \<and> (\<exists>i. next_index c = (Inr i :: u64 outcome)
          \<and> validate_block_at L b i (latest_hash c) (bc_state c) (bc_randomness c)
              (blk_timestamp (last (bc_blocks c))) (bc_current_difficulty c) = Inr t)"
  by (auto simp: validate_block_candidate_def exec_ok)

lemma sealed_validator_external:
  "check_seal L b v s slot = Inr () \<Longrightarrow> sound s \<Longrightarrow> \<not> internal_account v"
  by (auto simp: check_seal_ok sound_def keys_inv_def fmhas_def)

lemma validate_block_at_sound:
  assumes ok: "validate_block_at L b i ph s rnd ts d = Inr t" and s: "sound s"
    and room: "uint (cs_total_supply s) + uint (block_reward i) < 2 ^ 64"
  shows "sound t \<and> cs_fee_pot t = 0 \<and> TX_FEE \<le> cs_base_fee t \<and> cs_base_fee t \<le> BASE_FEE_MAX
    \<and> uint (cs_total_supply t) \<le> uint (cs_total_supply s) + uint (block_reward i)"
proof -
  have "blk_index b = i" "\<not> internal_account (the (blk_validator b))"
    using ok sealed_validator_external [OF _ s] by (auto simp: validate_block_at_ok exec_ok)
  then show ?thesis
    using execute_block_sound [OF _ s] ok room by (auto simp: validate_block_at_ok)
qed

lemma validate_block_at_evolves: "validate_block_at L b i ph s rnd ts d = Inr t \<Longrightarrow> evolves s t"
  using execute_block_evolves by (auto simp: validate_block_at_ok)


section \<open>The difficulty schedule\<close>

lemma difficulty_bounds_value: "MIN_DIFFICULTY \<le> MAX_DIFFICULTY" "unat MAX_DIFFICULTY < 2 ^ 64 - 1"
  by (simp_all add: MIN_DIFFICULTY_def MAX_DIFFICULTY_def)

lemma adjusted_difficulty_ok:
  assumes "is_difficulty_in_bounds d"
  shows "\<exists>d'. adjusted_difficulty d w = (Inr d' :: ('e, u64) result) \<and> is_difficulty_in_bounds d'
    \<and> unat d' \<le> unat d + 1 \<and> unat d \<le> unat d' + 1"
proof -
  have "unat d \<le> unat MAX_DIFFICULTY" using assms by (simp add: is_difficulty_in_bounds_def word_le_nat_alt)
  then have "unat d + 1 < 2 ^ 64" using difficulty_bounds_value(2) by simp
  then have up: "unat (d + 1) = unat d + 1" "add_u64 d 1 = (Inr (d + 1) :: ('e, u64) result)"
    by (simp_all add: unat_plus add_u64_ok)
  have mx: "unat (min (d + 1) MAX_DIFFICULTY) = min (unat d + 1) (unat MAX_DIFFICULTY)"
    by (simp add: min_def word_le_nat_alt up)
  have dn: "unat (sat_sub d 1) = unat d - 1" by (simp add: sat_sub_def word_le_nat_alt unat_minus)
  have mn: "unat (max (sat_sub d 1) MIN_DIFFICULTY) = max (unat d - 1) (unat MIN_DIFFICULTY)"
    using dn by (simp add: max_def word_le_nat_alt)
  show ?thesis
    using assms mx mn up(2)
    by (auto simp: adjusted_difficulty_def is_difficulty_in_bounds_def word_le_nat_alt Let_def
        min_def max_def split: if_splits)
qed

end
