(* ===== verification/Replay.thy ===== *)
theory Replay
  imports Chain
begin

text \<open>
  The constructors of a chain, replaying it from its root, fork choice, slash evidence and
  checkpoint bundles: the rest of \<open>src/src/blockchain/chain.rs\<close>.
\<close>


section \<open>Genesis\<close>

definition dev_genesis_private_key :: string where
  "dev_genesis_private_key = replicate 63 CHR ''0'' @ ''1''"

definition default_genesis_validator_public_key :: "'x prims_scheme \<Rightarrow> string option" where
  "default_genesis_validator_public_key L =
     (case derive_public_key L dev_genesis_private_key of Inr k \<Rightarrow> Some k | Inl _ \<Rightarrow> None)"

definition default_genesis_validator_vrf_public_key :: "'x prims_scheme \<Rightarrow> string option" where
  "default_genesis_validator_vrf_public_key L =
     (case derive_vrf_public_key L dev_genesis_private_key of Inr k \<Rightarrow> Some k | Inl _ \<Rightarrow> None)"

definition default_genesis_treasury :: "'x prims_scheme \<Rightarrow> string" where
  "default_genesis_treasury L =
     (case default_genesis_validator_public_key L of
        None \<Rightarrow> []
      | Some key \<Rightarrow> (case derive_address L key of Inr a \<Rightarrow> a | Inl _ \<Rightarrow> []))"

text \<open>
  A hybrid treasury is seated with its post-quantum key, or its stake is given back.
\<close>

definition seat_genesis_validator_pq_key ::
  "'x prims_scheme \<Rightarrow> string \<Rightarrow> string option \<Rightarrow> chain_state \<Rightarrow> ('e, chain_state) result" where
  "seat_genesis_validator_pq_key L treasury pq_public_key s =
     (if \<not> is_hybrid_address treasury then Inr s
      else case fmlookup (cs_stakers s) treasury of
        None \<Rightarrow> Inr s
      | Some info \<Rightarrow>
          let seated = (case pq_public_key of
                          None \<Rightarrow> False
                        | Some pq \<Rightarrow> derive_hybrid_address L (si_public_key info) pq = Inr treasury) in
          if seated then
            Inr (s\<lparr>cs_stakers := fmupd treasury
                     (info\<lparr>si_pq_public_key := (case pq_public_key of None \<Rightarrow> [] | Some pq \<Rightarrow> pq)\<rparr>) (cs_stakers s)\<rparr>)
          else
            let s1 = s\<lparr>cs_stakers := fmdrop treasury (cs_stakers s)\<rparr>;
                released = si_stake info in
            if 0 < released then
              let s2 = (case fmlookup (cs_balances s1) STAKING_POOL_ACCOUNT of
                          None \<Rightarrow> s1
                        | Some pool \<Rightarrow>
                            s1\<lparr>cs_balances := fmupd STAKING_POOL_ACCOUNT (sat_sub pool released) (cs_balances s1)\<rparr>) in
              bindR (add_u64 (fmfind 0 (cs_balances s2) treasury) released) (\<lambda>b.
              Inr (s2\<lparr>cs_balances := fmupd treasury b (cs_balances s2)\<rparr>))
            else Inr s1)"

text \<open>The genesis state of a network, from its parameters: shared by construction and replay.\<close>

definition network_genesis ::
  "'x prims_scheme \<Rightarrow> string \<Rightarrow> string \<Rightarrow> string option \<Rightarrow> string option \<Rightarrow> u64 \<Rightarrow> string list \<Rightarrow> bool
   \<Rightarrow> string option \<Rightarrow> chain_state outcome" where
  "network_genesis L chain_id treasury validator_pk vrf_pk supply allowlist require_hybrid pq_pk =
     bindR (genesis_for_chain chain_id treasury validator_pk vrf_pk supply allowlist) (\<lambda>state.
     seat_genesis_validator_pq_key L treasury pq_pk (state\<lparr>cs_require_hybrid_signatures := require_hybrid\<rparr>))"

definition genesis_state :: "'x prims_scheme \<Rightarrow> blockchain \<Rightarrow> chain_state outcome" where
  "genesis_state L c =
     network_genesis L (bc_genesis_chain_id c) (bc_genesis_treasury c) (bc_genesis_validator_public_key c)
       (bc_genesis_validator_vrf_public_key c) (bc_genesis_supply c) (bc_genesis_validator_allowlist c)
       (bc_genesis_require_hybrid_signatures c) (bc_genesis_validator_pq_public_key c)"

definition new_with_genesis_on_chain ::
  "'x node_lib_scheme \<Rightarrow> string \<Rightarrow> u64 \<Rightarrow> string \<Rightarrow> string option \<Rightarrow> string option \<Rightarrow> u64 \<Rightarrow> string list \<Rightarrow> bool
   \<Rightarrow> string option \<Rightarrow> blockchain outcome" where
  "new_with_genesis_on_chain L chain_id difficulty0 treasury validator_pk vrf_pk supply allowlist
     require_hybrid pq_pk =
     (let difficulty = clamp_difficulty difficulty0 in
      bindR (network_genesis L chain_id treasury validator_pk vrf_pk supply allowlist require_hybrid pq_pk) (\<lambda>state.
      bindR (genesis_block L difficulty (state_root L state)) (\<lambda>genesis.
      Inr \<lparr>bc_blocks = [genesis], bc_difficulty = difficulty, bc_finalized_height = 0,
           bc_genesis_treasury = treasury, bc_genesis_validator_public_key = validator_pk,
           bc_genesis_validator_vrf_public_key = vrf_pk, bc_genesis_supply = supply,
           bc_genesis_validator_allowlist = allowlist, bc_genesis_chain_id = chain_id,
           bc_genesis_require_hybrid_signatures = require_hybrid, bc_genesis_validator_pq_public_key = pq_pk,
           bc_state = state, bc_randomness = blk_hash genesis, bc_current_difficulty = difficulty,
           bc_base_height = 0, bc_checkpoint = None\<rparr>)))"

definition new_with_genesis ::
  "'x node_lib_scheme \<Rightarrow> u64 \<Rightarrow> string \<Rightarrow> string option \<Rightarrow> string option \<Rightarrow> u64 \<Rightarrow> string list \<Rightarrow> blockchain outcome" where
  "new_with_genesis L difficulty treasury validator_pk vrf_pk supply allowlist =
     new_with_genesis_on_chain L DEFAULT_CHAIN_ID difficulty treasury validator_pk vrf_pk supply allowlist False None"

definition new_dev_on_chain :: "'x node_lib_scheme \<Rightarrow> string \<Rightarrow> u64 \<Rightarrow> string list \<Rightarrow> blockchain outcome" where
  "new_dev_on_chain L chain_id difficulty allowlist =
     new_with_genesis_on_chain L chain_id difficulty (default_genesis_treasury L)
       (default_genesis_validator_public_key L) (default_genesis_validator_vrf_public_key L)
       DEFAULT_GENESIS_SUPPLY allowlist False None"

definition new_dev_with_allowlist :: "'x node_lib_scheme \<Rightarrow> u64 \<Rightarrow> string list \<Rightarrow> blockchain outcome" where
  "new_dev_with_allowlist L difficulty allowlist = new_dev_on_chain L DEFAULT_CHAIN_ID difficulty allowlist"

definition new_chain :: "'x node_lib_scheme \<Rightarrow> u64 \<Rightarrow> blockchain outcome" where
  "new_chain L difficulty = new_dev_with_allowlist L difficulty []"


section \<open>Replay\<close>

text \<open>
  The loop of \<open>validate_full\<close> over the blocks after the first \<open>done\<close>; a failure carries the
  position of the block.
\<close>

type_synonym tip_view = "chain_state \<times> string \<times> u64"

fun replay_blocks ::
  "'x node_lib_scheme \<Rightarrow> u64 \<Rightarrow> block list \<Rightarrow> tip_view \<Rightarrow> block list \<Rightarrow> (nat \<times> block_error, tip_view) result" where
  "replay_blocks L base done view [] = Inr view"
| "replay_blocks L base done (state, randomness, difficulty) (b # bs) =
     bindR (add_u64 base (as_u64 (length done))) (\<lambda>expected_index.
     bindR (map_err (Pair (length done))
              (validate_block_at L b expected_index (blk_hash (last done)) state randomness
                 (blk_timestamp (last done)) difficulty)) (\<lambda>state'.
     bindR (retarget (done @ [b]) expected_index base difficulty) (\<lambda>difficulty'.
     replay_blocks L base (done @ [b])
       (state',
        next_randomness L randomness (case blk_vrf_output b of None \<Rightarrow> [] | Some v \<Rightarrow> v),
        difficulty') bs)))"

definition replay_root :: "'x node_lib_scheme \<Rightarrow> blockchain \<Rightarrow> block \<Rightarrow> (nat \<times> block_error, tip_view) result" where
  "replay_root L c anchor =
     (case bc_checkpoint c of
        Some cp \<Rightarrow>
          bindR (require (blk_state_root anchor = state_root L (cp_state cp))
                   (0, structural ''Anchor state root does not match checkpoint'')) (\<lambda>_.
          Inr (cp_state cp, cp_randomness cp, cp_difficulty cp))
      | None \<Rightarrow>
          bindR (map_err (\<lambda>e. (0, structural e)) (genesis_state L c)) (\<lambda>g.
          bindR (require (state_root L g = blk_state_root anchor)
                   (0, structural ''Genesis state root does not match network parameters'')) (\<lambda>_.
          Inr (g, blk_hash anchor, bc_difficulty c))))"

definition validate_full :: "'x node_lib_scheme \<Rightarrow> blockchain \<Rightarrow> (nat \<times> block_error, tip_view) result" where
  "validate_full L c =
     (case bc_blocks c of
        [] \<Rightarrow> Inl (Err (0, structural ''Chain is empty''))
      | anchor # rest \<Rightarrow>
          bindR (require (has_valid_pow L anchor \<and> has_valid_merkle_root L anchor)
                   (0, structural ''Root block failed validation'')) (\<lambda>_.
          bindR (require (blk_index anchor = bc_base_height c)
                   (0, structural ''Root block index does not match base height'')) (\<lambda>_.
          bindR (replay_root L c anchor) (\<lambda>view.
          replay_blocks L (bc_base_height c) [anchor] view rest))))"

definition block_failure :: "nat \<times> block_error \<Rightarrow> string" where
  "block_failure e = ''Block '' @ dec_string (fst e) @ '': '' @ be_reason (snd e)"

definition is_valid :: "'x node_lib_scheme \<Rightarrow> blockchain \<Rightarrow> ('e, bool) result" where
  "is_valid L c =
     (case validate_full L c of Inr _ \<Rightarrow> Inr True | Inl (Err _) \<Rightarrow> Inr False | Inl Panic \<Rightarrow> Inl Panic)"

definition rebuild_state :: "'x node_lib_scheme \<Rightarrow> blockchain \<Rightarrow> blockchain outcome" where
  "rebuild_state L c =
     bindR (map_err block_failure (validate_full L c)) (\<lambda>(state, randomness, difficulty).
     Inr (c\<lparr>bc_state := state, bc_randomness := randomness, bc_current_difficulty := difficulty\<rparr>))"

definition validate_report :: "'x node_lib_scheme \<Rightarrow> blockchain \<Rightarrow> ('e, bool \<times> string option) result" where
  "validate_report L c =
     (case validate_full L c of
        Inr _ \<Rightarrow> Inr (True, None)
      | Inl (Err e) \<Rightarrow> Inr (False, Some (block_failure e))
      | Inl Panic \<Rightarrow> Inl Panic)"

definition quick_integrity :: "'x node_lib_scheme \<Rightarrow> blockchain \<Rightarrow> bool" where
  "quick_integrity L c =
     (let bs = bc_blocks c in
      if bs = [] then False
      else blk_state_root (last bs) = state_root L (bc_state c) \<and> has_valid_pow L (last bs)
           \<and> (length bs < 2 \<or> blk_previous_hash (last bs) = blk_hash (bs ! (length bs - 2))))"

text \<open>\<open>now_text\<close> is the current time as text.\<close>

definition evaluate_slash_evidence ::
  "'x node_lib_scheme \<Rightarrow> string \<Rightarrow> blockchain \<Rightarrow> u64 \<Rightarrow> slash_evidence outcome" where
  "evaluate_slash_evidence L now_text c block_index =
     bindR (require (block_index \<noteq> 0) ''Cannot slash genesis block'') (\<lambda>_.
     bindR (if block_index < bc_base_height c then Inl (Err ''Block index out of range'')
            else bindR (next_index c) (\<lambda>n. require (block_index < n) ''Block index out of range'')) (\<lambda>_.
     let local = unat (block_index - bc_base_height c) in
     bindR (require (local \<noteq> 0) ''Cannot evaluate the checkpoint anchor'') (\<lambda>_.
     case validate_full L c of
       Inl Panic \<Rightarrow> Inl Panic
     | Inr _ \<Rightarrow> Inl (Err ''Block does not contain slashable behavior'')
     | Inl (Err (failed_local, e)) \<Rightarrow>
         if failed_local = local \<and> be_slashable e then
           if local < length (bc_blocks c) then
             Inr \<lparr>ev_validator = (case blk_validator (bc_blocks c ! local) of None \<Rightarrow> ''unknown'' | Some v \<Rightarrow> v),
                  ev_reason = be_reason e, ev_timestamp = now_text\<rparr>
           else Inl Panic
         else Inl (Err ''Block does not contain slashable behavior''))))"


section \<open>Fork choice\<close>

text \<open>The loop over the finalized positions.\<close>

fun same_history :: "block list \<Rightarrow> block list \<Rightarrow> nat list \<Rightarrow> unit outcome" where
  "same_history ours theirs [] = Inr ()"
| "same_history ours theirs (i # is) =
     (if length ours \<le> i then Inl Panic
      else bindR (require (i < length theirs \<and> blk_hash (ours ! i) = blk_hash (theirs ! i))
                    ''Candidate chain rewrites finalized history'') (\<lambda>_.
           same_history ours theirs is))"

definition outweighs :: "blockchain \<Rightarrow> blockchain \<Rightarrow> ('e, bool) result" where
  "outweighs candidate c =
     bindR (tip_index c) (\<lambda>our_tip.
     bindR (tip_index candidate) (\<lambda>their_tip.
     if their_tip < our_tip then Inr False
     else if their_tip = our_tip then
       bindR (cumulative_work candidate) (\<lambda>their_work.
       bindR (cumulative_work c) (\<lambda>our_work. Inr (\<not> their_work \<le> our_work)))
     else Inr True))"

text \<open>The chain afterwards, and whether it was replaced.\<close>

definition try_adopt_chain ::
  "'x node_lib_scheme \<Rightarrow> int \<Rightarrow> blockchain \<Rightarrow> blockchain \<Rightarrow> (bool \<times> blockchain) outcome" where
  "try_adopt_chain L now candidate c =
     bindR (require (bc_blocks c \<noteq> []) ''Local chain is empty'') (\<lambda>_.
     bindR (require (bc_blocks candidate \<noteq> []) ''Candidate chain is empty'') (\<lambda>_.
     bindR (require (blk_hash (hd (bc_blocks c)) = blk_hash (hd (bc_blocks candidate))
                     \<and> bc_base_height c = bc_base_height candidate)
              ''Candidate chain has a different root'') (\<lambda>_.
     bindR (sub_u64 (bc_finalized_height c) (bc_base_height c)) (\<lambda>finalized_local.
     bindR (same_history (bc_blocks c) (bc_blocks candidate) [0..<unat finalized_local + 1]) (\<lambda>_.
     bindR (require (blk_timestamp (last (bc_blocks candidate)) \<le> now + seconds MAX_TIMESTAMP_SKEW_SECONDS)
              ''Candidate chain tip timestamp is too far in the future'') (\<lambda>_.
     bindR (outweighs candidate c) (\<lambda>heavier.
     if \<not> heavier then Inr (False, c)
     else let replay0 = c\<lparr>bc_blocks := bc_blocks candidate, bc_finalized_height := bc_base_height c,
                          bc_state := default_chain_state, bc_randomness := []\<rparr> in
          bindR (map_err (\<lambda>e. ''Candidate chain failed replay: '' @ e) (rebuild_state L replay0)) (\<lambda>replay.
          Inr (True, c\<lparr>bc_blocks := bc_blocks replay, bc_state := bc_state replay,
                       bc_randomness := bc_randomness replay,
                       bc_current_difficulty := bc_current_difficulty replay\<rparr>)))))))))"


section \<open>Checkpoints\<close>

definition from_checkpoint ::
  "'x node_lib_scheme \<Rightarrow> u64 \<Rightarrow> string \<Rightarrow> string option \<Rightarrow> string option \<Rightarrow> u64 \<Rightarrow> string list \<Rightarrow> block
   \<Rightarrow> checkpoint_root \<Rightarrow> block list \<Rightarrow> blockchain outcome" where
  "from_checkpoint L difficulty treasury validator_pk vrf_pk supply allowlist anchor checkpoint forward_blocks =
     bindR (require (blk_index anchor mod RETARGET_INTERVAL = 0)
              ''Checkpoint anchor must sit on a retarget boundary'') (\<lambda>_.
     bindR (require (blk_state_root anchor = state_root L (cp_state checkpoint))
              ''Anchor state root does not match the checkpoint state'') (\<lambda>_.
     rebuild_state L
       \<lparr>bc_blocks = anchor # forward_blocks, bc_difficulty = clamp_difficulty difficulty,
        bc_finalized_height = blk_index anchor, bc_genesis_treasury = treasury,
        bc_genesis_validator_public_key = validator_pk, bc_genesis_validator_vrf_public_key = vrf_pk,
        bc_genesis_supply = supply, bc_genesis_validator_allowlist = allowlist,
        bc_genesis_chain_id = cs_chain_id (cp_state checkpoint),
        bc_genesis_require_hybrid_signatures = cs_require_hybrid_signatures (cp_state checkpoint),
        bc_genesis_validator_pq_public_key =
          (case fmlookup (cs_stakers (cp_state checkpoint)) treasury of
             None \<Rightarrow> None
           | Some info \<Rightarrow> if si_pq_public_key info = [] then None else Some (si_pq_public_key info)),
        bc_state = default_chain_state, bc_randomness = [], bc_current_difficulty = cp_difficulty checkpoint,
        bc_base_height = blk_index anchor, bc_checkpoint = Some checkpoint\<rparr>))"

definition export_checkpoint :: "blockchain \<Rightarrow> (block \<times> checkpoint_root) outcome" where
  "export_checkpoint c =
     bindR (tip_index c) (\<lambda>tip.
     bindR (require (tip \<noteq> 0 \<and> tip mod RETARGET_INTERVAL = 0)
              (''Checkpoints can only be exported when the tip height is a positive multiple of ''
               @ show_u64 RETARGET_INTERVAL)) (\<lambda>_.
     bindR (require (bc_blocks c \<noteq> []) ''Chain is empty'') (\<lambda>_.
     Inr (last (bc_blocks c),
          \<lparr>cp_state = bc_state c, cp_randomness = bc_randomness c, cp_difficulty = bc_current_difficulty c\<rparr>))))"

definition export_bundle :: "'x node_lib_scheme \<Rightarrow> blockchain \<Rightarrow> checkpoint_bundle outcome" where
  "export_bundle L c =
     bindR (tip_index c) (\<lambda>tip.
     let boundary = (tip div RETARGET_INTERVAL) * RETARGET_INTERVAL in
     bindR (require (boundary \<noteq> 0) ''Chain is too short to checkpoint'') (\<lambda>_.
     bindR (sub_u64 boundary (bc_base_height c)) (\<lambda>boundary_local.
     bindR (rebuild_state L (c\<lparr>bc_blocks := take (unat boundary_local + 1) (bc_blocks c),
                               bc_finalized_height := bc_base_height c\<rparr>)) (\<lambda>trunc.
     bindR (export_checkpoint trunc) (\<lambda>(anchor, checkpoint).
     if length (bc_blocks c) < unat boundary_local + 1 then Inl Panic
     else Inr \<lparr>cb_difficulty = bc_difficulty c, cb_genesis_treasury = bc_genesis_treasury c,
               cb_genesis_validator_public_key = bc_genesis_validator_public_key c,
               cb_genesis_validator_vrf_public_key = bc_genesis_validator_vrf_public_key c,
               cb_genesis_supply = bc_genesis_supply c,
               cb_genesis_validator_allowlist = bc_genesis_validator_allowlist c,
               cb_genesis_chain_id = bc_genesis_chain_id c, cb_anchor = anchor, cb_checkpoint = checkpoint,
               cb_forward_blocks = drop (unat boundary_local + 1) (bc_blocks c)\<rparr>)))))"

definition from_bundle :: "'x node_lib_scheme \<Rightarrow> checkpoint_bundle \<Rightarrow> blockchain outcome" where
  "from_bundle L bundle =
     from_checkpoint L (cb_difficulty bundle) (cb_genesis_treasury bundle)
       (cb_genesis_validator_public_key bundle) (cb_genesis_validator_vrf_public_key bundle)
       (cb_genesis_supply bundle) (cb_genesis_validator_allowlist bundle) (cb_anchor bundle)
       (cb_checkpoint bundle) (cb_forward_blocks bundle)"


section \<open>Replaying in parts\<close>

text \<open>What a chain caches about its tip is what replaying its blocks yields.\<close>

definition in_sync :: "'x node_lib_scheme \<Rightarrow> blockchain \<Rightarrow> bool" where
  "in_sync L c \<longleftrightarrow> validate_full L c = Inr (bc_state c, bc_randomness c, bc_current_difficulty c)"

declare replay_blocks.simps(2) [simp del]

lemma bindR_assoc: "bindR (bindR m f) g = bindR m (\<lambda>x. bindR (f x) g)"
  by (cases m) simp_all

lemma replay_blocks_append:
  "replay_blocks L base pre v (xs @ ys)
   = bindR (replay_blocks L base pre v xs) (\<lambda>w. replay_blocks L base (pre @ xs) w ys)"
proof (induction xs arbitrary: pre v)
  case (Cons x xs)
  obtain s r d where v: "v = (s, r, d)" by (cases v)
  show ?case
    by (simp only: v append_Cons replay_blocks.simps(2) bindR_assoc Cons append_assoc append_Nil)
qed simp

lemma replay_root_updates [simp]:
  "replay_root L (c\<lparr>bc_blocks := x1\<rparr>) = replay_root L c"
  "replay_root L (c\<lparr>bc_state := x2\<rparr>) = replay_root L c"
  "replay_root L (c\<lparr>bc_randomness := x3\<rparr>) = replay_root L c"
  "replay_root L (c\<lparr>bc_current_difficulty := x4\<rparr>) = replay_root L c"
  "replay_root L (c\<lparr>bc_finalized_height := x5\<rparr>) = replay_root L c"
  by (auto simp: replay_root_def genesis_state_def fun_eq_iff split: option.split)

lemma validate_full_updates [simp]:
  "validate_full L (c\<lparr>bc_state := x2\<rparr>) = validate_full L c"
  "validate_full L (c\<lparr>bc_randomness := x3\<rparr>) = validate_full L c"
  "validate_full L (c\<lparr>bc_current_difficulty := x4\<rparr>) = validate_full L c"
  "validate_full L (c\<lparr>bc_finalized_height := x5\<rparr>) = validate_full L c"
  by (cases "bc_blocks c"; simp add: validate_full_def)+

lemma validate_full_ok:
  "validate_full L c = Inr v \<longleftrightarrow>
     (\<exists>anchor rest root. bc_blocks c = anchor # rest \<and> has_valid_pow L anchor \<and> has_valid_merkle_root L anchor
        \<and> blk_index anchor = bc_base_height c \<and> replay_root L c anchor = Inr root
        \<and> replay_blocks L (bc_base_height c) [anchor] root rest = Inr v)"
  by (cases "bc_blocks c") (auto simp: validate_full_def exec_ok)

lemma rebuild_state_ok:
  "rebuild_state L c = Inr c' \<longleftrightarrow>
     (\<exists>s r d. validate_full L c = Inr (s, r, d)
        \<and> c' = c\<lparr>bc_state := s, bc_randomness := r, bc_current_difficulty := d\<rparr>)"
  by (auto simp: rebuild_state_def exec_ok)

lemma rebuild_state_in_sync: "rebuild_state L c = Inr c' \<Longrightarrow> in_sync L c'"
  by (auto simp: rebuild_state_ok in_sync_def)

text \<open>The schedule's result does not depend on the type of the errors it cannot raise.\<close>

lemma schedule_cast:
  "(if A then Inr d else if B then bindR (add_u64 d 1) (\<lambda>h. Inr (f h)) else if C then Inr e else Inr d)
     = (Inr x :: ('e, u64) result) \<Longrightarrow>
   (if A then Inr d else if B then bindR (add_u64 d 1) (\<lambda>h. Inr (f h)) else if C then Inr e else Inr d)
     = (Inr x :: ('f, u64) result)"
  by (auto simp: exec_ok split: if_splits)

lemma adjusted_difficulty_cast:
  "adjusted_difficulty d w = (Inr x :: ('e, u64) result) \<Longrightarrow> adjusted_difficulty d w = (Inr x :: ('f, u64) result)"
  unfolding adjusted_difficulty_def Let_def by (rule schedule_cast)

lemma retarget_cast:
  assumes "retarget bs p b d = (Inr x :: ('e, u64) result)"
  shows "retarget bs p b d = (Inr x :: ('f, u64) result)"
  using assms unfolding retarget_def Let_def bindR_ok add_u64_ok
  by (auto split: if_splits intro: adjusted_difficulty_cast)

lemma replay_blocks_cons_ok:
  "replay_blocks L base pre (s, r, d) (b # bs) = Inr v \<longleftrightarrow>
     (\<exists>s' d'. unat base + unat (as_u64 (length pre)) < 2 ^ 64
        \<and> validate_block_at L b (base + as_u64 (length pre)) (blk_hash (last pre)) s r (blk_timestamp (last pre)) d
            = Inr s'
        \<and> retarget (pre @ [b]) (base + as_u64 (length pre)) base d = (Inr d' :: (nat \<times> block_error, u64) result)
        \<and> replay_blocks L base (pre @ [b])
            (s', next_randomness L r (case blk_vrf_output b of None \<Rightarrow> [] | Some v \<Rightarrow> v), d') bs = Inr v)"
  unfolding replay_blocks.simps(2) bindR_ok map_err_ok add_u64_ok by blast


section \<open>A new chain, and a chain that grows\<close>

lemma new_chain_in_sync:
  assumes "new_with_genesis_on_chain L cid d tr vk vrf amount al hyb pq = Inr c"
  shows "in_sync L c"
proof -
  let ?d = "clamp_difficulty d"
  obtain g b where g: "network_genesis L cid tr vk vrf amount al hyb pq = Inr g"
    and b: "genesis_block L ?d (state_root L g) = Inr b"
    and c: "c = \<lparr>bc_blocks = [b], bc_difficulty = ?d, bc_finalized_height = 0,
           bc_genesis_treasury = tr, bc_genesis_validator_public_key = vk,
           bc_genesis_validator_vrf_public_key = vrf, bc_genesis_supply = amount,
           bc_genesis_validator_allowlist = al, bc_genesis_chain_id = cid,
           bc_genesis_require_hybrid_signatures = hyb, bc_genesis_validator_pq_public_key = pq,
           bc_state = g, bc_randomness = blk_hash b, bc_current_difficulty = ?d,
           bc_base_height = 0, bc_checkpoint = None\<rparr>"
    using assms by (auto simp: new_with_genesis_on_chain_def exec_ok Let_def)
  note n = b [unfolded genesis_block_def]
  have "has_valid_pow L b \<and> has_valid_merkle_root L b" using new_at_valid [OF n] by simp
  moreover have "blk_index b = 0" "blk_state_root b = state_root L g" using new_at_fields [OF n] by simp_all
  ultimately show ?thesis
    by (simp add: in_sync_def validate_full_ok c replay_root_def genesis_state_def g)
qed

lemma as_u64_Suc: "as_u64 (Suc n) = as_u64 n + 1"
  by (simp add: as_u64_def)

lemma tip_of_extended:
  assumes "tip_index (c\<lparr>bc_blocks := bs @ [b]\<rparr>) = Inr t" "length bs < 2 ^ 63"
  shows "t = bc_base_height c + as_u64 (length bs)"
proof -
  have fits: "unat (bc_base_height c) + unat (as_u64 (Suc (length bs))) < 2 ^ 64"
    and t: "t = sat_sub (bc_base_height c + as_u64 (Suc (length bs))) 1"
    using assms(1) by (auto simp: tip_index_def next_index_def exec_ok)
  have "unat (as_u64 (Suc (length bs))) = Suc (length bs)" using assms(2) by (intro unat_as_u64_small) simp
  then have "unat (bc_base_height c + as_u64 (Suc (length bs))) \<ge> 1" using fits by (simp add: unat_plus)
  then have "1 \<le> bc_base_height c + as_u64 (Suc (length bs))" by (simp add: word_le_nat_alt)
  then show ?thesis unfolding t sat_sub_def by (simp add: as_u64_Suc)
qed

text \<open>Committing a block that was validated at the tip keeps the cache right.\<close>

lemma commit_in_sync:
  assumes sync: "in_sync L c" and valid: "validate_block_candidate L now c b = Inr post"
    and commit: "commit_block L b post c = (Inr c' :: ('e, blockchain) result)"
    and len: "length (bc_blocks c) < 2 ^ 63"
  shows "in_sync L c'"
proof -
  obtain anchor rest root where c: "bc_blocks c = anchor # rest" and a: "has_valid_pow L anchor"
    "has_valid_merkle_root L anchor" "blk_index anchor = bc_base_height c" "replay_root L c anchor = Inr root"
    and r: "replay_blocks L (bc_base_height c) [anchor] root rest
      = Inr (bc_state c, bc_randomness c, bc_current_difficulty c)"
    using sync by (auto simp: in_sync_def validate_full_ok)
  let ?i = "bc_base_height c + as_u64 (length (bc_blocks c))"
  let ?rnd = "next_randomness L (bc_randomness c) (case blk_vrf_output b of None \<Rightarrow> [] | Some v \<Rightarrow> v)"
  have i: "unat (bc_base_height c) + unat (as_u64 (length (bc_blocks c))) < 2 ^ 64"
    and v: "validate_block_at L b ?i (blk_hash (last (bc_blocks c))) (bc_state c) (bc_randomness c)
      (blk_timestamp (last (bc_blocks c))) (bc_current_difficulty c) = Inr post"
    using valid by (auto simp: validate_block_candidate_ok next_index_def exec_ok latest_hash_def)
  let ?c1 = "c\<lparr>bc_randomness := ?rnd, bc_blocks := bc_blocks c @ [b], bc_state := post\<rparr>"
  obtain t d where t: "tip_index ?c1 = (Inr t :: ('e, u64) result)"
    and d: "retarget (bc_blocks c @ [b]) t (bc_base_height c) (bc_current_difficulty c) = (Inr d :: ('e, u64) result)"
    and c': "c' = ?c1\<lparr>bc_current_difficulty := d\<rparr>"
    using commit unfolding commit_block_def Let_def bindR_ok by auto
  have "t = ?i"
    using tip_of_extended [where c = "c\<lparr>bc_randomness := ?rnd, bc_state := post\<rparr>" and bs = "bc_blocks c"
        and b = b and t = t] t len
    by (simp add: tip_index_def next_index_def)
  then have "retarget (bc_blocks c @ [b]) ?i (bc_base_height c) (bc_current_difficulty c)
      = (Inr d :: (nat \<times> block_error, u64) result)"
    using retarget_cast [OF d] by simp
  then have "replay_blocks L (bc_base_height c) (bc_blocks c) (bc_state c, bc_randomness c, bc_current_difficulty c) [b]
      = Inr (post, ?rnd, d)"
    using i v by (simp add: replay_blocks_cons_ok)
  then have "replay_blocks L (bc_base_height c) [anchor] root (rest @ [b]) = Inr (post, ?rnd, d)"
    using r c by (simp add: replay_blocks_append)
  then show ?thesis
    using a c by (cases root) (simp add: in_sync_def validate_full_ok c')
qed



section \<open>Fork choice, proved\<close>

lemma bindR_guard:
  "bindR (require b e) f = Inr y \<longleftrightarrow> b \<and> f () = Inr y"
  "bindR (sub_u64 x z) g = Inr y \<longleftrightarrow> z \<le> x \<and> g (x - z) = Inr y"
  "bindR m f = Inr y \<longleftrightarrow> m = Inr () \<and> f () = Inr y"
  by (auto simp: bindR_ok sub_u64_ok require_ok)

lemma same_history_ok:
  "same_history ours theirs is = Inr u \<longleftrightarrow>
     (\<forall>i\<in>set is. i < length ours \<and> i < length theirs \<and> blk_hash (ours ! i) = blk_hash (theirs ! i))"
  by (induction "is") (auto simp: exec_ok)

lemma try_adopt_chain_ok:
  "try_adopt_chain L now candidate c = Inr (adopted, c') \<longleftrightarrow>
     bc_blocks c \<noteq> [] \<and> bc_blocks candidate \<noteq> []
     \<and> blk_hash (hd (bc_blocks c)) = blk_hash (hd (bc_blocks candidate))
     \<and> bc_base_height c = bc_base_height candidate
     \<and> bc_base_height c \<le> bc_finalized_height c
     \<and> (\<forall>i \<le> unat (bc_finalized_height c - bc_base_height c).
           i < length (bc_blocks c) \<and> i < length (bc_blocks candidate)
           \<and> blk_hash (bc_blocks c ! i) = blk_hash (bc_blocks candidate ! i))
     \<and> blk_timestamp (last (bc_blocks candidate)) \<le> now + seconds MAX_TIMESTAMP_SKEW_SECONDS
     \<and> outweighs candidate c = (Inr adopted :: bool outcome)
     \<and> (if adopted
        then \<exists>s r d. validate_full L (c\<lparr>bc_blocks := bc_blocks candidate\<rparr>) = Inr (s, r, d)
               \<and> c' = c\<lparr>bc_blocks := bc_blocks candidate, bc_state := s, bc_randomness := r,
                       bc_current_difficulty := d\<rparr>
        else c' = c)"
  unfolding try_adopt_chain_def Let_def bindR_guard same_history_ok require_ok
  by (cases adopted) (auto simp: less_Suc_eq_le rebuild_state_ok map_err_ok bindR_ok simp del: upt_Suc)

lemma adopted_in_sync: "try_adopt_chain L now candidate c = Inr (True, c') \<Longrightarrow> in_sync L c'"
  by (auto simp: try_adopt_chain_ok in_sync_def)


section \<open>Soundness of every replayed state\<close>

text \<open>The rewards of \<open>n\<close> blocks from height \<open>h\<close> on.\<close>

definition emission :: "nat \<Rightarrow> nat \<Rightarrow> nat" where
  "emission h n = (\<Sum>j<n. reward_nat (h + j))"

lemma emission_Suc: "emission h (Suc n) = reward_nat h + emission (Suc h) n"
  by (simp add: emission_def sum.lessThan_Suc_shift del: sum.lessThan_Suc)

lemma emission_from_genesis: "emission 1 n \<le> 70300000000000000 + n * 50000000"
  using reward_sum_bound [of n] by (simp add: emission_def add.commute)

lemma uint_block_reward: "uint (block_reward h) = int (reward_nat (unat h))"
  by (simp flip: unat_block_reward)

lemma replay_sound:
  assumes "replay_blocks L base pre (s, r, d) bs = Inr (t, r', d')" "sound s"
    and "length pre + length bs < 2 ^ 63"
    and "uint (cs_total_supply s) + int (emission (unat base + length pre) (length bs)) < 2 ^ 64"
  shows "sound t \<and> uint (cs_total_supply t)
      \<le> uint (cs_total_supply s) + int (emission (unat base + length pre) (length bs))"
  using assms
proof (induction bs arbitrary: pre s r d)
  case Nil
  then show ?case by (simp add: emission_def)
next
  case (Cons b bs)
  obtain u e where fits: "unat base + unat (as_u64 (length pre)) < 2 ^ 64"
    and v: "validate_block_at L b (base + as_u64 (length pre)) (blk_hash (last pre)) s r (blk_timestamp (last pre)) d = Inr u"
    and rest: "replay_blocks L base (pre @ [b])
        (u, next_randomness L r (case blk_vrf_output b of None \<Rightarrow> [] | Some v \<Rightarrow> v), e) bs = Inr (t, r', d')"
    using Cons.prems(1) unfolding replay_blocks_cons_ok by blast
  have n: "unat (as_u64 (length pre)) = length pre" using Cons.prems(3) by (intro unat_as_u64_small) simp
  then have i: "unat (base + as_u64 (length pre)) = unat base + length pre" using fits by (simp add: unat_plus)
  let ?h = "unat base + length pre"
  have em: "int (emission ?h (length (b # bs))) = int (reward_nat ?h) + int (emission (Suc ?h) (length bs))"
    by (simp add: emission_Suc)
  then have room: "uint (cs_total_supply s) + uint (block_reward (base + as_u64 (length pre))) < 2 ^ 64"
    using Cons.prems(4) by (simp add: uint_block_reward i)
  note step = validate_block_at_sound [OF v Cons.prems(2) room]
  have up: "uint (cs_total_supply u) \<le> uint (cs_total_supply s) + int (reward_nat ?h)"
    using step by (simp add: uint_block_reward i)
  have "sound t \<and> uint (cs_total_supply t)
      \<le> uint (cs_total_supply u) + int (emission (unat base + length (pre @ [b])) (length bs))"
    by (rule Cons.IH [OF rest]) (use step up Cons.prems(3,4) em in simp_all)
  then show ?case using up em by simp
qed

lemma replay_evolves: "replay_blocks L base pre (s, r, d) bs = Inr (t, r', d') \<Longrightarrow> evolves s t"
proof (induction bs arbitrary: pre s r d)
  case (Cons b bs)
  then obtain u e r'' where "validate_block_at L b (base + as_u64 (length pre)) (blk_hash (last pre)) s r
      (blk_timestamp (last pre)) d = Inr u"
    "replay_blocks L base (pre @ [b]) (u, r'', e) bs = Inr (t, r', d')"
    unfolding replay_blocks_cons_ok by blast
  then show ?case using Cons.IH validate_block_at_evolves evolves_trans by blast
qed simp

end
