(* ===== verification/Peers.thy ===== *)
theory Peers
  imports Ledger
begin

text \<open>
  What a node knows about its peers: reputation and bans (\<open>src/src/p2p/peerbook.rs\<close>), signed
  envelopes and the cache of seen messages (\<open>protocol.rs\<close>), and the envelopes a node sends
  (\<open>service.rs\<close>; the HTTP client it hands them to is not part of the repository).
\<close>


section \<open>Reputation (peerbook.rs)\<close>

text \<open>
  Scores are \<open>i64\<close>; they stay between \<open>-50\<close> and \<open>50\<close> (proved below), so the additions cannot overflow
  and are written over \<^typ>\<open>int\<close>. Every read of the clock is an argument.
\<close>

definition INITIAL_SCORE :: int where "INITIAL_SCORE = 0"
definition BAN_THRESHOLD :: int where "BAN_THRESHOLD = -10"
definition GOOD_DELTA :: int where "GOOD_DELTA = 1"
definition BAD_DELTA :: int where "BAD_DELTA = -4"
definition BAN_SECONDS :: u64 where "BAN_SECONDS = 600"
definition SCORE_MIN :: int where "SCORE_MIN = -50"
definition SCORE_MAX :: int where "SCORE_MAX = 50"

record peer_record =
  pr_node_id :: string
  pr_score :: int
  pr_good :: u64
  pr_bad :: u64
  pr_banned_until :: u64

record peer_book =
  pb_peers :: "(string, peer_record) fmap"
  pb_allow_list :: "string fset"

definition new_peer_book :: peer_book where
  "new_peer_book = \<lparr>pb_peers = fmempty, pb_allow_list = {||}\<rparr>"

definition with_allow_list :: "string fset \<Rightarrow> peer_book" where
  "with_allow_list allow_list = \<lparr>pb_peers = fmempty, pb_allow_list = allow_list\<rparr>"

definition has_allow_list :: "peer_book \<Rightarrow> bool" where
  "has_allow_list book \<longleftrightarrow> pb_allow_list book \<noteq> {||}"

definition peer_entry :: "peer_book \<Rightarrow> string \<Rightarrow> peer_record" where
  "peer_entry book node_id =
     fmfind \<lparr>pr_node_id = node_id, pr_score = INITIAL_SCORE, pr_good = 0, pr_bad = 0, pr_banned_until = 0\<rparr>
       (pb_peers book) node_id"

definition is_accepted :: "u64 \<Rightarrow> peer_book \<Rightarrow> string \<Rightarrow> bool" where
  "is_accepted now book node_id =
     (if has_allow_list book \<and> node_id |\<notin>| pb_allow_list book then False
      else case fmlookup (pb_peers book) node_id of
             Some record \<Rightarrow> pr_banned_until record \<le> now
           | None \<Rightarrow> True)"

definition record_good :: "string \<Rightarrow> peer_book \<Rightarrow> ('e, peer_book) result" where
  "record_good node_id book =
     (let record = peer_entry book node_id in
      bindR (add_u64 (pr_good record) 1) (\<lambda>good.
      Inr (book\<lparr>pb_peers := fmupd node_id
        (record\<lparr>pr_good := good, pr_score := min (pr_score record + GOOD_DELTA) SCORE_MAX\<rparr>) (pb_peers book)\<rparr>)))"

text \<open>
  Whether the peer is now banned, and the book; \<open>now\<close> and \<open>now'\<close> are the two clock readings.
  Integer division rounds towards zero: \<open>BAN_THRESHOLD / 2\<close> is -5.
\<close>

definition record_bad :: "u64 \<Rightarrow> u64 \<Rightarrow> string \<Rightarrow> peer_book \<Rightarrow> ('e, bool \<times> peer_book) result" where
  "record_bad now now' node_id book =
     (let record = peer_entry book node_id in
      bindR (add_u64 (pr_bad record) 1) (\<lambda>bad.
      let score = max (pr_score record + BAD_DELTA) SCORE_MIN;
          record = record\<lparr>pr_bad := bad, pr_score := score\<rparr> in
      if score \<le> BAN_THRESHOLD \<and> pr_banned_until record \<le> now then
        bindR (add_u64 now' BAN_SECONDS) (\<lambda>until.
        Inr (True, book\<lparr>pb_peers := fmupd node_id
          (record\<lparr>pr_banned_until := until, pr_score := - ((- BAN_THRESHOLD) div 2)\<rparr>) (pb_peers book)\<rparr>))
      else Inr (False, book\<lparr>pb_peers := fmupd node_id record (pb_peers book)\<rparr>)))"

definition is_banned :: "u64 \<Rightarrow> peer_book \<Rightarrow> string \<Rightarrow> bool" where
  "is_banned now book node_id =
     (case fmlookup (pb_peers book) node_id of None \<Rightarrow> False | Some r \<Rightarrow> now < pr_banned_until r)"

text \<open>\<open>snapshot\<close>: by falling score, then by identifier.\<close>

definition snapshot :: "peer_book \<Rightarrow> peer_record list" where
  "snapshot book =
     sort_key (\<lambda>r. - pr_score r)
       (sort_key pr_node_id (map (\<lambda>k. the (fmlookup (pb_peers book) k)) (keys_of (pb_peers book))))"


section \<open>Seen messages (protocol.rs)\<close>

record seen_cache =
  sc_seen :: "string fset"
  sc_order :: "string list"
  sc_capacity :: nat

definition new_seen_cache :: "nat \<Rightarrow> seen_cache" where
  "new_seen_cache capacity = \<lparr>sc_seen = {||}, sc_order = [], sc_capacity = max capacity 1\<rparr>"

text \<open>False when the message is a replay.\<close>

definition seen_insert :: "string \<Rightarrow> seen_cache \<Rightarrow> bool \<times> seen_cache" where
  "seen_insert message_id cache =
     (if message_id |\<in>| sc_seen cache then (False, cache)
      else let cache1 =
             (if sc_capacity cache \<le> length (sc_order cache)
              then (case sc_order cache of
                      [] \<Rightarrow> cache
                    | evicted # rest \<Rightarrow>
                        cache\<lparr>sc_order := rest, sc_seen := sc_seen cache |-| {|evicted|}\<rparr>)
              else cache)
           in (True, cache1\<lparr>sc_seen := finsert message_id (sc_seen cache1),
                            sc_order := sc_order cache1 @ [message_id]\<rparr>))"


section \<open>Envelopes (protocol.rs)\<close>

definition P2P_PROTOCOL_VERSION :: string where
  "P2P_PROTOCOL_VERSION = ''hikmalayer-p2p/1''"

datatype p2p_payload =
  Ping
| PeerAnnounce string
| BlockMsg block
| BlockBatch "block list"
| TransactionMsg transaction

record envelope =
  en_protocol_version :: string
  en_node_id :: string
  en_message_id :: string
  en_timestamp :: int
  en_payload :: p2p_payload
  en_node_public_key :: "string option"
  en_signature :: "string option"

text \<open>\<open>serde_json::to_string\<close> of a payload, with \<open>unwrap_or_default\<close>.\<close>

record net_lib = node_lib +
  payload_print :: "p2p_payload \<Rightarrow> string"

text \<open>\<open>P2PEnvelope::new\<close>, with the fresh identifier and the time as arguments.\<close>

definition new_envelope :: "string \<Rightarrow> int \<Rightarrow> string \<Rightarrow> p2p_payload \<Rightarrow> envelope" where
  "new_envelope uuid now node_id payload =
     \<lparr>en_protocol_version = P2P_PROTOCOL_VERSION, en_node_id = node_id, en_message_id = uuid,
      en_timestamp = now, en_payload = payload, en_node_public_key = None, en_signature = None\<rparr>"

definition signing_digest :: "'x net_lib_scheme \<Rightarrow> envelope \<Rightarrow> string" where
  "signing_digest L e =
     lower_hex L (sha256 L
       (en_protocol_version e @ ''|'' @ en_node_id e @ ''|'' @ en_message_id e @ ''|''
        @ time_rfc3339 L (en_timestamp e) @ ''|'' @ payload_print L (en_payload e)))"

definition signed :: "'x net_lib_scheme \<Rightarrow> string \<Rightarrow> envelope \<Rightarrow> envelope outcome" where
  "signed L private_key_hex e =
     bindR (derive_public_key L private_key_hex) (\<lambda>public_key.
     bindR (derive_address L public_key) (\<lambda>node_id.
     let e1 = e\<lparr>en_node_id := node_id\<rparr> in
     bindR (sign_message L (signing_digest L e1) private_key_hex) (\<lambda>signature.
     Inr (e1\<lparr>en_node_public_key := Some public_key, en_signature := Some signature\<rparr>))))"

definition verify_identity :: "'x net_lib_scheme \<Rightarrow> envelope \<Rightarrow> unit outcome" where
  "verify_identity L e =
     bindR (ok_or (en_node_public_key e) ''Envelope missing node public key'') (\<lambda>public_key.
     bindR (ok_or (en_signature e) ''Envelope missing node signature'') (\<lambda>signature.
     bindR (derive_address L public_key) (\<lambda>derived.
     bindR (require (derived = en_node_id e) ''Envelope node_id does not match node public key'') (\<lambda>_.
     require (verify_message L (signing_digest L e) public_key signature)
       ''Envelope signature verification failed''))))"

text \<open>Whole seconds of a difference of times in nanoseconds, rounded towards zero.\<close>

definition skew_seconds :: "int \<Rightarrow> int \<Rightarrow> int" where
  "skew_seconds now t = \<bar>now - t\<bar> div 1000000000"

definition show_int :: "int \<Rightarrow> string" where
  "show_int i = (if i < 0 then ''-'' @ dec_string (nat (- i)) else dec_string (nat i))"

definition validate_with_identity :: "'x net_lib_scheme \<Rightarrow> int \<Rightarrow> envelope \<Rightarrow> int \<Rightarrow> bool \<Rightarrow> unit outcome" where
  "validate_with_identity L now e max_clock_skew_seconds require_identity =
     bindR (require (en_protocol_version e = P2P_PROTOCOL_VERSION) ''Unsupported P2P protocol version'') (\<lambda>_.
     bindR (require (\<not> blank (en_node_id e)) ''Missing node_id in P2P envelope'') (\<lambda>_.
     bindR (require (\<not> blank (en_message_id e)) ''Missing message_id in P2P envelope'') (\<lambda>_.
     bindR (require (skew_seconds now (en_timestamp e) \<le> max_clock_skew_seconds)
              (''P2P envelope timestamp exceeds allowed skew ('' @ show_int max_clock_skew_seconds @ ''s)'')) (\<lambda>_.
     if require_identity \<or> en_signature e \<noteq> None then verify_identity L e else Inr ()))))"

definition validate_envelope :: "'x net_lib_scheme \<Rightarrow> int \<Rightarrow> envelope \<Rightarrow> int \<Rightarrow> unit outcome" where
  "validate_envelope L now e max_clock_skew_seconds = validate_with_identity L now e max_clock_skew_seconds False"


section \<open>The sending side (service.rs)\<close>

record p2p_service =
  sv_node_id :: string
  sv_p2p_token :: "string option"
  sv_node_private_key :: "string option"
  sv_max_retries :: nat

text \<open>Building the HTTP client, which can fail, is left out.\<close>

definition with_identity :: "'x prims_scheme \<Rightarrow> string \<Rightarrow> string option \<Rightarrow> string option \<Rightarrow> p2p_service outcome" where
  "with_identity L node_id p2p_token node_private_key =
     bindR (case node_private_key of
              Some key \<Rightarrow> bindR (derive_public_key L key) (derive_address L)
            | None \<Rightarrow> Inr node_id) (\<lambda>node_id.
     Inr \<lparr>sv_node_id = node_id, sv_p2p_token = p2p_token, sv_node_private_key = node_private_key,
          sv_max_retries = 2\<rparr>)"

text \<open>A failed signature falls back to an unsigned ping with a fresh identifier and time.\<close>

definition finalize_envelope :: "'x net_lib_scheme \<Rightarrow> string \<Rightarrow> int \<Rightarrow> p2p_service \<Rightarrow> envelope \<Rightarrow> ('e, envelope) result" where
  "finalize_envelope L uuid now service e =
     (case sv_node_private_key service of
        Some key \<Rightarrow> (case signed L key e of
                       Inr e' \<Rightarrow> Inr e'
                     | Inl (Err _) \<Rightarrow> Inr (new_envelope uuid now (sv_node_id service) Ping)
                     | Inl Panic \<Rightarrow> Inl Panic)
      | None \<Rightarrow> Inr e)"

text \<open>
  \<open>send_with_retry\<close>: \<open>sends\<close> answers one attempt, given its number; attempts run from 0 to the
  maximum and stop at the first success. Broadcasting counts successes and failures.
\<close>

definition send_with_retry :: "p2p_service \<Rightarrow> (nat \<Rightarrow> bool) \<Rightarrow> bool" where
  "send_with_retry service sends = list_ex sends [0..<sv_max_retries service + 1]"

fun broadcast :: "p2p_service \<Rightarrow> (string \<Rightarrow> nat \<Rightarrow> bool) \<Rightarrow> string list \<Rightarrow> u64 \<times> u64 \<Rightarrow> ('e, u64 \<times> u64) result" where
  "broadcast service sends [] counts = Inr counts"
| "broadcast service sends (peer # peers) (sent, failed) =
     (if send_with_retry service (sends peer)
      then bindR (add_u64 sent 1) (\<lambda>sent. broadcast service sends peers (sent, failed))
      else bindR (add_u64 failed 1) (\<lambda>failed. broadcast service sends peers (sent, failed)))"

end
