(* ===== verification/Samples.thy ===== *)
theory Samples
  imports Replay Peers
begin

text \<open>
  A concrete library for the worked instances: the hexadecimal coding is the real one, the
  digest is a constant 32 bytes and every signature verifies. Applying a theorem to it shows
  that its hypotheses can hold together; nothing is proved about the real library here.
\<close>

fun to_hex :: "string \<Rightarrow> string" where
  "to_hex [] = []"
| "to_hex (c # cs) = hex_digit (of_char c div 16) # hex_digit (of_char c mod 16) # to_hex cs"

definition from_hex_digit :: "char \<Rightarrow> nat" where
  "from_hex_digit c = (let n = of_char c in if n < 58 then n - 48 else n - 87)"

fun from_hex :: "string \<Rightarrow> string + string" where
  "from_hex [] = Inr []"
| "from_hex [c] = Inl ''Odd number of digits''"
| "from_hex (c # d # cs) =
     (case from_hex cs of Inl e \<Rightarrow> Inl e
      | Inr r \<Rightarrow> Inr (char_of (16 * from_hex_digit c + from_hex_digit d) # r))"

lemma from_hex_digit_hex: "n < 16 \<Longrightarrow> from_hex_digit (hex_digit n) = n"
  by (simp add: from_hex_digit_def hex_digit_def Let_def)

lemma from_hex_to_hex: "from_hex (to_hex s) = Inr s"
proof (induction s)
  case (Cons c s)
  have "(of_char c :: nat) < 256" by simp
  then show ?case using Cons by (simp add: from_hex_digit_hex less_mult_imp_div_less)
qed simp

definition zero_digest :: string where
  "zero_digest = replicate 32 (CHR 0x00)"

text \<open>Transactions are parsed from a table of texts.\<close>

definition sample_lib :: "(string \<rightharpoonup> transaction) \<Rightarrow> net_lib" where
  "sample_lib table =
     \<lparr>sha256 = (\<lambda>_. zero_digest), lower_hex = to_hex, hex_encode = to_hex, hex_decode = from_hex,
      secp_point = Inr, secp_message = Inr, secp_compact = Inr, secp_verify = (\<lambda>_ _ _. True),
      secp_secret = Inr, secp_public = (\<lambda>k. k), secp_sign = (\<lambda>m k. m),
      mldsa_keygen = (\<lambda>_. Inr ([], [])), mldsa_key = Some, mldsa_sign = (\<lambda>_ _ m _. Inr m),
      mldsa_verify = (\<lambda>_ _ _ _. True), sr_secret = Inr, sr_public = (\<lambda>k. k),
      sr_vrf_sign = (\<lambda>_ _ m. (m, m)), sr_key = Some, sr_preout = Some, sr_proof = Some,
      sr_vrf_verify = (\<lambda>_ _ _ _ _. True), debug_wide = (\<lambda>s. s), time_debug = (\<lambda>_. ''t''),
      time_rfc3339 = (\<lambda>_. ''t''), tx_parse = table, tx_print = tx_id, state_print = (\<lambda>_. []),
      payload_print = (\<lambda>_. [])\<rparr>"

lemma sample_lib_simps [simp]:
  "sha256 (sample_lib tb) = (\<lambda>_. zero_digest)" "lower_hex (sample_lib tb) = to_hex"
  "hex_encode (sample_lib tb) = to_hex" "hex_decode (sample_lib tb) = from_hex"
  "tx_parse (sample_lib tb) = tb"
  by (simp_all add: sample_lib_def)

lemma hex_digit_0: "hex_digit 0 = CHR ''0''"
  by code_simp

lemma to_hex_replicate: "to_hex (replicate n (CHR 0x00)) = replicate (2 * n) CHR ''0''"
  by (induction n) (simp_all add: hex_digit_0)

lemma to_hex_zero: "to_hex zero_digest = replicate 64 CHR ''0''"
  by (simp add: zero_digest_def to_hex_replicate)

text \<open>Two accounts, a treasury and a customer.\<close>

definition treasury :: string where "treasury = ''hkm'' @ replicate 40 CHR ''0''"
definition customer :: string where "customer = ''hkm'' @ replicate 40 CHR ''1''"

lemma scheme_of_samples [simp]: "scheme_of treasury = Some Classical" "scheme_of customer = Some Classical"
  by (simp_all add: treasury_def customer_def scheme_of_cases hex_lower_char_def numeral_eq_Suc)

lemma sample_accounts [simp]: "treasury \<noteq> customer" "customer \<noteq> treasury"
  by (simp_all add: treasury_def customer_def)

lemma samples_external [simp]: "\<not> internal_account treasury" "\<not> internal_account customer"
  by (rule address_not_internal; simp)+

text \<open>A state with one funded account.\<close>

definition funded :: "u64 \<Rightarrow> chain_state" where
  "funded n = default_chain_state\<lparr>cs_balances := fmupd treasury n fmempty, cs_total_supply := n, cs_base_fee := TX_FEE\<rparr>"

lemma funded_fields [simp]:
  "balance_of (funded n) a = (if a = treasury then n else 0)" "nonce_of (funded n) a = 0"
  "cs_base_fee (funded n) = 1000" "cs_fee_pot (funded n) = 0" "cs_chain_id (funded n) = []"
  "cs_total_supply (funded n) = n" "cs_require_hybrid_signatures (funded n) = False"
  "cs_stakers (funded n) = fmempty" "cs_unbonding (funded n) = fmempty" "cs_vesting (funded n) = fmempty"
  "cs_tokens (funded n) = fmempty" "cs_pools (funded n) = fmempty" "cs_slashed_offenses (funded n) = fmempty"
  "cs_lp_shares (funded n) = fmempty" "cs_token_balances (funded n) = fmempty"
  by (auto simp: funded_def default_chain_state_def balance_of_def nonce_of_def fmfind_def fee_bounds_value)

lemma funded_sound: "sound (funded n)"
proof -
  have "hkm_total (funded n) = uint n"
    by (simp add: hkm_total_def funded_def default_chain_state_def ledger_simps fmfind_def fmsum_def)
  then show ?thesis
    by (auto simp: sound_def inv_defs measure_defs internal_account_def treasury_def fmsum_def fmfind_def fmhas_def
        token_total_def token_balance_of_def default_pool_def STAKING_POOL_ACCOUNT_def
        VESTING_POOL_ACCOUNT_def AMM_POOL_ACCOUNT_def)
qed

definition payment :: "u64 \<Rightarrow> u64 \<Rightarrow> transaction" where
  "payment amount nonce =
     (new_transaction ''t'' 0 (Some treasury) customer amount Transfer)
       \<lparr>tx_nonce := nonce, tx_public_key := Some ''00'', tx_signature := Some ''00''\<rparr>"

lemma payment_fields [simp]:
  "tx_from (payment n k) = Some treasury" "tx_to (payment n k) = customer" "tx_amount (payment n k) = n"
  "tx_type (payment n k) = Transfer" "tx_nonce (payment n k) = k" "tx_chain_id (payment n k) = []"
  by (simp_all add: payment_def new_transaction_def)

lemma treasury_key: "derive_address (sample_lib tb) ''00'' = Inr treasury"
proof -
  have "from_hex ''00'' = Inr [CHR 0x00]" by code_simp
  moreover have "to_hex [CHR 0x00] = ''00''" by (simp add: hex_digit_0)
  moreover have "to_hex (take 20 zero_digest) = replicate 40 CHR ''0''"
    by (simp add: zero_digest_def to_hex_replicate)
  ultimately show ?thesis
    by (simp add: derive_address_def canonical_public_key_def from_lib_def ADDRESS_PREFIX_def treasury_def
        sample_lib_def)
qed

lemma payment_verifies: "verify_for_block (sample_lib tb) (payment n k) v = Inr ()"
  using treasury_key [of tb]
  by (simp add: verify_for_block_def verify_transfer_def verify_sender_signature_ok)
     (simp add: payment_def new_transaction_def verify_message_def verify_digest_def from_hex_digit_def sample_lib_def)

lemma payment_applies:
  assumes "unat n + 1000 < 2 ^ 64" "n + 1000 \<le> m"
  shows "\<exists>t. apply_verified L (payment n 1) h (funded m) = (Inr (), t)"
  using assms by (auto simp: apply_verified_def exec_ok apply_transfer_ok is_valid_address_def)


text \<open>A bonded validator, and evidence that it signed two blocks at height 5.\<close>

definition bonded :: chain_state where
  "bonded = default_chain_state
     \<lparr>cs_balances := fmupd STAKING_POOL_ACCOUNT 1000000000000 (fmupd treasury 5000000 fmempty),
      cs_stakers := fmupd treasury
        \<lparr>si_stake = 1000000000000, si_public_key = ''00'', si_vrf_public_key = ''00'', si_pq_public_key = []\<rparr> fmempty,
      cs_total_supply := 1000005000000, cs_base_fee := TX_FEE\<rparr>"

lemma staking_pool_other [simp]: "STAKING_POOL_ACCOUNT \<noteq> treasury" "treasury \<noteq> STAKING_POOL_ACCOUNT"
  using not_internal_neq [OF samples_external(1)] by simp_all

lemma bonded_fields [simp]:
  "balance_of bonded a = (if a = STAKING_POOL_ACCOUNT then 1000000000000 else if a = treasury then 5000000 else 0)"
  "nonce_of bonded a = 0" "cs_base_fee bonded = 1000" "cs_fee_pot bonded = 0" "cs_total_supply bonded = 1000005000000"
  "fmlookup (cs_stakers bonded) treasury = Some
     \<lparr>si_stake = 1000000000000, si_public_key = ''00'', si_vrf_public_key = ''00'', si_pq_public_key = []\<rparr>"
  "cs_unbonding bonded = fmempty" "cs_slashed_offenses bonded = fmempty"
  by (auto simp: bonded_def default_chain_state_def balance_of_def nonce_of_def fmfind_def fee_bounds_value)

lemma bonded_sound: "sound bonded"
proof -
  have "hkm_total bonded = 1000005000000"
    by (simp add: hkm_total_def bonded_def default_chain_state_def ledger_simps fmfind_def fmsum_def)
  moreover have "bonded_total bonded = 1000000000000"
    by (simp add: bonded_total_def bonded_def default_chain_state_def bonded_upd fmfind_def fmsum_def default_stake_info_def)
  ultimately show ?thesis
    by (auto simp: sound_def supply_inv_def staking_inv_def vesting_inv_def amm_inv_def token_inv_def lp_inv_def
        keys_inv_def unbonding_sum_def unvested_sum_def pooled_hkm_def recorded_supply_def lp_total_def pool_of_def
        token_total_def token_balance_of_def internal_account_def default_pool_def fmsum_def)
       (auto simp: bonded_def default_chain_state_def fmfind_def fmhas_def treasury_def STAKING_POOL_ACCOUNT_def
         VESTING_POOL_ACCOUNT_def AMM_POOL_ACCOUNT_def fmpred_iff)
qed

definition sealed_block :: block where
  "sealed_block =
     \<lparr>blk_index = 5, blk_timestamp = 0, blk_transactions = [], blk_merkle_root = [], blk_state_root = [],
      blk_previous_hash = [], blk_difficulty = 1, blk_nonce = 0, blk_hash = ''00'', blk_validator = Some treasury,
      blk_validator_public_key = Some ''00'', blk_validator_signature = Some ''00'',
      blk_validator_pq_signature = None, blk_vrf_output = None, blk_vrf_proof = None\<rparr>"

definition accusation :: transaction where
  "accusation = (new_transaction ''s'' 0 None treasury 0 Slash)
     \<lparr>tx_slash_proof := Some \<lparr>sp_block_a = sealed_block, sp_block_b = sealed_block\<rparr>\<rparr>"

lemma accusation_fields [simp]:
  "tx_to accusation = treasury" "tx_type accusation = Slash"
  "tx_slash_proof accusation = Some \<lparr>sp_block_a = sealed_block, sp_block_b = sealed_block\<rparr>"
  by (simp_all add: accusation_def new_transaction_def)

lemma accusation_applies: "\<exists>t. apply_slash accusation 7 bonded = (Inr (), t)"
  by (simp add: apply_slash_ok check_slash_ok unbonding_total_def sealed_block_def fmhas_def sat_mul_def)


text \<open>A token with a pool of 2000000 units on either side.\<close>

definition market :: chain_state where
  "market = default_chain_state
     \<lparr>cs_balances := fmupd AMM_POOL_ACCOUNT 2000000 (fmupd treasury 5000000 fmempty),
      cs_tokens := fmupd ''k'' \<lparr>ti_token_id = ''k'', ti_symbol = ''K'', ti_name = ''K'', ti_decimals = 6,
        ti_total_supply = 3000000, ti_creator = treasury, ti_created_at_height = 1\<rparr> fmempty,
      cs_token_balances := fmupd ''k'' (fmupd AMM_POOL_ACCOUNT 2000000 (fmupd treasury 1000000 fmempty)) fmempty,
      cs_pools := fmupd ''k'' \<lparr>pl_token_id = ''k'', pl_reserve_hkm = 2000000, pl_reserve_token = 2000000,
        pl_total_shares = 2000000\<rparr> fmempty,
      cs_lp_shares := fmupd ''k'' (fmupd treasury 1999000 fmempty) fmempty,
      cs_total_supply := 7000000, cs_base_fee := TX_FEE\<rparr>"

lemma amm_pool_other [simp]: "AMM_POOL_ACCOUNT \<noteq> treasury" "treasury \<noteq> AMM_POOL_ACCOUNT"
  using not_internal_neq [OF samples_external(1)] by simp_all

definition market_pool :: pool where
  "market_pool = \<lparr>pl_token_id = ''k'', pl_reserve_hkm = 2000000, pl_reserve_token = 2000000, pl_total_shares = 2000000\<rparr>"

lemma market_fields [simp]:
  "balance_of market a = (if a = AMM_POOL_ACCOUNT then 2000000 else if a = treasury then 5000000 else 0)"
  "nonce_of market a = 0" "cs_base_fee market = 1000" "cs_fee_pot market = 0"
  "fmlookup (cs_pools market) ''k'' = Some market_pool"
  "cs_token_balances market = fmupd ''k'' (fmupd AMM_POOL_ACCOUNT 2000000 (fmupd treasury 1000000 fmempty)) fmempty"
  "cs_lp_shares market = fmupd ''k'' (fmupd treasury 1999000 fmempty) fmempty"
  by (auto simp: market_def market_pool_def default_chain_state_def balance_of_def nonce_of_def fmfind_def fee_bounds_value)

definition pool_action :: amm_action where
  "pool_action = \<lparr>aa_token_id = ''k'', aa_amount_hkm = 0, aa_amount_token = 0, aa_shares = 1000,
     aa_amount_in = 1000, aa_hkm_to_token = True, aa_min_shares = 0, aa_min_hkm = 0, aa_min_token = 0, aa_min_out = 1\<rparr>"

definition pool_tx :: "transaction_type \<Rightarrow> transaction" where
  "pool_tx kind = (new_transaction ''x'' 0 (Some treasury) [] 0 kind)\<lparr>tx_nonce := 1, tx_amm := Some pool_action\<rparr>"

lemma pool_tx_fields [simp]:
  "tx_from (pool_tx k) = Some treasury" "tx_amm (pool_tx k) = Some pool_action" "tx_nonce (pool_tx k) = 1"
  "aa_token_id pool_action = ''k''" "aa_shares pool_action = 1000" "aa_amount_in pool_action = 1000"
  "aa_hkm_to_token pool_action"
  by (simp_all add: pool_tx_def pool_action_def new_transaction_def)

lemma swap_applies: "\<exists>t. apply_swap (pool_tx Swap) market = (Inr (), t)"
proof -
  have "plan_swap market_pool pool_action = Inr 996"
    by (simp add: plan_swap_def pool_action_def market_pool_def swap_output_ok exec_ok)
       (simp add: as_u64_def)
  then show ?thesis
    by (simp add: apply_swap_ok exec_ok can_pay_amount_def pay_amount_def swap_reserves_ok token_balance_of_def
        fmfind_def set_token_balance_def)
       (simp add: market_pool_def)
qed

lemma removal_applies: "\<exists>t. apply_remove_liquidity (pool_tx RemoveLiquidity) market = (Inr (), t)"
proof -
  have "plan_removal market_pool pool_action = Inr (1000, 1000)"
    by (simp add: plan_removal_def pool_action_def market_pool_def exec_ok as_u64_def)
  then show ?thesis
    by (simp add: apply_remove_liquidity_ok exec_ok can_pay_fee_def pay_fee_def token_balance_of_def
        lp_shares_of_def fmfind_def burn_shares_ok shrink_pool_ok take_shares_def set_lp_shares_def)
       (simp add: market_pool_def fmhas_def)
qed


section \<open>Mining with the sample digest\<close>

lemma sample_mining: "mine_block (sample_lib tb) data 2 = Inr (0, replicate 64 CHR ''0'')"
proof -
  have "candidate_hash (sample_lib tb) data 0 = replicate 64 CHR ''0''"
    by (simp add: candidate_hash_def to_hex_zero)
  moreover have "leading_zeros 2 (replicate 64 CHR ''0'')"
    by (simp add: leading_zeros_def starts_with_def)
  moreover have "clamp_difficulty 2 = 2"
    by (simp add: clamp_difficulty_def clampW_def MIN_DIFFICULTY_def MAX_DIFFICULTY_def)
  ultimately show ?thesis by (simp add: mine_block_def mine_from_ok)
qed

lemma sample_new_at: "\<exists>b. new_at (sample_lib tb) ts i txs prev 2 v vk sg root = Inr b"
  using sample_mining [of tb]
  by (simp add: new_at_def Let_def clamp_difficulty_def clampW_def MIN_DIFFICULTY_def MAX_DIFFICULTY_def)

end
