(* ===== verification/Execution_Properties.thy ===== *)
theory Execution_Properties
  imports History Samples
begin

text \<open>
  The properties of transaction execution and of the block end, each with an instance that
  shows its hypotheses can hold.
\<close>


section \<open>The books\<close>

text \<open>C1 An accepted transaction keeps the books. If a transaction has passed the stateless checks
  of block validation and \<open>apply_verified\<close> accepts it on a state whose books balance, the books
  balance afterwards: the balances and the fee pot add up to the recorded supply, the staking,
  vesting and AMM pool accounts hold exactly what is bonded or unbonding, unvested, and in the
  pools' reserves, every token's holdings add up to its recorded supply, and every pool's shares
  are those handed out plus the locked minimum. A reward needs room in the 64-bit supply counter.\<close>

theorem transaction_keeps_books:
  assumes "sound s" and "verify_for_block L tx v = Inr ()" and "\<not> internal_account v"
    and "tx_type tx = Reward \<Longrightarrow> uint (cs_total_supply s) + uint (tx_amount tx) < 2 ^ 64"
    and "apply_verified L tx h s = (Inr (), t)"
  shows "sound t"
  using apply_verified_sound [OF assms(5) verified_admissible [OF assms(2,3,4)] assms(1)] .

theorem transaction_keeps_books_witness:
  "\<exists>t. apply_verified (sample_lib Map.empty) (payment 5000 1) 7 (funded 100000) = (Inr (), t) \<and> sound t"
proof -
  obtain t where t: "apply_verified (sample_lib Map.empty) (payment 5000 1) 7 (funded 100000) = (Inr (), t)"
    using payment_applies [of 5000 100000] by auto
  have "sound t"
    by (rule transaction_keeps_books [OF funded_sound payment_verifies samples_external(1) _ t]) simp
  with t show ?thesis by blast
qed

text \<open>C6 The end of a block cannot fail on balanced books. Every unbonding release is covered by the
  staking pool, every vesting release by the vesting pool; no sum overflows; afterwards the books
  balance, the fee pot is empty and the base fee lies between its floor and its ceiling.\<close>

theorem block_end_never_fails:
  assumes "sound s" and "\<not> internal_account v"
  shows "\<exists>t. end_block h v s = (Inr (), t) \<and> sound t \<and> cs_fee_pot t = 0
    \<and> TX_FEE \<le> cs_base_fee t \<and> cs_base_fee t \<le> BASE_FEE_MAX"
  using end_block_books [OF assms] .

theorem block_end_never_fails_witness:
  "\<exists>t. end_block 9 customer (funded 100000) = (Inr (), t) \<and> sound t \<and> cs_fee_pot t = 0
    \<and> TX_FEE \<le> cs_base_fee t \<and> cs_base_fee t \<le> BASE_FEE_MAX"
  by (rule block_end_never_fails [OF funded_sound samples_external(2)])


section \<open>What stays for ever\<close>

text \<open>C10 Histories only grow. Over any interleaving of transactions, accepted or refused, and block
  ends, the network's name, its signature policy and its validator allowlist stay what they were;
  no account's nonce falls; an offense once slashed stays recorded with the same amount; a token
  stays defined with its symbol, name, decimals and creator and its supply never rises; a
  credential keeps what it certifies, and a revocation is final.\<close>

theorem histories_only_grow:
  assumes "reaches L s t"
  shows "cs_chain_id t = cs_chain_id s \<and> cs_require_hybrid_signatures t = cs_require_hybrid_signatures s
    \<and> cs_validator_allowlist t = cs_validator_allowlist s
    \<and> (\<forall>a. nonce_of s a \<le> nonce_of t a)
    \<and> kept_in (=) (cs_slashed_offenses s) (cs_slashed_offenses t)
    \<and> kept_in same_token (cs_tokens s) (cs_tokens t)
    \<and> kept_in same_credential (cs_credentials s) (cs_credentials t)"
  using reaches_evolves [OF assms] unfolding evolves_def .

theorem histories_only_grow_witness:
  "\<exists>t. reaches (sample_lib Map.empty) (funded 100000) t \<and> nonce_of (funded 100000) treasury \<le> nonce_of t treasury"
proof -
  obtain t where t: "apply_verified (sample_lib Map.empty) (payment 5000 1) 7 (funded 100000) = (Inr (), t)"
    using payment_applies [of 5000 100000] by auto
  have "reaches (sample_lib Map.empty) (funded 100000) t"
    by (rule reaches.transact [OF reaches.start t])
  with histories_only_grow [OF this] show ?thesis by blast
qed

text \<open>C7 No transaction is accepted twice. A transaction that spends a nonce (all but rewards,
  slashes and bare certificate anchors), once accepted, is refused in every state any history can
  reach, at any height.\<close>

theorem no_replay:
  assumes "apply_verified L tx h s = (Inr (), t)" and "spends_nonce tx" and "reaches L t u"
  shows "fst (apply_verified L tx h' u) \<noteq> Inr ()"
  using never_again [OF assms(1,2) reaches_evolves [OF assms(3)]] .

theorem no_replay_witness:
  "\<exists>t. apply_verified (sample_lib Map.empty) (payment 5000 1) 7 (funded 100000) = (Inr (), t)
     \<and> fst (apply_verified (sample_lib Map.empty) (payment 5000 1) 8 t) \<noteq> Inr ()"
proof -
  obtain t where t: "apply_verified (sample_lib Map.empty) (payment 5000 1) 7 (funded 100000) = (Inr (), t)"
    using payment_applies [of 5000 100000] by auto
  have "spends_nonce (payment 5000 1)" by (simp add: spends_nonce_def)
  from no_replay [OF t this reaches.start] t show ?thesis by blast
qed

text \<open>C16 One offense is slashed once. After a slash of a validator for a height, every slash
  transaction against the same validator for the same height is refused in every state any history
  can reach, whatever evidence it carries.\<close>

theorem slashed_once:
  assumes "apply_slash tx h s = (Inr (), t)" and "reaches L t u"
    and "tx_slash_proof tx = Some p" and "tx_slash_proof tx' = Some p'"
    and "tx_to tx' = tx_to tx" and "blk_index (sp_block_a p') = blk_index (sp_block_a p)"
  shows "fst (apply_slash tx' h' u) \<noteq> Inr ()"
proof
  assume "fst (apply_slash tx' h' u) = Inr ()"
  then obtain w where "apply_slash tx' h' u = (Inr (), w)" by (metis prod.collapse)
  then have "\<not> fmhas (cs_slashed_offenses u) (offense_key (tx_to tx) (blk_index (sp_block_a p)))"
    using slash_needs_new_offense assms(4-6) by metis
  moreover have "fmhas (cs_slashed_offenses t) (offense_key (tx_to tx) (blk_index (sp_block_a p)))"
    using slashed_marks [OF assms(1)] assms(3) by (metis option.inject)
  ultimately show False
    using reaches_evolves [OF assms(2)] kept_in_fmhas unfolding evolves_def by metis
qed


theorem slashed_once_witness:
  "\<exists>t. apply_slash accusation 7 bonded = (Inr (), t) \<and> fst (apply_slash accusation 8 t) \<noteq> Inr ()"
proof -
  obtain t where t: "apply_slash accusation 7 bonded = (Inr (), t)" using accusation_applies by blast
  have "fst (apply_slash accusation 8 t) \<noteq> Inr ()"
    by (rule slashed_once [OF t reaches.start accusation_fields(3) accusation_fields(3) refl refl])
  with t show ?thesis by blast
qed


section \<open>Stake at risk\<close>

lemma punish_frame:
  "balance_of (punish v i info n s) a = balance_of s a" "cs_fee_pot (punish v i info n s) = cs_fee_pot s"
  "b \<noteq> v \<Longrightarrow> fmlookup (cs_stakers (punish v i info n s)) b = fmlookup (cs_stakers s) b"
  "b \<noteq> v \<Longrightarrow> fmlookup (cs_unbonding (punish v i info n s)) b = fmlookup (cs_unbonding s) b"
  by (auto simp: punish_def Let_def deduct_unbonding_def set_staker_def balance_of_def split: option.split)

text \<open>C14 A slash burns a tenth of everything the validator has at risk. The amount is ten percent
  (saturating in 64 bits, rounded down) of the bonded stake plus the stake still unbonding, so
  that a withdrawal does not escape it; exactly that amount leaves the staking pool, the recorded
  supply and the bonded and unbonding total; no other account and no other validator is touched.\<close>

theorem slash_burns_a_tenth:
  assumes "sound s" and "apply_slash tx h s = (Inr (), t)"
  shows "\<exists>info ub n. fmlookup (cs_stakers s) (tx_to tx) = Some info \<and> unbonding_total s (tx_to tx) = Inr ub
    \<and> n = sat_mul (si_stake info + ub) 10 div 100 \<and> n \<noteq> 0
    \<and> uint (cs_total_supply t) = uint (cs_total_supply s) - uint n
    \<and> bonded_total t + unbonding_sum t = bonded_total s + unbonding_sum s - uint n
    \<and> uint (balance_of t STAKING_POOL_ACCOUNT) = uint (balance_of s STAKING_POOL_ACCOUNT) - uint n
    \<and> (\<forall>a. a = STAKING_POOL_ACCOUNT \<or> balance_of t a = balance_of s a)
    \<and> (\<forall>b. b = tx_to tx \<or> fmlookup (cs_stakers t) b = fmlookup (cs_stakers s) b
           \<and> fmlookup (cs_unbonding t) b = fmlookup (cs_unbonding s) b)"
proof -
  obtain index info n where chk: "check_slash tx h s = Inr (index, info, n)"
    and le: "n \<le> balance_of s STAKING_POOL_ACCOUNT"
    and t: "t = punish (tx_to tx) index info n
        (s\<lparr>cs_balances := fmupd STAKING_POOL_ACCOUNT (balance_of s STAKING_POOL_ACCOUNT - n) (cs_balances s)\<rparr>)"
    using assms(2) by (auto simp: apply_slash_ok)
  obtain ub where found: "fmlookup (cs_stakers s) (tx_to tx) = Some info" "unbonding_total s (tx_to tx) = Inr ub"
    "n = sat_mul (si_stake info + ub) 10 div 100" "n \<noteq> 0"
    using chk by (auto simp: check_slash_ok)
  have inv: "staking_inv s" "staking_inv t" "supply_inv s"
    using assms(1) apply_slash_sound [OF assms(2,1)] by (simp_all add: sound_def)
  have pool: "balance_of t STAKING_POOL_ACCOUNT = balance_of s STAKING_POOL_ACCOUNT - n"
    by (simp only: t punish_frame) (simp add: balance_of_def)
  then have "uint (balance_of t STAKING_POOL_ACCOUNT) = uint (balance_of s STAKING_POOL_ACCOUNT) - uint n"
    using le by (simp add: uint_minus_le)
  moreover have "n \<le> cs_total_supply s"
    using inv(3) le balance_le_total [of s STAKING_POOL_ACCOUNT] uint_u64_bounds(1) [of "cs_fee_pot s"]
    unfolding supply_inv_def uint_le by linarith
  then have "uint (cs_total_supply t) = uint (cs_total_supply s) - uint n"
    by (simp add: t punish_supply uint_sat_sub_exact)
  moreover have "a = STAKING_POOL_ACCOUNT \<or> balance_of t a = balance_of s a" for a
    by (simp only: t punish_frame) (simp add: balance_of_def fmfind_def)
  moreover have "b = tx_to tx \<or> fmlookup (cs_stakers t) b = fmlookup (cs_stakers s) b
      \<and> fmlookup (cs_unbonding t) b = fmlookup (cs_unbonding s) b" for b
    using punish_frame(3,4) [of b "tx_to tx"] by (cases "b = tx_to tx") (simp_all add: t)
  ultimately show ?thesis
    using found inv(1,2) unfolding staking_inv_def by auto
qed

theorem slash_burns_a_tenth_witness:
  "\<exists>t info ub n. apply_slash accusation 7 bonded = (Inr (), t) \<and> fmlookup (cs_stakers bonded) treasury = Some info
    \<and> unbonding_total bonded treasury = Inr ub \<and> n = sat_mul (si_stake info + ub) 10 div 100
    \<and> uint (cs_total_supply t) = uint (cs_total_supply bonded) - uint n"
proof -
  obtain t where t: "apply_slash accusation 7 bonded = (Inr (), t)" using accusation_applies by blast
  from slash_burns_a_tenth [OF bonded_sound t] t show ?thesis by fastforce
qed

text \<open>C15 Withdrawn stake stays slashable for as long as evidence is admissible. A withdrawal at
  height \<open>h\<close> queues the amount as an entry that no block end below height \<open>h + 20\<close> releases, and a
  slash at a height where the entry has been released can only be about a block after \<open>h\<close> or come
  in the very block that ends with the release.\<close>

theorem withdrawal_outlasts_evidence:
  assumes "apply_withdraw L tx h s = (Inr (), t)"
  shows "\<exists>a e. tx_from tx = Some a \<and> fmlookup (cs_unbonding t) a = Some (fmfind [] (cs_unbonding s) a @ [e])
    \<and> ub_amount e = tx_amount tx
    \<and> (\<forall>g. matured g e \<longleftrightarrow> unat h + 20 \<le> unat g)
    \<and> (\<forall>slash g u v. apply_slash slash g u = (Inr (), v) \<and> matured g e \<longrightarrow>
         (\<exists>p. tx_slash_proof slash = Some p
            \<and> (unat h < unat (blk_index (sp_block_a p)) \<or> unat g = unat h + 20)))"
proof -
  obtain a info where a: "tx_from tx = Some a" "unat h + 20 < 2 ^ 64"
    and t: "t = (pay_fee a (tx_nonce tx) s)
             \<lparr>cs_stakers := fmupd a (info\<lparr>si_stake := si_stake info - tx_amount tx\<rparr>) (cs_stakers s),
              cs_unbonding := fmupd a
                (fmfind [] (cs_unbonding s) a
                  @ [\<lparr>ub_amount = tx_amount tx, ub_release_height = h + 20\<rparr>]) (cs_unbonding s)\<rparr>"
    using assms by (auto simp: apply_withdraw_ok)
  let ?e = "\<lparr>ub_amount = tx_amount tx, ub_release_height = h + 20\<rparr>"
  have rel: "unat (h + 20) = unat h + 20" using a(2) by (simp add: unat_plus)
  then have m: "matured g ?e \<longleftrightarrow> unat h + 20 \<le> unat g" for g
    by (simp add: matured_def word_le_nat_alt)
  have "\<exists>p. tx_slash_proof slash = Some p \<and> (unat h < unat (blk_index (sp_block_a p)) \<or> unat g = unat h + 20)"
    if ok: "apply_slash slash g u = (Inr (), v)" and gone: "matured g ?e" for slash g u v
  proof -
    obtain p where p: "tx_slash_proof slash = Some p" "unat (blk_index (sp_block_a p)) + 20 < 2 ^ 64"
      "g \<le> blk_index (sp_block_a p) + 20"
      using ok unfolding apply_slash_ok check_slash_ok by auto
    then have "unat g \<le> unat (blk_index (sp_block_a p)) + 20" by (simp add: word_le_nat_alt unat_plus)
    with m [of g] gone p(1) show ?thesis by auto
  qed
  with a(1) t m show ?thesis by (intro exI [of _ a] exI [of _ ?e]) auto
qed


text \<open>The withdrawal of everything the sample validator has.\<close>

definition exit_tx :: transaction where
  "exit_tx = (new_transaction ''w'' 0 (Some treasury) treasury 1000000000000 Withdraw)
     \<lparr>tx_nonce := 1, tx_signature := Some ''00''\<rparr>"

lemma exit_applies: "\<exists>t. apply_withdraw (sample_lib Map.empty) exit_tx 7 bonded = (Inr (), t)"
proof -
  have "check_withdraw (sample_lib Map.empty) exit_tx treasury ''00''
     \<lparr>si_stake = 1000000000000, si_public_key = ''00'', si_vrf_public_key = ''00'', si_pq_public_key = []\<rparr> = Inr ()"
    by (simp add: check_withdraw_def exit_tx_def new_transaction_def verify_message_def verify_digest_def
        from_hex_digit_def sample_lib_def)
  then show ?thesis
    by (simp add: apply_withdraw_ok can_pay_fee_def) (simp add: exit_tx_def new_transaction_def)
qed

theorem withdrawal_outlasts_evidence_witness:
  "\<exists>t a e. apply_withdraw (sample_lib Map.empty) exit_tx 7 bonded = (Inr (), t)
     \<and> fmlookup (cs_unbonding t) a = Some (fmfind [] (cs_unbonding bonded) a @ [e])
     \<and> (\<forall>g. matured g e \<longleftrightarrow> unat (7 :: u64) + 20 \<le> unat g)"
proof -
  obtain t where t: "apply_withdraw (sample_lib Map.empty) exit_tx 7 bonded = (Inr (), t)"
    using exit_applies by blast
  from withdrawal_outlasts_evidence [OF t] t show ?thesis by blast
qed



section \<open>Transfers\<close>

text \<open>C18 What a transfer does, exactly. It is accepted if and only if it names a sender, the
  recipient is an address, the nonce is the sender's next one, the sender holds the amount plus the
  base fee (with no wrap-around in the sum), and the recipient's balance can take the amount; then
  the amount moves, the fee goes to the pot, the nonce is spent and nothing else changes, also when
  the sender pays itself.\<close>

theorem transfer_exactly:
  "apply_transfer tx s = (Inr (), t) \<longleftrightarrow>
     (\<exists>a. tx_from tx = Some a \<and> is_valid_address (tx_to tx)
        \<and> unat (tx_nonce tx) = unat (nonce_of s a) + 1
        \<and> unat (tx_amount tx) + unat (cs_base_fee s) \<le> unat (balance_of s a)
        \<and> (tx_to tx = a \<or> unat (balance_of s (tx_to tx)) + unat (tx_amount tx) < 2 ^ 64)
        \<and> t = s\<lparr>cs_nonces := fmupd a (tx_nonce tx) (cs_nonces s),
                cs_fee_pot := sat_add (cs_fee_pot s) (cs_base_fee s),
                cs_balances :=
                  (if tx_to tx = a then fmupd a (balance_of s a - cs_base_fee s) (cs_balances s)
                   else fmupd (tx_to tx) (balance_of s (tx_to tx) + tx_amount tx)
                          (fmupd a (balance_of s a - (tx_amount tx + cs_base_fee s)) (cs_balances s)))\<rparr>)"
proof (cases "tx_from tx")
  case None
  then show ?thesis by (simp add: apply_transfer_ok)
next
  case (Some a)
  let ?x = "tx_amount tx" and ?f = "cs_base_fee s" and ?b = "balance_of s a"
  show ?thesis
  proof (cases "tx_to tx = a")
    case True
    show ?thesis
      unfolding apply_transfer_ok next_nonce_iff
      using Some True self_payment_fits [of ?x ?f ?b] affordable_iff [of ?x ?f ?b] by (auto simp: spend_def)
  next
    case False
    show ?thesis
      unfolding apply_transfer_ok next_nonce_iff
      using Some False affordable_iff [of ?x ?f ?b] by (auto simp: spend_def)
  qed
qed


section \<open>Pools\<close>

lemma payments_keep_pools:
  "debit a n s = (Inr (), t) \<Longrightarrow> cs_pools t = cs_pools s"
  "credit a n s = (Inr (), t) \<Longrightarrow> cs_pools t = cs_pools s"
  "try_credit a n s = (Inr (), t) \<Longrightarrow> cs_pools t = cs_pools s"
  "debit_token k a n s = (Inr (), t) \<Longrightarrow> cs_pools t = cs_pools s"
  "credit_token k a n s = (Inr (), t) \<Longrightarrow> cs_pools t = cs_pools s"
  "tok.move k a b n s = (Inr (), t) \<Longrightarrow> cs_pools t = cs_pools s"
  "burn_shares k a n s = (Inr (), t) \<Longrightarrow> cs_pools t = cs_pools s"
  "grant_shares k a n s = (Inr (), t) \<Longrightarrow> cs_pools t = cs_pools s"
  "cs_pools (pay_fee a n s) = cs_pools s" "cs_pools (pay_amount a n m s) = cs_pools s"
  by (auto simp: exec_ok tok.move_def burn_shares_ok take_shares_def grant_shares_ok set_lp_shares_def
      drop_lp_shares_def pay_fee_def pay_amount_def)

text \<open>C19 A swap keeps its fee in the pool. The reserve that is paid into takes the whole input, the fee
  included; what is paid out is at least what the trader asked for, and is priced against the input less
  0.3 per cent, rounded down: one unit more would lower the product of the reserves that the pool
  would have without the fee. So the product never falls, and it rises by at least the fee times
  what is left of the other reserve. The shares do not change, and no other pool is touched.\<close>

theorem swap_keeps_product:
  assumes "apply_swap tx s = (Inr (), t)" and "tx_amm tx = Some action"
    and "fmlookup (cs_pools s) (aa_token_id action) = Some p" and "d = aa_hkm_to_token action"
  shows "\<exists>q. fmlookup (cs_pools t) (aa_token_id action) = Some q \<and> pl_total_shares q = pl_total_shares p
    \<and> unat (pl_reserve_hkm p) * unat (pl_reserve_token p) \<le> unat (pl_reserve_hkm q) * unat (pl_reserve_token q)
    \<and> side_in d q = side_in d p + unat (aa_amount_in action)
    \<and> 0 < side_out d q \<and> side_out d q < side_out d p
    \<and> side_out d q + unat (aa_min_out action) \<le> side_out d p
    \<and> 10000 * (side_in d p * side_out d p) + 30 * unat (aa_amount_in action) * side_out d q
        \<le> 10000 * (side_in d q * side_out d q)
    \<and> (10000 * side_in d p + 9970 * unat (aa_amount_in action)) * (side_out d q - 1)
        < 10000 * (side_in d p * side_out d p)
    \<and> (\<forall>k. k = aa_token_id action \<or> fmlookup (cs_pools t) k = fmlookup (cs_pools s) k)"
proof -
  let ?k = "aa_token_id action" and ?x = "aa_amount_in action"
  obtain out u where plan: "plan_swap p action = Inr out"
    and pools: "cs_pools u = cs_pools s" and step: "swap_reserves ?k d ?x out u = (Inr (), t)"
    using assms unfolding apply_swap_ok
    by (cases d) (force dest: payments_keep_pools(1-6) simp: payments_keep_pools(9,10))+
  let ?q = "swapped_pool p d ?x out"
  have t: "t = set_pool ?k ?q u" and fits: "side_in d p + unat ?x < 2 ^ 64"
    using step assms(3) pools by (auto simp: swap_reserves_ok side_in_def)
  note m = swap_moves_reserves [OF plan assms(4) refl fits]
  have "unat (pl_reserve_hkm p) * unat (pl_reserve_token p) \<le> unat (pl_reserve_hkm ?q) * unat (pl_reserve_token ?q)"
    using m(6) by (simp only: reserves_product [of d, symmetric])
  moreover have "side_out d ?q < side_out d p" "side_out d ?q + unat (aa_min_out action) \<le> side_out d p"
    using m(2,3,5) by (simp_all add: word_le_nat_alt)
  moreover have "pl_total_shares ?q = pl_total_shares p" "fmlookup (cs_pools t) ?k = Some ?q"
    "\<forall>k. k = ?k \<or> fmlookup (cs_pools t) k = fmlookup (cs_pools s) k"
    using pools by (simp_all add: t set_pool_def swapped_pool_def)
  ultimately show ?thesis using m(1,4,6,7) by blast
qed

theorem swap_keeps_product_witness:
  "\<exists>t q. apply_swap (pool_tx Swap) market = (Inr (), t) \<and> fmlookup (cs_pools t) ''k'' = Some q
     \<and> unat (pl_reserve_hkm market_pool) * unat (pl_reserve_token market_pool)
         \<le> unat (pl_reserve_hkm q) * unat (pl_reserve_token q)
     \<and> side_in True q = 2001000 \<and> side_out True q = 1999004"
proof -
  obtain t where t: "apply_swap (pool_tx Swap) market = (Inr (), t)" using swap_applies by blast
  have p: "side_in True market_pool = 2000000" "side_out True market_pool = 2000000"
    by (simp_all add: side_in_def side_out_def market_pool_def)
  obtain q where q: "fmlookup (cs_pools t) ''k'' = Some q" "side_in True q = 2001000"
    "unat (pl_reserve_hkm market_pool) * unat (pl_reserve_token market_pool) \<le> unat (pl_reserve_hkm q) * unat (pl_reserve_token q)"
    "10000 * (2000000 * 2000000) + 30 * 1000 * side_out True q \<le> 10000 * (2001000 * side_out True q)"
    "(10000 * 2000000 + 9970 * 1000) * (side_out True q - 1) < 10000 * (2000000 * 2000000)"
    using swap_keeps_product [OF t pool_tx_fields(2), of market_pool True] p by auto
  from q(4,5) have "side_out True q = 1999004" by simp
  with t q(1-3) show ?thesis by blast
qed

text \<open>C20 Moving liquidity never dilutes the other providers. When liquidity is added to a pool that
  has shares, or removed from one, what a share is worth of either reserve does not fall: old
  reserve over old shares is at most new reserve over new shares (cross-multiplied), although every
  intermediate amount is rounded down and truncated to 64 bits.\<close>

theorem liquidity_never_dilutes:
  assumes "apply_add_liquidity tx s = (Inr (), t) \<or> apply_remove_liquidity tx s = (Inr (), t)"
    and "tx_amm tx = Some action" and "fmlookup (cs_pools s) (aa_token_id action) = Some p"
    and "pl_total_shares p \<noteq> 0"
  shows "\<exists>q. fmlookup (cs_pools t) (aa_token_id action) = Some q
    \<and> unat (pl_reserve_hkm p) * unat (pl_total_shares q) \<le> unat (pl_reserve_hkm q) * unat (pl_total_shares p)
    \<and> unat (pl_reserve_token p) * unat (pl_total_shares q) \<le> unat (pl_reserve_token q) * unat (pl_total_shares p)"
  using assms(1)
proof
  let ?k = "aa_token_id action"
  assume "apply_add_liquidity tx s = (Inr (), t)"
  then obtain h u m first s2 s3 a where plan: "plan_liquidity (pool_of s ?k) action = Inr (h, u, m, first)"
    and pools: "cs_pools s2 = cs_pools s" and grow: "grow_pool ?k h u m first s2 = (Inr (), s3)"
    and grant: "grant_shares ?k a m s3 = (Inr (), t)"
    using assms(2) unfolding apply_add_liquidity_ok
    by (force dest: payments_keep_pools(1-6) simp: payments_keep_pools(9,10))
  have p: "pool_of s ?k = p" "pool_of s2 ?k = p" using assms(3) pools by (simp_all add: pool_of_def fmfind_def)
  have "first = False" using plan_liquidity_ok [OF plan] assms(4) p by simp
  then have b: "unat m * unat (pl_reserve_hkm p) \<le> unat h * unat (pl_total_shares p)"
    "unat m * unat (pl_reserve_token p) \<le> unat u * unat (pl_total_shares p)"
    using minted_backed [of p action h u m] plan p by auto
  have g: "s3 = set_pool ?k (grown_pool s2 ?k h u m) s2" and fits: "unat (pl_reserve_hkm p) + unat h < 2 ^ 64"
    "unat (pl_reserve_token p) + unat u < 2 ^ 64" "unat (pl_total_shares p) + unat m < 2 ^ 64"
    using grow \<open>first = False\<close> p by (auto simp: grow_pool_ok)
  have "cs_pools t = cs_pools s3" using grant by (rule payments_keep_pools)
  then show ?thesis
    using b fits by (auto simp: g set_pool_def grown_pool_def p unat_plus algebra_simps)
next
  let ?k = "aa_token_id action"
  assume "apply_remove_liquidity tx s = (Inr (), t)"
  then obtain h u s5 where plan: "plan_removal p action = Inr (h, u)"
    and pools: "cs_pools s5 = cs_pools s" and step: "shrink_pool ?k h u (aa_shares action) s5 = (Inr (), t)"
    using assms(2,3) unfolding apply_remove_liquidity_ok
    by (force dest: payments_keep_pools(1-7) simp: payments_keep_pools(9,10))
  have le: "h \<le> pl_reserve_hkm p" "u \<le> pl_reserve_token p" "aa_shares action \<le> pl_total_shares p"
    and t: "t = set_pool ?k (p\<lparr>pl_reserve_hkm := pl_reserve_hkm p - h, pl_reserve_token := pl_reserve_token p - u,
                            pl_total_shares := pl_total_shares p - aa_shares action\<rparr>) s5"
    using step assms(3) pools by (auto simp: shrink_pool_ok)
  have part: "r * (n - k) \<le> (r - x) * n" if "x * n \<le> k * r" for r n k x :: nat
    using that by (simp add: diff_mult_distrib diff_mult_distrib2 mult.commute diff_le_mono2)
  show ?thesis
    using part [OF removed_backed [OF plan, THEN conjunct1]] part [OF removed_backed [OF plan, THEN conjunct2]] le
    by (auto simp: t set_pool_def unat_minus)
qed

theorem liquidity_never_dilutes_witness:
  "\<exists>t q. apply_remove_liquidity (pool_tx RemoveLiquidity) market = (Inr (), t)
     \<and> fmlookup (cs_pools t) ''k'' = Some q
     \<and> unat (pl_reserve_hkm market_pool) * unat (pl_total_shares q)
         \<le> unat (pl_reserve_hkm q) * unat (pl_total_shares market_pool)"
proof -
  obtain t where t: "apply_remove_liquidity (pool_tx RemoveLiquidity) market = (Inr (), t)"
    using removal_applies by blast
  have "pl_total_shares market_pool \<noteq> 0" by (simp add: market_pool_def)
  from liquidity_never_dilutes [OF disjI2 [OF t] pool_tx_fields(2) _ this] t show ?thesis by auto
qed

end
