(* ===== verification/Rule_Properties.thy ===== *)
theory Rule_Properties
  imports Samples
begin

text \<open>
  The properties of the consensus rules a transaction or a block is measured by: emission,
  fees, vesting, leader selection, mining, the Merkle root, and what a signature covers.
\<close>


section \<open>Amounts\<close>

text \<open>The emission schedule. The reward of a height is nothing at genesis and afterwards 3700 HKM
  halved every 9500000 blocks, but never below 50 HKM; the shift of the code agrees with the division
  at every height, including the heights where it would shift past the word.\<close>

theorem reward_schedule:
  "unat (block_reward h) =
     (if unat h = 0 then 0 else max (3700000000 div 2 ^ ((unat h - 1) div 9500000)) 50000000)"
  by (simp add: unat_block_reward reward_nat_def)

text \<open>C29 The base fee. It stays between its floor and its ceiling whatever it was; at the target of
  50 paying transactions a fee within the bounds does not move; above the target it rises by at
  least one unit or reaches the ceiling, and below it falls by at least one unit or reaches the
  floor.\<close>

theorem base_fee_follows_demand:
  fixes fee n :: u64
  assumes "TX_FEE \<le> fee" and "fee \<le> BASE_FEE_MAX"
  shows "TX_FEE \<le> next_base_fee fee n \<and> next_base_fee fee n \<le> BASE_FEE_MAX
    \<and> (n = BASE_FEE_TARGET_TXS \<longrightarrow> next_base_fee fee n = fee)
    \<and> (BASE_FEE_TARGET_TXS < n \<longrightarrow> fee < next_base_fee fee n \<or> next_base_fee fee n = BASE_FEE_MAX)
    \<and> (n < BASE_FEE_TARGET_TXS \<longrightarrow> next_base_fee fee n < fee \<or> next_base_fee fee n = TX_FEE)"
proof -
  have up: "fee < sat_add fee (max k 1) \<or> BASE_FEE_MAX < sat_add fee (max k 1)" for k
  proof -
    have "1 \<le> unat (max k 1)" by (simp add: max_def word_le_nat_alt)
    moreover have "unat fee \<le> 100000000" using assms(2) by (simp add: fee_bounds_value word_le_nat_alt)
    ultimately show ?thesis
      by (auto simp: sat_add_def checked_add_def word_less_nat_alt unat_plus fee_bounds_value)
  qed
  have down: "sat_sub fee (max k 1) < fee" for k
  proof -
    have "1 \<le> unat (max k 1)" by (simp add: max_def word_le_nat_alt)
    moreover have "1000 \<le> unat fee" using assms(1) by (simp add: fee_bounds_value word_le_nat_alt)
    ultimately show ?thesis
      by (auto simp: sat_sub_def word_less_nat_alt unat_minus word_le_nat_alt)
  qed
  have clamp: "clampW TX_FEE BASE_FEE_MAX fee = fee" using assms by (auto simp: clampW_def)
  have gt: "fee < x \<or> BASE_FEE_MAX < x \<Longrightarrow>
      fee < clampW TX_FEE BASE_FEE_MAX x \<or> clampW TX_FEE BASE_FEE_MAX x = BASE_FEE_MAX" for x
    using assms by (auto simp: clampW_def)
  have lt: "x < fee \<Longrightarrow> clampW TX_FEE BASE_FEE_MAX x < fee \<or> clampW TX_FEE BASE_FEE_MAX x = TX_FEE" for x
    using assms by (auto simp: clampW_def)
  show ?thesis
    using next_base_fee_bounds [of fee n] clamp gt [OF up] lt [OF down]
    by (auto simp: next_base_fee_def Let_def)
qed

theorem base_fee_follows_demand_witness:
  "(2000 :: u64) < next_base_fee 2000 80 \<or> next_base_fee 2000 80 = BASE_FEE_MAX"
  using base_fee_follows_demand [of 2000 80]
  by (simp add: fee_bounds_value BASE_FEE_TARGET_TXS_def)

text \<open>C30 Vesting releases. For a schedule as a vesting transaction writes it, the vested amount exists at
  every height, is nothing before the cliff and everything from the end on, never exceeds the
  total and never falls from one height to a later one.\<close>

theorem vesting_releases:
  assumes "schedule_ok e"
  shows "\<exists>f. \<forall>h. vested_at e h = Inr (f h) \<and> f h \<le> ve_total e
    \<and> (h < ve_cliff_height e \<longrightarrow> f h = 0)
    \<and> (ve_cliff_height e \<le> h \<and> ve_end_height e \<le> h \<longrightarrow> f h = ve_total e)
    \<and> (\<forall>h'. h \<le> h' \<longrightarrow> f h \<le> f h')"
proof -
  obtain f where f: "\<And>h. vested_at e h = Inr (f h)" using vested_at_total [OF assms] by metis
  show ?thesis
  proof (intro exI [of _ f] allI conjI impI)
    fix h h'
    show "f h \<le> ve_total e" by (rule vested_le_total [OF f])
    show "h < ve_cliff_height e \<Longrightarrow> f h = 0" using f [of h] by (simp add: vested_at_def)
    show "ve_cliff_height e \<le> h \<and> ve_end_height e \<le> h \<Longrightarrow> f h = ve_total e"
      using f [of h] by (simp add: vested_at_def not_less split: if_splits)
    show "h \<le> h' \<Longrightarrow> f h \<le> f h'" by (rule vested_at_mono [OF f f assms])
  qed (rule f)
qed

theorem vesting_releases_witness:
  "\<exists>f. f (5 :: u64) \<le> (f 12 :: u64) \<and> vested_at \<lparr>ve_total = 1000, ve_released = 0, ve_start_height = 2,
     ve_cliff_height = 4, ve_end_height = 22\<rparr> 12 = Inr (f 12)"
  (is "\<exists>f. _ \<and> vested_at ?e 12 = _")
proof -
  have "schedule_ok ?e" by (simp add: schedule_ok_def)
  from vesting_releases [OF this] obtain f where
    f: "\<forall>h. vested_at ?e h = Inr (f h) \<and> f h \<le> ve_total ?e \<and> (h < ve_cliff_height ?e \<longrightarrow> f h = 0)
      \<and> (ve_cliff_height ?e \<le> h \<and> ve_end_height ?e \<le> h \<longrightarrow> f h = ve_total ?e) \<and> (\<forall>h'. h \<le> h' \<longrightarrow> f h \<le> f h')"
    by blast
  have "(5 :: u64) \<le> 12" by simp
  with f show ?thesis by blast
qed

text \<open>The integer square root of the first liquidity is exact: the largest number whose square
  does not exceed the argument.\<close>

theorem isqrt_exact:
  "isqrt_u128 n * isqrt_u128 n \<le> n \<and> n < (isqrt_u128 n + 1) * (isqrt_u128 n + 1)"
  by (rule isqrt_u128_bounds)


section \<open>Leaders and blocks\<close>

text \<open>C25 Leader selection is proportional to stake and total. The points below the total stake that
  select an address number exactly the stake behind it, every point selects somebody, and the
  leader of a seed is the one at the seed's point.\<close>

theorem selection_is_proportional:
  assumes "total_stake ss = (Inr tot :: (unit, u64) result)"
  shows "card {p. p < tot \<and> select_at p ss = Some a}
      = sum_list (map (\<lambda>s. if st_address s = a then unat (st_stake s) else 0) ss)
    \<and> (\<forall>p. p < tot \<longrightarrow> select_at p ss \<noteq> None)
    \<and> (tot \<noteq> 0 \<longrightarrow> select_staker_with_seed L seed ss
          = (Inr (select_at (seed_to_u64 L seed mod tot) ss) :: (unit, string option) result))"
proof -
  have small: "stakes ss < 2 ^ 64" and tot: "tot = as_u64 (stakes ss)"
    using assms by (auto simp: total_stake_eq split: if_splits)
  then have t: "unat tot = stakes ss" by (simp add: unat_as_u64_small)
  have "bij_betw unat {p. p < tot \<and> select_at p ss = Some a} {p. p < stakes ss \<and> walk p ss = Some a}"
  proof (rule bij_betw_byWitness [where f' = "\<lambda>n. as_u64 n"])
    show "\<forall>p\<in>{p. p < tot \<and> select_at p ss = Some a}. as_u64 (unat p) = p" by (simp add: as_u64_def)
    show "\<forall>n\<in>{n. n < stakes ss \<and> walk n ss = Some a}. unat (as_u64 n) = n"
      using small by (auto intro!: unat_as_u64_small)
    show "unat ` {p. p < tot \<and> select_at p ss = Some a} \<subseteq> {p. p < stakes ss \<and> walk p ss = Some a}"
      using t by (auto simp: select_at_walk word_less_nat_alt)
    show "as_u64 ` {n. n < stakes ss \<and> walk n ss = Some a} \<subseteq> {p. p < tot \<and> select_at p ss = Some a}"
      using small t by (auto simp: select_at_walk word_less_nat_alt unat_as_u64_small)
  qed
  then have "card {p. p < tot \<and> select_at p ss = Some a} = card {p. p < stakes ss \<and> walk p ss = Some a}"
    by (rule bij_betw_same_card)
  moreover have "p < tot \<longrightarrow> select_at p ss \<noteq> None" for p
    using walk_total [of "unat p" ss] t by (simp add: select_at_walk word_less_nat_alt)
  ultimately show ?thesis
    using assms by (simp add: walk_share select_staker_with_seed_def)
qed


definition two_stakers :: "staker list" where
  "two_stakers = [\<lparr>st_address = ''a'', st_stake = 3, st_public_key = None\<rparr>,
     \<lparr>st_address = ''b'', st_stake = 5, st_public_key = None\<rparr>]"

theorem selection_is_proportional_witness:
  "card {p. p < 8 \<and> select_at p two_stakers = Some ''b''} = 5"
proof -
  have "total_stake two_stakers = (Inr 8 :: (unit, u64) result)"
    by (simp add: total_stake_def two_stakers_def sum_u64_def add_u64_def checked_add_def)
  from selection_is_proportional [OF this, of "''b''"]
  have "card {p. p < 8 \<and> select_at p two_stakers = Some ''b''}
      = sum_list (map (\<lambda>s. if st_address s = ''b'' then unat (st_stake s) else 0) two_stakers)" by (rule conjunct1)
  also have "\<dots> = 5" by (simp add: two_stakers_def)
  finally show ?thesis .
qed

text \<open>C27 Mining stops. When some nonce meets the clamped difficulty, \<open>Block::new_at\<close> returns with the least
  such nonce a block that carries what it was asked to carry and passes its own proof-of-work and
  Merkle checks; when none does, it ends in the panic of the nonce's overflow.\<close>

theorem mining_stops:
  assumes hit: "hit = (\<lambda>k. leading_zeros (clamp_difficulty d)
      (candidate_hash L (hash_payload L i (compute_merkle_root L txs) root ts v vk prev) k))"
  shows "if \<exists>k. hit k
    then \<exists>b. new_at L ts i txs prev d v vk sg root = Inr b \<and> has_valid_pow L b \<and> has_valid_merkle_root L b
      \<and> blk_index b = i \<and> blk_timestamp b = ts \<and> blk_transactions b = txs \<and> blk_state_root b = root
      \<and> blk_previous_hash b = prev \<and> blk_difficulty b = clamp_difficulty d
      \<and> hit (blk_nonce b) \<and> (\<forall>k<blk_nonce b. \<not> hit k)
    else new_at L ts i txs prev d v vk sg root = Inl Panic"
proof (cases "mine_block L (hash_payload L i (compute_merkle_root L txs) root ts v vk prev) (clamp_difficulty d)")
  case (Inl e)
  then have "e = Panic" "\<not> hit k" for k by (auto simp: mine_block_def mine_from_fails hit)
  with Inl show ?thesis by (simp add: new_at_def Let_def)
next
  case (Inr r)
  then obtain b where b: "new_at L ts i txs prev d v vk sg root = Inr b" "blk_nonce b = fst r"
    by (cases r) (simp add: new_at_def Let_def)
  have "hit (fst r)" "\<forall>k<fst r. \<not> hit k" using Inr by (cases r; auto simp: mine_block_def mine_from_ok hit)+
  then show ?thesis using b new_at_valid [OF b(1)] new_at_fields [OF b(1)] by auto
qed

theorem mining_stops_witness:
  "\<exists>b. new_at (sample_lib Map.empty) 0 1 [''a''] ''0'' 2 None None None ''r'' = Inr b \<and> has_valid_pow (sample_lib Map.empty) b"
proof -
  let ?hit = "\<lambda>k. leading_zeros (clamp_difficulty 2) (candidate_hash (sample_lib Map.empty)
      (hash_payload (sample_lib Map.empty) 1 (compute_merkle_root (sample_lib Map.empty) [''a'']) ''r'' 0 None None ''0'') k)"
  obtain b where b: "new_at (sample_lib Map.empty) 0 1 [''a''] ''0'' 2 None None None ''r'' = Inr b"
    using sample_new_at by blast
  show ?thesis
    using mining_stops [of ?hit, OF refl, of None] b by (cases "\<exists>k. ?hit k") auto
qed

text \<open>C28 The Merkle root commits to the transactions of a block. Two lists of the same length with the
  same root are equal, unless two of the texts hashed on the way to the two roots collide; a digest
  prints as 64 characters.\<close>

theorem merkle_root_commits:
  assumes "\<And>x. length (sha256_hex L x) = 64"
    and "inj_on (sha256_hex L) (set (merkle_inputs L xs) \<union> set (merkle_inputs L ys))"
    and "length xs = length ys" and "compute_merkle_root L xs = compute_merkle_root L ys"
  shows "xs = ys"
proof (cases "xs = []")
  case True
  with assms(3) show ?thesis by simp
next
  case False
  then have ne: "ys \<noteq> []" using assms(3) by auto
  let ?xs = "map (sha256_hex L) xs" and ?ys = "map (sha256_hex L) ys"
  obtain r q where "merkle_up L ?xs = [r]" "merkle_up L ?ys = [q]"
    using merkle_up_length [of ?xs L] merkle_up_length [of ?ys L] False ne by auto
  then have up: "merkle_up L ?xs = merkle_up L ?ys"
    using assms(4) False ne by (simp add: compute_merkle_root_def)
  have "inj_on (sha256_hex L) (set (merkle_nodes L ?xs) \<union> set (merkle_nodes L ?ys))"
    by (rule inj_on_subset [OF assms(2)]) (auto simp: merkle_inputs_def)
  then have "?xs = ?ys"
    by (intro merkle_up_inj [OF assms(1) up]) (simp_all add: assms(1,3) list_all_iff)
  moreover have "inj_on (sha256_hex L) (set xs \<union> set ys)"
    by (rule inj_on_subset [OF assms(2)]) (auto simp: merkle_inputs_def)
  ultimately show ?thesis by (simp add: inj_on_map_eq_map)
qed

theorem merkle_root_commits_witness:
  "\<exists>xs. compute_merkle_root (sample_lib Map.empty) xs = compute_merkle_root (sample_lib Map.empty) [''a'']
     \<and> length xs = 1 \<and> xs = [''a'']"
proof -
  have inputs: "merkle_inputs (sample_lib Map.empty) [''a''] = [''a'']"
    by (simp add: merkle_inputs_def merkle_nodes.simps)
  have "[''a''] = [''a'']"
    by (rule merkle_root_commits [of "sample_lib Map.empty"])
       (simp_all add: inputs sha256_hex_def to_hex_zero)
  then show ?thesis by auto
qed

text \<open>The root does not commit to the number of transactions. Repeating the last transaction of an odd
  list of at least three leaves the root as it was, so the same header, hash and signatures fit both
  lists.\<close>

theorem merkle_root_repeats:
  assumes "even (length xs)" and "xs \<noteq> []"
  shows "compute_merkle_root L (xs @ [x, x]) = compute_merkle_root L (xs @ [x])"
proof -
  let ?h = "sha256_hex L"
  have "merkle_layer L (map ?h xs @ [?h x, ?h x]) = merkle_layer L (map ?h xs @ [?h x])"
    using assms(1) by (intro merkle_layer_dup) simp
  moreover have "1 < length (map ?h xs @ [?h x, ?h x])" "1 < length (map ?h xs @ [?h x])"
    using assms(2) by (cases xs; simp)+
  ultimately have "merkle_up L (map ?h xs @ [?h x, ?h x]) = merkle_up L (map ?h xs @ [?h x])"
    by (simp only: merkle_up.simps [of L "map ?h xs @ _"] if_True)
  then show ?thesis by (simp add: compute_merkle_root_def)
qed

theorem merkle_root_repeats_witness:
  "compute_merkle_root (sample_lib Map.empty) [''a'', ''b'', ''c'', ''c'']
   = compute_merkle_root (sample_lib Map.empty) [''a'', ''b'', ''c'']"
  using merkle_root_repeats [of "[''a'', ''b'']" "sample_lib Map.empty" "''c''"] by simp



section \<open>Authorization\<close>



text \<open>C22 A transfer signature covers everything the transfer does. The network-scoped messages of two
  transfers between addresses, on networks whose names hold no colon, are equal only if network,
  sender, recipient, amount and nonce are.\<close>

theorem transfer_signature_binds:
  assumes "scoped_signing_message c (transfer_signing_message f t a n)
      = scoped_signing_message c' (transfer_signing_message f' t' a' n')"
    and "scheme_of f \<noteq> None" "scheme_of f' \<noteq> None" "scheme_of t \<noteq> None" "scheme_of t' \<noteq> None"
    and "CHR '':'' \<notin> set c" "CHR '':'' \<notin> set c'"
  shows "c = c' \<and> f = f' \<and> t = t' \<and> a = a' \<and> n = n'"
proof -
  have e: "c @ CHR '':'' # transfer_signing_message f t a n = c' @ CHR '':'' # transfer_signing_message f' t' a' n'"
    using assms(1) by (simp add: scoped_signing_message_def)
  from split_first_colon [OF e assms(6,7)] have "c = c'"
    and "transfer_signing_message f t a n = transfer_signing_message f' t' a' n'" by simp_all
  with transfer_message_inj [OF _ assms(2-5)] show ?thesis by blast
qed

theorem transfer_signature_binds_witness:
  "\<exists>n. scoped_signing_message ''net'' (transfer_signing_message treasury customer 7 n)
     = scoped_signing_message ''net'' (transfer_signing_message treasury customer 7 2) \<and> n = 2"
  using transfer_signature_binds [of "''net''" treasury customer 7 2 "''net''" treasury customer 7 2] by simp

text \<open>C31 A token-creation signature does not cover the split between symbol and name. The fields are
  joined by unescaped colons, so whoever holds a valid creation of a token whose name contains a
  colon can move the part before it into the symbol, and the same signature verifies for the other
  token.\<close>

theorem token_signature_is_ambiguous:
  assumes "verify_token_create L tx = Inr ()" and "tx_token tx = Some act"
    and "ta_name act = m @ '':'' @ n"
    and "trim (ta_symbol act @ '':'' @ m) \<noteq> []"
    and "length (trim (ta_symbol act @ '':'' @ m)) \<le> MAX_TOKEN_SYMBOL_LEN"
  shows "verify_token_create L
    (tx\<lparr>tx_token := Some (act\<lparr>ta_symbol := ta_symbol act @ '':'' @ m, ta_name := n\<rparr>)\<rparr>) = Inr ()"
proof -
  have shift: "token_create_signing_message (s @ CHR '':'' # m) n d a k = token_create_signing_message s (m @ CHR '':'' # n) d a k"
    for s d a k using token_create_message_shift [of s m n d a k] by simp
  show ?thesis
    using assms by (auto simp: verify_token_create_def Let_def exec_ok verify_sender_signature_ok shift)
qed

definition creation :: transaction where
  "creation = (new_transaction ''c'' 0 (Some treasury) treasury 5 TokenCreate)
     \<lparr>tx_nonce := 1, tx_public_key := Some ''00'', tx_signature := Some ''00'',
      tx_token := Some \<lparr>ta_token_id = [], ta_symbol = ''A'', ta_name = ''B:C'', ta_decimals = 6\<rparr>\<rparr>"

theorem token_signature_is_ambiguous_witness:
  "verify_token_create (sample_lib Map.empty)
     (creation\<lparr>tx_token := Some \<lparr>ta_token_id = [], ta_symbol = ''A:B'', ta_name = ''C'', ta_decimals = 6\<rparr>\<rparr>) = Inr ()"
proof -
  have t: "trim ''A'' = ''A''" "trim ''A:B'' = ''A:B''" by code_simp+
  have ok: "verify_token_create (sample_lib Map.empty) creation = Inr ()"
    using treasury_key [of Map.empty] t
    by (simp add: verify_token_create_def creation_def new_transaction_def Let_def exec_ok
        verify_sender_signature_ok MAX_TOKEN_SYMBOL_LEN_def MAX_TOKEN_NAME_LEN_def MAX_TOKEN_DECIMALS_def)
       (simp add: verify_message_def verify_digest_def from_hex_digit_def sample_lib_def)
  have "tx_token creation = Some \<lparr>ta_token_id = [], ta_symbol = ''A'', ta_name = ''B:C'', ta_decimals = 6\<rparr>"
    by (simp add: creation_def)
  from token_signature_is_ambiguous [OF ok this, of "''B''" "''C''"] show ?thesis
    using t by (simp add: MAX_TOKEN_SYMBOL_LEN_def)
qed


section \<open>A panic\<close>

text \<open>Evidence about a height close to the largest 64-bit number stops the node. The window check
  adds to the height of the evidence with overflow checks, so applying a slash whose two blocks
  claim a height of at least 2 ^ 64 - 20 panics in every state instead of returning an error.\<close>

theorem slash_height_panics:
  assumes "tx_type tx = Slash" and "tx_slash_proof tx = Some p"
    and "2 ^ 64 \<le> unat (blk_index (sp_block_a p)) + 20"
  shows "apply_verified L tx h s = (Inl Panic, s)"
proof -
  have "verify_chain_scope s tx = Inr ()" using assms(1) by (simp add: verify_chain_scope_ok)
  moreover have "verify_signature_policy s tx = Inr ()" using assms(1) by (simp add: verify_signature_policy_ok)
  moreover have "check_slash tx h s = Inl Panic" using check_slash_window_panic [OF assms(2,3)] .
  ultimately show ?thesis using assms(1) by (simp add: apply_verified_def apply_slash_def)
qed

theorem slash_height_panics_witness:
  "apply_verified (sample_lib Map.empty)
     (accusation\<lparr>tx_slash_proof := Some \<lparr>sp_block_a = sealed_block\<lparr>blk_index := u64_max\<rparr>,
        sp_block_b = sealed_block\<lparr>blk_index := u64_max\<rparr>\<rparr>\<rparr>) 7 bonded = (Inl Panic, bonded)"
  by (rule slash_height_panics [where p = "\<lparr>sp_block_a = sealed_block\<lparr>blk_index := u64_max\<rparr>,
        sp_block_b = sealed_block\<lparr>blk_index := u64_max\<rparr>\<rparr>"])
     (simp_all add: accusation_def new_transaction_def)

end
