(* ===== verification/Election.thy ===== *)
theory Election
  imports Chain
begin

text \<open>
  Who may propose: the node's own view of the open rounds, \<open>eligible_slot_for\<close> and
  \<open>open_leaders\<close>, against what validation accepts, \<open>check_slot\<close>.
\<close>


lemma select_cast:
  "select_staker_with_seed L seed vs = (Inr x :: ('e, string option) result)
   \<Longrightarrow> select_staker_with_seed L seed vs = (Inr x :: ('f, string option) result)"
  by (auto simp: select_staker_with_seed_eq split: if_splits)

lemma find_slot_cast:
  "find_slot L rnd h vs v rs = (Inr x :: ('e, (u64 \<times> string) option) result)
   \<Longrightarrow> find_slot L rnd h vs v rs = (Inr x :: ('f, (u64 \<times> string) option) result)"
proof (induction rs)
  case (Cons r rs)
  then obtain w where "select_staker_with_seed L (slot_input_at_round rnd h r) vs = (Inr w :: ('e, _) result)"
    "(if w = Some v then Inr (Some (r, slot_input_at_round rnd h r)) else find_slot L rnd h vs v rs)
      = (Inr x :: ('e, (u64 \<times> string) option) result)"
    by (auto simp: Let_def bindR_ok)
  moreover from select_cast [OF this(1)]
  have "select_staker_with_seed L (slot_input_at_round rnd h r) vs = (Inr w :: ('f, _) result)" .
  ultimately show ?case using Cons.IH by (simp add: Let_def split: if_splits)
qed simp

text \<open>If any round selects somebody, so does the first one.\<close>

lemma find_slot_primary:
  assumes "find_slot L rnd h vs v rs = (Inr (Some (r, i)) :: ('e, _) result)"
  shows "\<exists>w. select_staker_with_seed L seed vs = (Inr (Some w) :: ('f, _) result)"
proof -
  have "select_staker_with_seed L i vs = (Inr (Some v) :: ('e, _) result)"
    using assms by (auto simp: find_slot_Some)
  then have st: "stakes vs < 2 ^ 64" "stakes vs \<noteq> 0" by (auto simp: select_staker_with_seed_ok)
  then have "\<exists>x. select_staker_with_seed L seed vs = (Inr x :: ('f, _) result)"
    by (simp add: select_staker_with_seed_eq)
  moreover have "select_staker_with_seed L seed vs \<noteq> (Inr None :: ('f, _) result)"
    using st(2) by (simp only: select_staker_with_seed_None) simp
  ultimately show ?thesis by (metis option.exhaust)
qed

lemma check_slot_find:
  "check_slot L b v s rnd ts = Inr i \<longleftrightarrow>
     (\<exists>r. find_slot L rnd (blk_index b) (validator_set s) v (rounds_upto (open_rounds ts (blk_timestamp b)))
        = (Inr (Some (r, i)) :: ('e, _) result))"
proof
  assume "check_slot L b v s rnd ts = Inr i"
  then show "\<exists>r. find_slot L rnd (blk_index b) (validator_set s) v (rounds_upto (open_rounds ts (blk_timestamp b)))
      = (Inr (Some (r, i)) :: ('e, _) result)"
    unfolding check_slot_ok using find_slot_cast by blast
next
  assume "\<exists>r. find_slot L rnd (blk_index b) (validator_set s) v (rounds_upto (open_rounds ts (blk_timestamp b)))
      = (Inr (Some (r, i)) :: ('e, _) result)"
  then obtain r where f: "find_slot L rnd (blk_index b) (validator_set s) v
      (rounds_upto (open_rounds ts (blk_timestamp b))) = (Inr (Some (r, i)) :: ('e, _) result)" ..
  from find_slot_primary [OF f] find_slot_cast [OF f] show "check_slot L b v s rnd ts = Inr i"
    unfolding check_slot_ok by blast
qed

lemma eligible_slot_for_ok:
  "eligible_slot_for L now c v = (Inr (Some x) :: ('e, _) result) \<longleftrightarrow>
     bc_blocks c \<noteq> [] \<and> (\<exists>n. next_index c = (Inr n :: ('e, u64) result)
        \<and> find_slot L (bc_randomness c) n (validator_set (bc_state c)) v
            (rounds_upto (open_rounds (blk_timestamp (last (bc_blocks c))) now)) = (Inr (Some x) :: ('e, _) result))"
  by (auto simp: eligible_slot_for_def Let_def exec_ok)

text \<open>The collected leaders are the slots \<open>find_slot\<close> finds, each validator once.\<close>

lemma collect_leaders_set:
  assumes "collect_leaders L rnd h vs acc rs = (Inr ls :: ('e, _) result)"
  shows "(r, v, i) \<in> set ls \<longleftrightarrow> (r, v, i) \<in> set acc
    \<or> v \<notin> (fst \<circ> snd) ` set acc \<and> find_slot L rnd h vs v rs = (Inr (Some (r, i)) :: ('e, _) result)"
  using assms
proof (induction rs arbitrary: acc)
  case (Cons q rs)
  let ?i = "slot_input_at_round rnd h q"
  obtain w where w: "select_staker_with_seed L ?i vs = (Inr w :: ('e, _) result)"
    using Cons.prems by (auto simp: Let_def bindR_ok)
  show ?case
  proof (cases "w = None \<or> the w \<in> (fst \<circ> snd) ` set acc")
    case True
    then have "collect_leaders L rnd h vs acc rs = (Inr ls :: ('e, _) result)"
      using Cons.prems w by (cases w) (auto simp: Let_def)
    from Cons.IH [OF this] True w show ?thesis by (cases "v \<in> (fst \<circ> snd) ` set acc") (force simp: Let_def)+
  next
    case False
    then obtain u where u: "w = Some u" "u \<notin> (fst \<circ> snd) ` set acc" by auto
    then have "collect_leaders L rnd h vs (acc @ [(q, u, ?i)]) rs = (Inr ls :: ('e, _) result)"
      using Cons.prems w by (auto simp: Let_def)
    from Cons.IH [OF this] u w show ?thesis by (auto simp: Let_def)
  qed
qed simp

lemma collect_leaders_distinct:
  "collect_leaders L rnd h vs acc rs = (Inr ls :: ('e, _) result) \<Longrightarrow> distinct (map (fst \<circ> snd) acc)
   \<Longrightarrow> distinct (map (fst \<circ> snd) ls)"
  by (induction rs arbitrary: acc) (auto simp: Let_def bindR_ok split: option.splits if_splits)

lemma open_leaders_set:
  assumes "open_leaders L now c = (Inr ls :: ('e, _) result)"
  shows "(r, v, i) \<in> set ls \<longleftrightarrow> eligible_slot_for L now c v = (Inr (Some (r, i)) :: ('e, _) result)"
proof (cases "bc_blocks c = []")
  case False
  then obtain n where n: "next_index c = (Inr n :: ('e, u64) result)"
    and ls: "collect_leaders L (bc_randomness c) n (validator_set (bc_state c)) []
        (rounds_upto (open_rounds (blk_timestamp (last (bc_blocks c))) now)) = (Inr ls :: ('e, _) result)"
    using assms by (auto simp: open_leaders_def Let_def bindR_ok)
  show ?thesis unfolding collect_leaders_set [OF ls] eligible_slot_for_ok using n False by simp
qed (use assms in \<open>simp add: open_leaders_def eligible_slot_for_def\<close>)

lemma open_leaders_distinct:
  "open_leaders L now c = (Inr ls :: ('e, _) result) \<Longrightarrow> distinct (map (fst \<circ> snd) ls)"
  by (auto simp: open_leaders_def Let_def bindR_ok intro: collect_leaders_distinct split: if_splits)

end
