(* ===== verification/Lifecycle.thy ===== *)
theory Lifecycle
  imports Replay
begin

text \<open>
  The life of a node's chain: from a genesis block or a bundle, through committed blocks,
  adopted chains and finality updates. The cache stays in step with the blocks, and from a
  genesis the books balance at every block.
\<close>


section \<open>The genesis state\<close>

definition founded :: "string \<Rightarrow> u64 \<Rightarrow> string list \<Rightarrow> bool \<Rightarrow> (string, u64) fmap \<Rightarrow> (string, stake_info) fmap \<Rightarrow> chain_state" where
  "founded cid n al hyb bal st = default_chain_state
     \<lparr>cs_balances := bal, cs_stakers := st, cs_total_supply := n, cs_base_fee := TX_FEE,
      cs_validator_allowlist := fset_of_list al, cs_chain_id := cid, cs_require_hybrid_signatures := hyb\<rparr>"

definition books_open :: "u64 \<Rightarrow> (string, u64) fmap \<Rightarrow> (string, stake_info) fmap \<Rightarrow> bool" where
  "books_open n bal st \<longleftrightarrow> fmsum uint bal = uint n
     \<and> uint (fmfind 0 bal STAKING_POOL_ACCOUNT) = fmsum (\<lambda>i. uint (si_stake i)) st
     \<and> fmfind 0 bal VESTING_POOL_ACCOUNT = 0 \<and> fmfind 0 bal AMM_POOL_ACCOUNT = 0
     \<and> (\<forall>a. internal_account a \<longrightarrow> fmlookup st a = None)"

lemma founded_sound: "books_open n bal st \<Longrightarrow> sound (founded cid n al hyb bal st)"
  by (simp add: sound_def inv_defs measure_defs books_open_def)
     (simp add: founded_def default_chain_state_def balance_of_def hkm_total_def token_total_def
        token_balance_of_def fmfind_def fmhas_def default_pool_def fmsum_def)

lemma books_open_bare: "\<not> internal_account tr \<Longrightarrow> books_open n (fmupd tr n fmempty) fmempty"
  using not_internal_neq [of tr] by (simp add: books_open_def ledger_simps fmfind_def fmsum_def)

lemma books_open_bonded:
  assumes "\<not> internal_account tr" "k \<le> n" "si_stake i = k"
  shows "books_open n (fmupd STAKING_POOL_ACCOUNT k (fmupd tr (n - k) fmempty)) (fmupd tr i fmempty)"
  using not_internal_neq [OF assms(1)] assms
  by (auto simp: books_open_def ledger_simps bonded_upd fmfind_def uint_minus_le default_stake_info_def)

text \<open>A validator is seated with some post-quantum key, or leaves with its stake returned.\<close>

lemma seat_ok:
  assumes "seat_genesis_validator_pq_key L tr pq s = (Inr t :: chain_state outcome)"
    and "fmlookup (cs_stakers s) tr = Some i" "fmlookup (cs_balances s) STAKING_POOL_ACCOUNT = Some p"
    and "tr \<noteq> STAKING_POOL_ACCOUNT"
  shows "(\<exists>q. t = s\<lparr>cs_stakers := fmupd tr (i\<lparr>si_pq_public_key := q\<rparr>) (cs_stakers s)\<rparr>)
    \<or> t = s \<or> (si_stake i = 0 \<and> t = s\<lparr>cs_stakers := fmdrop tr (cs_stakers s)\<rparr>)
    \<or> t = s\<lparr>cs_stakers := fmdrop tr (cs_stakers s), cs_balances := fmupd tr (balance_of s tr + si_stake i)
             (fmupd STAKING_POOL_ACCOUNT (sat_sub p (si_stake i)) (cs_balances s))\<rparr>"
  using assms
  by (auto simp: seat_genesis_validator_pq_key_def exec_ok Let_def word_neq_0_conv balance_of_def fmfind_def
      split: if_splits option.splits)

lemma network_genesis_founded:
  assumes "network_genesis L cid tr vk vrf n al hyb pq = Inr s" "\<not> internal_account tr"
  shows "\<exists>bal st. s = founded cid n al hyb bal st \<and> books_open n bal st"
proof -
  let ?f = "founded cid n al hyb"
  obtain g where g: "genesis_for_chain cid tr vk vrf n al = Inr g"
    and seat: "seat_genesis_validator_pq_key L tr pq (g\<lparr>cs_require_hybrid_signatures := hyb\<rparr>) = (Inr s :: chain_state outcome)"
    using assms(1) by (auto simp: network_genesis_def exec_ok)
  note ne = not_internal_neq [OF assms(2)]
  show ?thesis
  proof (cases vk)
    case None
    then have "g\<lparr>cs_require_hybrid_signatures := hyb\<rparr> = ?f (fmupd tr n fmempty) fmempty"
      using g by (auto simp: genesis_for_chain_def founded_def default_chain_state_def)
    then have "s = ?f (fmupd tr n fmempty) fmempty"
      using seat by (auto simp: seat_genesis_validator_pq_key_def founded_def default_chain_state_def split: if_splits)
    with books_open_bare [OF assms(2)] show ?thesis by blast
  next
    case (Some key)
    let ?k = "min GENESIS_VALIDATOR_STAKE n"
    let ?info = "\<lambda>q. \<lparr>si_stake = ?k, si_public_key = key,
        si_vrf_public_key = (case vrf of None \<Rightarrow> [] | Some v \<Rightarrow> v), si_pq_public_key = q\<rparr>"
    let ?bal = "fmupd STAKING_POOL_ACCOUNT ?k (fmupd tr (n - ?k) fmempty)"
    have g': "g\<lparr>cs_require_hybrid_signatures := hyb\<rparr> = ?f ?bal (fmupd tr (?info []) fmempty)"
      using g Some ne
      by (auto simp: genesis_for_chain_def founded_def default_chain_state_def exec_ok Let_def fmfind_def)
    have open_q: "books_open n ?bal (fmupd tr (?info q) fmempty)" for q
      by (rule books_open_bonded [OF assms(2)]) simp_all
    have upd: "(?info [])\<lparr>si_pq_public_key := q\<rparr> = ?info q" for q by simp
    have at: "fmlookup (cs_stakers (?f ?bal (fmupd tr (?info []) fmempty))) tr = Some (?info [])"
      "fmlookup (cs_balances (?f ?bal (fmupd tr (?info []) fmempty))) STAKING_POOL_ACCOUNT = Some ?k"
      "balance_of (?f ?bal (fmupd tr (?info []) fmempty)) tr + ?k = n"
      using ne by (simp_all add: founded_def default_chain_state_def balance_of_def fmfind_def)
    consider (kept) q where "s = ?f ?bal (fmupd tr (?info q) fmempty)"
      | (dropped) "s = ?f (fmupd tr n (fmupd STAKING_POOL_ACCOUNT 0 ?bal)) fmempty"
      | (none) "s = ?f ?bal fmempty" "?k = 0"
      using seat_ok [OF seat [unfolded g'] at(1,2)] ne at(3) unfolding upd
      by (auto simp: founded_def default_chain_state_def sat_sub_def fmdrop_fmupd_same)
    then show ?thesis
    proof cases
      case kept
      with open_q show ?thesis by blast
    next
      case dropped
      have "books_open n (fmupd tr n (fmupd STAKING_POOL_ACCOUNT 0 ?bal)) fmempty"
        using ne by (simp add: books_open_def ledger_simps fmfind_def)
      with dropped show ?thesis by blast
    next
      case none
      then have "books_open n ?bal fmempty"
        using ne by (simp add: books_open_def ledger_simps fmfind_def)
      with none show ?thesis by blast
    qed
  qed
qed

lemma genesis_sound:
  "network_genesis L cid tr vk vrf n al hyb pq = Inr s \<Longrightarrow> \<not> internal_account tr
   \<Longrightarrow> sound s \<and> cs_total_supply s = n"
  by (drule (1) network_genesis_founded) (auto simp: founded_sound, simp add: founded_def)


section \<open>The life of a chain\<close>

inductive runs :: "'x node_lib_scheme \<Rightarrow> blockchain \<Rightarrow> blockchain \<Rightarrow> bool" for L c0 where
  born: "runs L c0 c0"
| extend: "runs L c0 c \<Longrightarrow> validate_block_candidate L now c b = Inr post
    \<Longrightarrow> commit_block L b post c = (Inr c' :: blockchain outcome) \<Longrightarrow> runs L c0 c'"
| adopt: "runs L c0 c \<Longrightarrow> try_adopt_chain L now candidate c = Inr (changed, c') \<Longrightarrow> runs L c0 c'"
| finalize: "runs L c0 c \<Longrightarrow> apply_finality depth c = (Inr c' :: blockchain outcome) \<Longrightarrow> runs L c0 c'"

lemma commit_block_ok:
  "commit_block L b post c = (Inr c' :: ('e, blockchain) result) \<longleftrightarrow>
     (\<exists>t d. tip_index (c\<lparr>bc_blocks := bc_blocks c @ [b]\<rparr>) = (Inr t :: ('e, u64) result)
        \<and> retarget (bc_blocks c @ [b]) t (bc_base_height c) (bc_current_difficulty c) = (Inr d :: ('e, u64) result)
        \<and> c' = c\<lparr>bc_randomness := next_randomness L (bc_randomness c)
                    (case blk_vrf_output b of None \<Rightarrow> [] | Some v \<Rightarrow> v),
                 bc_blocks := bc_blocks c @ [b], bc_state := post, bc_current_difficulty := d\<rparr>)"
  by (auto simp: commit_block_def exec_ok tip_index_def next_index_def)

lemma apply_finality_ok:
  "apply_finality depth c = (Inr c' :: ('e, blockchain) result) \<longleftrightarrow>
     (if bc_blocks c = [] then c' = c\<lparr>bc_finalized_height := bc_base_height c\<rparr>
      else \<exists>t. tip_index c = (Inr t :: ('e, u64) result)
        \<and> c' = c\<lparr>bc_finalized_height := if depth = 0 then t else max (sat_sub t depth) (bc_base_height c)\<rparr>)"
  by (auto simp: apply_finality_def exec_ok)

text \<open>The parameters of the network never change.\<close>

definition same_network :: "blockchain \<Rightarrow> blockchain \<Rightarrow> bool" where
  "same_network c d \<longleftrightarrow> bc_base_height d = bc_base_height c \<and> bc_checkpoint d = bc_checkpoint c
     \<and> bc_difficulty d = bc_difficulty c \<and> bc_genesis_treasury d = bc_genesis_treasury c
     \<and> bc_genesis_validator_public_key d = bc_genesis_validator_public_key c
     \<and> bc_genesis_validator_vrf_public_key d = bc_genesis_validator_vrf_public_key c
     \<and> bc_genesis_validator_pq_public_key d = bc_genesis_validator_pq_public_key c
     \<and> bc_genesis_supply d = bc_genesis_supply c
     \<and> bc_genesis_validator_allowlist d = bc_genesis_validator_allowlist c
     \<and> bc_genesis_chain_id d = bc_genesis_chain_id c
     \<and> bc_genesis_require_hybrid_signatures d = bc_genesis_require_hybrid_signatures c"

lemma runs_same_network: "runs L c0 c \<Longrightarrow> same_network c0 c"
  by (induction rule: runs.induct)
     (auto simp: same_network_def commit_block_ok try_adopt_chain_ok apply_finality_ok split: if_splits)

lemma same_network_genesis: "same_network c d \<Longrightarrow> genesis_state L d = genesis_state L c"
  by (simp add: same_network_def genesis_state_def)

lemma runs_in_sync:
  "runs L c0 c \<Longrightarrow> in_sync L c0 \<Longrightarrow> length (bc_blocks c) < 2 ^ 63 \<Longrightarrow> in_sync L c"
proof (induction rule: runs.induct)
  case (extend c now b post c')
  then have "length (bc_blocks c) < 2 ^ 63" by (auto simp: commit_block_ok)
  with extend show ?case using commit_in_sync by blast
next
  case (adopt c now candidate changed c')
  show ?case
  proof (cases changed)
    case True
    with adopt.hyps(2) show ?thesis by (simp add: adopted_in_sync)
  next
    case False
    with adopt.hyps(2) have "c' = c" by (simp add: try_adopt_chain_ok)
    with adopt show ?thesis by simp
  qed
next
  case (finalize c depth c')
  then show ?case by (auto simp: apply_finality_ok in_sync_def split: if_splits)
qed

lemma bundle_in_sync: "from_bundle L bundle = Inr c \<Longrightarrow> in_sync L c"
  unfolding from_bundle_def from_checkpoint_def bindR_ok by (auto intro: rebuild_state_in_sync)


section \<open>From a genesis\<close>

lemma new_chain_ok:
  "new_with_genesis_on_chain L cid d tr vk vrf n al hyb pq = Inr c \<longleftrightarrow>
     (\<exists>g b. network_genesis L cid tr vk vrf n al hyb pq = Inr g
        \<and> genesis_block L (clamp_difficulty d) (state_root L g) = Inr b
        \<and> c = \<lparr>bc_blocks = [b], bc_difficulty = clamp_difficulty d, bc_finalized_height = 0,
           bc_genesis_treasury = tr, bc_genesis_validator_public_key = vk,
           bc_genesis_validator_vrf_public_key = vrf, bc_genesis_supply = n,
           bc_genesis_validator_allowlist = al, bc_genesis_chain_id = cid,
           bc_genesis_require_hybrid_signatures = hyb, bc_genesis_validator_pq_public_key = pq,
           bc_state = g, bc_randomness = blk_hash b, bc_current_difficulty = clamp_difficulty d,
           bc_base_height = 0, bc_checkpoint = None\<rparr>)"
  by (auto simp: new_with_genesis_on_chain_def exec_ok Let_def)

text \<open>
  A chain in step with its blocks, on a network rooted in its genesis: the state is sound and
  the supply is bounded by the emission of the heights so far.
\<close>

lemma genesis_rooted_sound:
  assumes "in_sync L c" "bc_base_height c = 0" "bc_checkpoint c = None"
    and "\<not> internal_account (bc_genesis_treasury c)" "length (bc_blocks c) < 2 ^ 63"
    and "uint (bc_genesis_supply c) + int (emission 1 (length (bc_blocks c) - 1)) < 2 ^ 64"
  shows "sound (bc_state c)
    \<and> uint (cs_total_supply (bc_state c))
        \<le> uint (bc_genesis_supply c) + int (emission 1 (length (bc_blocks c) - 1))
    \<and> (\<exists>g. genesis_state L c = Inr g \<and> evolves g (bc_state c))"
proof -
  obtain anchor rest root where c: "bc_blocks c = anchor # rest" and r: "replay_root L c anchor = Inr root"
    and bs: "replay_blocks L 0 [anchor] root rest = Inr (bc_state c, bc_randomness c, bc_current_difficulty c)"
    using assms(1,2) by (auto simp: in_sync_def validate_full_ok)
  obtain g where g: "genesis_state L c = Inr g" and root: "root = (g, blk_hash anchor, bc_difficulty c)"
    using r assms(3) by (auto simp: replay_root_def exec_ok)
  have s: "sound g" "cs_total_supply g = bc_genesis_supply c"
    using genesis_sound [OF g [unfolded genesis_state_def] assms(4)] by simp_all
  have "length [anchor] + length rest < 2 ^ 63" using assms(5) c by simp
  moreover have "uint (cs_total_supply g) + int (emission (unat (0 :: u64) + length [anchor]) (length rest)) < 2 ^ 64"
    using assms(6) c s(2) by simp
  ultimately show ?thesis
    using replay_sound [OF bs [unfolded root] s(1)] replay_evolves [OF bs [unfolded root]] g s(2) c by auto
qed


text \<open>
  Every chain a node can come to hold on a network with an ordinary treasury: with a supply of up to
  thirty billion HKM there is room for three hundred billion blocks and the reward of the next one.
\<close>

lemma reachable_books:
  assumes born: "new_with_genesis_on_chain L cid d tr vk vrf n al hyb pq = Inr c0" and tr: "\<not> internal_account tr"
    and n: "n \<le> 30000000000000000" and r: "runs L c0 c" and short: "length (bc_blocks c) \<le> 300000000000"
  shows "in_sync L c" "same_network c0 c" "sound (bc_state c)"
    "uint (cs_total_supply (bc_state c)) \<le> uint n + int (emission 1 (length (bc_blocks c) - 1))"
    "uint n + int (emission 1 (length (bc_blocks c) - 1)) + 3700000000 < 2 ^ 64"
    "cs_chain_id (bc_state c) = cid" "cs_require_hybrid_signatures (bc_state c) = hyb"
    "bc_base_height c = 0" "bc_checkpoint c = None" "is_difficulty_in_bounds (bc_difficulty c)"
proof -
  let ?len = "length (bc_blocks c)"
  have len: "?len < 2 ^ 63" using short by simp
  show sync: "in_sync L c" using runs_in_sync [OF r new_chain_in_sync [OF born] len] .
  show net: "same_network c0 c" by (rule runs_same_network [OF r])
  obtain g where g: "network_genesis L cid tr vk vrf n al hyb pq = Inr g" "genesis_state L c0 = Inr g"
    "bc_base_height c0 = 0" "bc_checkpoint c0 = None" "bc_genesis_treasury c0 = tr" "bc_genesis_supply c0 = n"
    "bc_difficulty c0 = clamp_difficulty d"
    using born by (auto simp: new_chain_ok genesis_state_def)
  obtain bal st where gf: "g = founded cid n al hyb bal st"
    using network_genesis_founded [OF g(1) tr] by blast
  have "int (emission 1 (?len - 1)) \<le> 70300000000000000 + 300000000000 * 50000000"
    using emission_from_genesis [of "?len - 1"] short by linarith
  moreover have "uint n \<le> 30000000000000000" using n by (simp add: uint_le)
  ultimately show room: "uint n + int (emission 1 (?len - 1)) + 3700000000 < 2 ^ 64" by simp
  then have "uint (bc_genesis_supply c) + int (emission 1 (?len - 1)) < 2 ^ 64"
    using net g(6) by (simp add: same_network_def)
  then have all: "sound (bc_state c) \<and> uint (cs_total_supply (bc_state c)) \<le> uint n + int (emission 1 (?len - 1))
      \<and> evolves g (bc_state c)"
    using genesis_rooted_sound [OF sync _ _ _ len] net g tr same_network_genesis [OF net, of L]
    by (auto simp: same_network_def)
  then show "sound (bc_state c)"
    "uint (cs_total_supply (bc_state c)) \<le> uint n + int (emission 1 (?len - 1))" by simp_all
  have "cs_chain_id (bc_state c) = cs_chain_id g"
    "cs_require_hybrid_signatures (bc_state c) = cs_require_hybrid_signatures g"
    using all unfolding evolves_def by blast+
  then show "cs_chain_id (bc_state c) = cid" "cs_require_hybrid_signatures (bc_state c) = hyb"
    by (simp_all add: gf founded_def)
  show "bc_base_height c = 0" "bc_checkpoint c = None" "is_difficulty_in_bounds (bc_difficulty c)"
    using net g by (simp_all add: same_network_def)
qed

section \<open>What a valid chain looks like\<close>

lemma replay_linked:
  assumes "replay_blocks L base pre v bs = Inr w" "pre \<noteq> []" "length pre \<le> i" "i < length (pre @ bs)"
  shows "blk_previous_hash ((pre @ bs) ! i) = blk_hash ((pre @ bs) ! (i - 1))
    \<and> blk_index ((pre @ bs) ! i) = base + as_u64 i
    \<and> blk_timestamp ((pre @ bs) ! (i - 1)) \<le> blk_timestamp ((pre @ bs) ! i)
    \<and> has_valid_pow L ((pre @ bs) ! i) \<and> has_valid_merkle_root L ((pre @ bs) ! i)"
  using assms
proof (induction bs arbitrary: pre v)
  case (Cons b bs)
  obtain s r d where v: "v = (s, r, d)" by (cases v)
  obtain s' d' where valid: "validate_block_at L b (base + as_u64 (length pre)) (blk_hash (last pre)) s r
      (blk_timestamp (last pre)) d = Inr s'"
    and rest: "replay_blocks L base (pre @ [b])
      (s', next_randomness L r (case blk_vrf_output b of None \<Rightarrow> [] | Some v \<Rightarrow> v), d') bs = Inr w"
    using Cons.prems(1) unfolding v replay_blocks_cons_ok by blast
  show ?case
  proof (cases "i = length pre")
    case True
    have "(pre @ b # bs) ! i = b" using True by simp
    moreover have "(pre @ b # bs) ! (i - 1) = last pre"
      using True Cons.prems(2) by (simp add: nth_append last_conv_nth)
    ultimately show ?thesis using valid True by (simp add: validate_block_at_ok exec_ok)
  next
    case False
    with Cons.IH [OF rest] Cons.prems(3,4) show ?thesis by simp
  qed
qed simp

lemma replay_tip_root:
  assumes "replay_blocks L base pre v bs = Inr (t, r, d)" "bs \<noteq> []"
  shows "blk_state_root (last bs) = state_root L t"
proof -
  obtain xs b where bs: "bs = xs @ [b]" using assms(2) by (cases bs rule: rev_exhaust) auto
  obtain w where "replay_blocks L base (pre @ xs) w [b] = Inr (t, r, d)"
    using assms(1) unfolding bs replay_blocks_append bindR_ok by blast
  then show ?thesis
    unfolding bs by (cases w) (auto simp: replay_blocks_cons_ok validate_block_at_ok execute_block_ok)
qed

lemma in_sync_quick_integrity:
  assumes "in_sync L c"
  shows "quick_integrity L c"
proof -
  obtain anchor rest root where c: "bc_blocks c = anchor # rest" and a: "has_valid_pow L anchor"
    and r: "replay_root L c anchor = Inr root"
    and bs: "replay_blocks L (bc_base_height c) [anchor] root rest
      = Inr (bc_state c, bc_randomness c, bc_current_difficulty c)"
    using assms by (auto simp: in_sync_def validate_full_ok)
  show ?thesis
  proof (cases "rest = []")
    case True
    then have "root = (bc_state c, bc_randomness c, bc_current_difficulty c)" using bs by simp
    then have "blk_state_root anchor = state_root L (bc_state c)"
      using r by (auto simp: replay_root_def exec_ok split: option.splits)
    then show ?thesis using c a True by (simp add: quick_integrity_def)
  next
    case False
    then have n: "0 < length rest" by simp
    have last: "([anchor] @ rest) ! length rest = last rest"
      using False by (simp add: last_conv_nth nth_Cons')
    note link = replay_linked [OF bs, of "length rest", unfolded last]
    show ?thesis
      using link n c replay_tip_root [OF bs False] by (simp add: quick_integrity_def Let_def)
  qed
qed

end
