(* ===== verification/Bundle.thy ===== *)
theory Bundle
  imports Lifecycle
begin

text \<open>
  Checkpoint bundles and slash evidence: replaying from a retarget boundary gives what replaying
  from the old root gives, and a replay that fails is right up to the block it fails on.
\<close>


section \<open>Replay does not depend on the root\<close>

lemma mod_10: "(w :: u64) mod 10 = 0 \<longleftrightarrow> unat w mod 10 = 0"
proof -
  have "w mod 10 = 0 \<longleftrightarrow> unat (w mod 10) = 0" by (simp only: unat_eq_zero)
  then show ?thesis by (simp only: unat_mod) simp
qed

lemma retarget_shift:
  assumes "xs \<noteq> []" "ys \<noteq> []" "base' mod 10 = 0" "base' \<noteq> 0"
    and p: "unat p + 1 = unat base' + length ys"
  shows "retarget (xs @ ys) p base d = (retarget ys p base' d :: ('e, u64) result)"
proof (cases "unat p + 1 < 2 ^ 64 \<and> (p + 1) mod RETARGET_INTERVAL = 0")
  case True
  then have "unat (p + 1) = unat base' + length ys" using p by (simp add: unat_plus)
  moreover have "unat (p + 1) mod 10 = 0"
    using True mod_10 [of "p + 1"] by (simp only: RETARGET_INTERVAL_def)
  moreover have "unat base' mod 10 = 0" using assms(3) by (simp only: mod_10)
  ultimately have "length ys mod 10 = 0" by presburger
  moreover have "length ys \<noteq> 0" using assms(2) by simp
  ultimately have "10 \<le> length ys" by presburger
  then have start: "(if base = 0 then max (length (xs @ ys) - 10) 1 else length (xs @ ys) - 10)
      = length xs + (length ys - 10)"
    using assms(1) by (cases xs) (simp, auto simp: max_def)
  have ten: "unat RETARGET_INTERVAL = 10" by (simp add: RETARGET_INTERVAL_def)
  have tail: "drop (length xs + n) (xs @ ys) = drop n ys" for n by simp
  have inside: "(length ys < length ys - 10) = False" "(length (xs @ ys) < length xs + (length ys - 10)) = False"
    by simp_all
  show ?thesis
    unfolding retarget_def Let_def ten start tail inside using assms(4) by (simp add: inside)
next
  case False
  then show ?thesis by (auto simp: retarget_def add_u64_def checked_add_def)
qed

lemma replay_shift:
  assumes "replay_blocks L base (xs @ ys) v bs = Inr w" "xs \<noteq> []" "ys \<noteq> []"
    and "base' mod 10 = 0" "base' \<noteq> 0" "unat base' = unat base + length xs"
    and "length xs + length ys + length bs < 2 ^ 63"
  shows "replay_blocks L base' ys v bs = Inr w"
  using assms
proof (induction bs arbitrary: ys v)
  case (Cons b bs)
  obtain s r d where v: "v = (s, r, d)" by (cases v)
  let ?i = "base + as_u64 (length (xs @ ys))"
  obtain s' d' where fits: "unat base + unat (as_u64 (length (xs @ ys))) < 2 ^ 64"
    and valid: "validate_block_at L b ?i (blk_hash (last (xs @ ys))) s r (blk_timestamp (last (xs @ ys))) d = Inr s'"
    and rt: "retarget ((xs @ ys) @ [b]) ?i base d = (Inr d' :: (nat \<times> block_error, u64) result)"
    and rest: "replay_blocks L base ((xs @ ys) @ [b])
      (s', next_randomness L r (case blk_vrf_output b of None \<Rightarrow> [] | Some v \<Rightarrow> v), d') bs = Inr w"
    using Cons.prems(1) unfolding v replay_blocks_cons_ok by blast
  have n: "unat (as_u64 (length (xs @ ys))) = length xs + length ys" "unat (as_u64 (length ys)) = length ys"
    using Cons.prems(7) by (simp_all add: unat_as_u64_small)
  then have small: "unat base' + unat (as_u64 (length ys)) < 2 ^ 64" using fits Cons.prems(6) by simp
  have ui: "unat ?i = unat base + (length xs + length ys)" using fits n(1) by (simp only: unat_plus)
  then have "unat ?i = unat (base' + as_u64 (length ys))"
    using small n(2) Cons.prems(6) by (simp only: unat_plus)
  then have i: "?i = base' + as_u64 (length ys)" by (simp add: word_unat_eq_iff)
  have "retarget (xs @ (ys @ [b])) ?i base d = (retarget (ys @ [b]) ?i base' d :: (nat \<times> block_error, u64) result)"
    by (rule retarget_shift [OF Cons.prems(2) _ Cons.prems(4,5)]) (use ui Cons.prems(6) in simp_all)
  with rt have "retarget (ys @ [b]) ?i base' d = (Inr d' :: (nat \<times> block_error, u64) result)"
    by (simp only: append_assoc)
  moreover have "replay_blocks L base' (ys @ [b])
      (s', next_randomness L r (case blk_vrf_output b of None \<Rightarrow> [] | Some v \<Rightarrow> v), d') bs = Inr w"
    by (rule Cons.IH) (use rest Cons.prems(2-7) in simp_all)
  ultimately show ?case
    using small valid Cons.prems(3) unfolding v replay_blocks_cons_ok i by (auto simp only: last_append if_False)
qed simp

lemma in_sync_blocks:
  assumes "in_sync L c" "i < length (bc_blocks c)"
  shows "blk_index (bc_blocks c ! i) = bc_base_height c + as_u64 i
    \<and> has_valid_pow L (bc_blocks c ! i) \<and> has_valid_merkle_root L (bc_blocks c ! i)"
proof -
  obtain anchor rest root where c: "bc_blocks c = anchor # rest"
    and a: "has_valid_pow L anchor" "has_valid_merkle_root L anchor" "blk_index anchor = bc_base_height c"
    and bs: "replay_blocks L (bc_base_height c) [anchor] root rest
      = Inr (bc_state c, bc_randomness c, bc_current_difficulty c)"
    using assms(1) by (auto simp: in_sync_def validate_full_ok)
  show ?thesis
  proof (cases i)
    case 0
    with a c show ?thesis by (simp add: as_u64_def)
  next
    case (Suc j)
    with replay_linked [OF bs, of i] assms(2) c show ?thesis by simp
  qed
qed

lemma tip_index_ok:
  assumes "bc_blocks c \<noteq> []" "length (bc_blocks c) < 2 ^ 63"
  shows "tip_index c = (Inr t :: ('e, u64) result) \<longleftrightarrow>
    unat (bc_base_height c) + length (bc_blocks c) < 2 ^ 64 \<and> unat t = unat (bc_base_height c) + length (bc_blocks c) - 1"
proof -
  have n: "unat (as_u64 (length (bc_blocks c))) = length (bc_blocks c)"
    using assms(2) by (simp add: unat_as_u64_small)
  have pos: "1 \<le> length (bc_blocks c)" using assms(1) by (cases "bc_blocks c") simp_all
  have "unat (sat_sub (bc_base_height c + as_u64 (length (bc_blocks c))) 1)
      = unat (bc_base_height c) + length (bc_blocks c) - 1"
    if "unat (bc_base_height c) + length (bc_blocks c) < 2 ^ 64"
    using that n pos by (simp add: unat_sat_sub unat_plus)
  moreover have "tip_index c = (Inr t :: ('e, u64) result) \<longleftrightarrow>
      unat (bc_base_height c) + length (bc_blocks c) < 2 ^ 64
      \<and> t = sat_sub (bc_base_height c + as_u64 (length (bc_blocks c))) 1"
    by (auto simp: tip_index_def next_index_def exec_ok n)
  ultimately show ?thesis by (metis word_unat_eq_iff)
qed


section \<open>Bundles\<close>

lemma export_checkpoint_ok:
  "export_checkpoint c = Inr (a, cp) \<longleftrightarrow>
     (\<exists>t. tip_index c = (Inr t :: u64 outcome) \<and> t \<noteq> 0 \<and> t mod RETARGET_INTERVAL = 0) \<and> bc_blocks c \<noteq> []
     \<and> a = last (bc_blocks c)
     \<and> cp = \<lparr>cp_state = bc_state c, cp_randomness = bc_randomness c, cp_difficulty = bc_current_difficulty c\<rparr>"
  unfolding export_checkpoint_def bindR_ok require_ok by (auto del: mod_0_imp_dvd)

text \<open>Cutting a valid chain after \<open>k + 1\<close> blocks gives a valid chain, and the rest replays on top of it.\<close>

lemma in_sync_cut:
  assumes "in_sync L c" "k < length (bc_blocks c)"
  shows "\<exists>s r d. validate_full L (c\<lparr>bc_blocks := take (k + 1) (bc_blocks c)\<rparr>) = Inr (s, r, d)
    \<and> replay_blocks L (bc_base_height c) (take (k + 1) (bc_blocks c)) (s, r, d) (drop (k + 1) (bc_blocks c))
      = Inr (bc_state c, bc_randomness c, bc_current_difficulty c)"
proof -
  obtain anchor rest root where c: "bc_blocks c = anchor # rest" and a: "has_valid_pow L anchor"
    "has_valid_merkle_root L anchor" "blk_index anchor = bc_base_height c" "replay_root L c anchor = Inr root"
    and bs: "replay_blocks L (bc_base_height c) [anchor] root (take k rest @ drop k rest)
      = Inr (bc_state c, bc_randomness c, bc_current_difficulty c)"
    using assms(1) by (auto simp: in_sync_def validate_full_ok)
  obtain v where v: "replay_blocks L (bc_base_height c) [anchor] root (take k rest) = Inr v"
    and tl: "replay_blocks L (bc_base_height c) (anchor # take k rest) v (drop k rest)
      = Inr (bc_state c, bc_randomness c, bc_current_difficulty c)"
    using bs unfolding replay_blocks_append bindR_ok by auto
  have "validate_full L (c\<lparr>bc_blocks := take (k + 1) (bc_blocks c)\<rparr>) = Inr v"
    using a v c by (cases root) (simp add: validate_full_ok)
  with tl c show ?thesis by (cases v) auto
qed

lemma from_bundle_ok:
  assumes "blk_index (cb_anchor bd) mod RETARGET_INTERVAL = 0"
    and "blk_state_root (cb_anchor bd) = state_root L (cp_state (cb_checkpoint bd))"
    and "has_valid_pow L (cb_anchor bd)" "has_valid_merkle_root L (cb_anchor bd)"
    and "replay_blocks L (blk_index (cb_anchor bd)) [cb_anchor bd]
      (cp_state (cb_checkpoint bd), cp_randomness (cb_checkpoint bd), cp_difficulty (cb_checkpoint bd))
      (cb_forward_blocks bd) = Inr (s, r, d)"
  shows "\<exists>c. from_bundle L bd = Inr c \<and> bc_blocks c = cb_anchor bd # cb_forward_blocks bd
    \<and> bc_base_height c = blk_index (cb_anchor bd) \<and> bc_state c = s \<and> bc_randomness c = r
    \<and> bc_current_difficulty c = d"
  using assms
  by (auto simp: from_bundle_def from_checkpoint_def bindR_ok require_ok rebuild_state_ok validate_full_ok
      replay_root_def exec_ok)

lemma bundle_replays:
  assumes sync: "in_sync L c" and "bc_base_height c mod 10 = 0" and len: "length (bc_blocks c) < 2 ^ 63"
    and tip: "tip_index c = (Inr tip :: u64 outcome)" and "10 \<le> unat tip"
  shows "\<exists>bd d. export_bundle L c = Inr bd \<and> from_bundle L bd = Inr d
    \<and> bc_state d = bc_state c \<and> bc_randomness d = bc_randomness c
    \<and> bc_current_difficulty d = bc_current_difficulty c
    \<and> bc_base_height d = tip div 10 * 10
    \<and> bc_blocks d = drop (unat (tip div 10 * 10 - bc_base_height c)) (bc_blocks c)"
proof -
  let ?base = "bc_base_height c" and ?B = "tip div 10 * 10"
  have ne: "bc_blocks c \<noteq> []" using sync by (auto simp: in_sync_def validate_full_ok)
  then have t: "unat ?base + length (bc_blocks c) < 2 ^ 64" "unat tip = unat ?base + length (bc_blocks c) - 1"
    using tip len by (simp_all add: tip_index_ok)
  have pos: "1 \<le> length (bc_blocks c)" using ne by (cases "bc_blocks c") simp_all
  have "unat tip div 10 * 10 < 2 ^ 64"
    by (rule le_less_trans [OF div_times_less_eq_dividend]) simp
  then have B: "unat ?B = unat tip div 10 * 10" using unat_mult_lem [of "tip div 10" 10] by (simp add: unat_div)
  have B10: "unat ?B mod 10 = 0" by (simp add: B)
  have "unat ?base mod 10 = 0" using assms(2) by (simp only: mod_10)
  moreover have "unat ?base \<le> unat tip" using t pos by linarith
  ultimately have le: "unat ?base \<le> unat ?B" "unat ?B \<le> unat tip" unfolding B by presburger+
  have B0: "?B \<noteq> 0" using B assms(5) by auto
  let ?k = "unat (?B - ?base)"
  have k: "?k = unat ?B - unat ?base" using le(1) by (simp add: unat_minus word_le_nat_alt)
  have klen: "?k < length (bc_blocks c)" using k le t pos by linarith
  let ?pre = "take (?k + 1) (bc_blocks c)"
  obtain s r d where cut: "validate_full L (c\<lparr>bc_blocks := ?pre\<rparr>) = Inr (s, r, d)"
    and fwd: "replay_blocks L ?base ?pre (s, r, d) (drop (?k + 1) (bc_blocks c))
      = Inr (bc_state c, bc_randomness c, bc_current_difficulty c)"
    using in_sync_cut [OF sync klen] by blast
  let ?trunc = "c\<lparr>bc_blocks := ?pre, bc_finalized_height := ?base, bc_state := s, bc_randomness := r,
      bc_current_difficulty := d\<rparr>"
  have rb: "rebuild_state L (c\<lparr>bc_blocks := ?pre, bc_finalized_height := ?base\<rparr>) = Inr ?trunc"
    using cut by (simp add: rebuild_state_ok)
  have lpre: "length ?pre = ?k + 1" "?pre \<noteq> []" using klen ne by (simp_all add: take_Suc_conv_app_nth)
  have ttip: "tip_index ?trunc = (Inr ?B :: u64 outcome)"
    using tip_index_ok [of ?trunc ?B, where 'e = string] lpre k le t len klen by simp
  let ?a = "bc_blocks c ! ?k"
  have last: "last ?pre = ?a" "?pre = take ?k (bc_blocks c) @ [?a]"
    using klen by (simp_all add: take_Suc_conv_app_nth)
  let ?cp = "\<lparr>cp_state = s, cp_randomness = r, cp_difficulty = d\<rparr>"
  have "export_checkpoint ?trunc = Inr (?a, ?cp)"
    using ttip B0 B10 lpre(2) last(1) by (simp add: export_checkpoint_ok RETARGET_INTERVAL_def mod_10)
  then obtain bd where bd: "export_bundle L c = Inr bd" "cb_anchor bd = ?a" "cb_checkpoint bd = ?cp"
    "cb_forward_blocks bd = drop (?k + 1) (bc_blocks c)"
    using tip rb B0 le(1) klen
    by (auto simp: export_bundle_def Let_def bindR_ok exec_ok RETARGET_INTERVAL_def word_le_nat_alt)
  have a: "blk_index ?a = ?B" "has_valid_pow L ?a" "has_valid_merkle_root L ?a"
    using in_sync_blocks [OF sync klen] by (simp_all add: as_u64_def)
  have "in_sync L ?trunc" using cut by (simp add: in_sync_def)
  then have root: "blk_state_root ?a = state_root L s"
    using in_sync_quick_integrity [of L ?trunc] last(1) lpre(2) by (simp add: quick_integrity_def Let_def)
  have fwd': "replay_blocks L ?B [?a] (s, r, d) (drop (?k + 1) (bc_blocks c))
      = Inr (bc_state c, bc_randomness c, bc_current_difficulty c)"
  proof (cases "?k = 0")
    case True
    then have "?B = ?base" using le k by (simp add: word_unat_eq_iff)
    with fwd last(2) True show ?thesis by simp
  next
    case False
    then have "take ?k (bc_blocks c) \<noteq> []" using ne by simp
    then show ?thesis
      by (rule replay_shift [OF fwd [unfolded last(2)]])
         (use B10 B0 le k klen len in \<open>simp_all add: mod_10\<close>)
  qed
  obtain e where "from_bundle L bd = Inr e" "bc_blocks e = ?a # drop (?k + 1) (bc_blocks c)"
    "bc_base_height e = ?B" "bc_state e = bc_state c" "bc_randomness e = bc_randomness c"
    "bc_current_difficulty e = bc_current_difficulty c"
    using from_bundle_ok [of bd L] a root fwd' B10 unfolding bd(2-4) by (auto simp: RETARGET_INTERVAL_def mod_10)
  moreover have "?a # drop (?k + 1) (bc_blocks c) = drop ?k (bc_blocks c)"
    using klen by (simp add: Cons_nth_drop_Suc)
  ultimately show ?thesis using bd(1) by auto
qed


section \<open>Slash evidence\<close>

lemma bindR_err:
  "bindR m f = Inl (Err e) \<longleftrightarrow> m = Inl (Err e) \<or> (\<exists>x. m = Inr x \<and> f x = Inl (Err e))"
  by (cases m) simp_all

lemma map_err_err: "map_err f r = Inl (Err y) \<longleftrightarrow> (\<exists>e. r = Inl (Err e) \<and> y = f e)"
  by (auto simp: map_err_def split: sum.splits failure.splits)

lemma add_u64_no_err: "add_u64 a b \<noteq> Inl (Err e)"
  by (simp add: add_u64_def split: option.split)

lemma retarget_no_err: "retarget bs p b d \<noteq> Inl (Err e)"
proof -
  have "adjusted_difficulty d w \<noteq> Inl (Err e)" for w
    by (simp add: adjusted_difficulty_def Let_def bindR_err add_u64_no_err)
  then show ?thesis by (simp add: retarget_def Let_def bindR_err add_u64_no_err)
qed

text \<open>A replay that fails at position \<open>k\<close> has accepted every block before it.\<close>

lemma replay_fails_at:
  assumes "replay_blocks L base pre v bs = Inl (Err (k, e))"
  shows "length pre \<le> k \<and> k < length pre + length bs
    \<and> (\<exists>w. replay_blocks L base pre v (take (k - length pre) bs) = Inr w)"
  using assms
proof (induction bs arbitrary: pre v)
  case (Cons b bs)
  obtain s r d where v: "v = (s, r, d)" by (cases v)
  let ?next = "next_randomness L r (case blk_vrf_output b of None \<Rightarrow> [] | Some v \<Rightarrow> v)"
  consider (here) "k = length pre"
    | (later) s' d' where "unat base + unat (as_u64 (length pre)) < 2 ^ 64"
      "validate_block_at L b (base + as_u64 (length pre)) (blk_hash (last pre)) s r (blk_timestamp (last pre)) d = Inr s'"
      "retarget (pre @ [b]) (base + as_u64 (length pre)) base d = (Inr d' :: (nat \<times> block_error, u64) result)"
      "replay_blocks L base (pre @ [b]) (s', ?next, d') bs = Inl (Err (k, e))"
    using Cons.prems unfolding v replay_blocks.simps(2)
    by (auto simp: bindR_err map_err_err map_err_ok add_u64_no_err retarget_no_err add_u64_ok)
  then show ?case
  proof cases
    case here
    then show ?thesis by (simp add: v)
  next
    case later
    from Cons.IH [OF later(4)] obtain w where k: "length pre < k" "k < length pre + Suc (length bs)"
      "replay_blocks L base (pre @ [b]) (s', ?next, d') (take (k - Suc (length pre)) bs) = Inr w" by auto
    have "k - length pre = Suc (k - Suc (length pre))" using k(1) by (rule Suc_diff_Suc [symmetric])
    then have "take (k - length pre) (b # bs) = b # take (k - Suc (length pre)) bs" by simp
    with later k show ?thesis unfolding v by (cases w) (auto simp: replay_blocks_cons_ok)
  qed
qed simp

end
