(* ===== verification/Chain_Samples.thy ===== *)
theory Chain_Samples
  imports Samples Bundle
begin

text \<open>
  Concrete chains over the sample library: a network whose treasury bonds its whole supply, a
  block with its reward that validates on it, and a chain rooted in a checkpoint.
\<close>


definition reward_tx :: transaction where
  "reward_tx = new_transaction ''r'' (GENESIS_TIMESTAMP * 1000000000) None treasury 3700000000 Reward"

text \<open>An entry of the registry put on the chain, with no payload.\<close>

definition anchor_tx :: transaction where
  "anchor_tx = new_transaction ''c'' (GENESIS_TIMESTAMP * 1000000000) None treasury 0 Certificate"

definition chain_lib :: net_lib where
  "chain_lib = sample_lib [''r'' \<mapsto> reward_tx, ''c'' \<mapsto> anchor_tx]"

definition zeros :: string where "zeros = replicate 64 CHR ''0''"

lemma chain_lib_sha [simp]: "sha256_hex chain_lib x = zeros" "state_root chain_lib s = zeros"
  by (simp_all add: chain_lib_def sha256_hex_def state_root_def to_hex_zero zeros_def)

definition home_state :: chain_state where
  "home_state = founded [] 5000000 [] False
     (fmupd STAKING_POOL_ACCOUNT 5000000 (fmupd treasury 0 fmempty))
     (fmupd treasury \<lparr>si_stake = 5000000, si_public_key = ''00'', si_vrf_public_key = ''00'', si_pq_public_key = []\<rparr>
        fmempty)"

definition home_block :: block where
  "home_block = \<lparr>blk_index = 0, blk_timestamp = GENESIS_TIMESTAMP * 1000000000, blk_transactions = [GENESIS_DATA],
     blk_merkle_root = compute_merkle_root chain_lib [GENESIS_DATA], blk_state_root = zeros, blk_previous_hash = ''0'',
     blk_difficulty = 2, blk_nonce = 0, blk_hash = zeros, blk_validator = None, blk_validator_public_key = None,
     blk_validator_signature = None, blk_validator_pq_signature = None, blk_vrf_output = None, blk_vrf_proof = None\<rparr>"

definition home :: blockchain where
  "home = \<lparr>bc_blocks = [home_block], bc_difficulty = 2, bc_finalized_height = 0, bc_genesis_treasury = treasury,
     bc_genesis_validator_public_key = Some ''00'', bc_genesis_validator_vrf_public_key = Some ''00'',
     bc_genesis_supply = 5000000, bc_genesis_validator_allowlist = [], bc_genesis_chain_id = [],
     bc_genesis_require_hybrid_signatures = False, bc_genesis_validator_pq_public_key = None, bc_state = home_state,
     bc_randomness = zeros, bc_current_difficulty = 2, bc_base_height = 0, bc_checkpoint = None\<rparr>"

lemma clamp_2: "clamp_difficulty 2 = 2"
  by (simp add: clamp_difficulty_def clampW_def MIN_DIFFICULTY_def MAX_DIFFICULTY_def)

lemma treasury_classical: "\<not> is_hybrid_address treasury"
  by (simp add: is_hybrid_address_def)

lemma home_network: "network_genesis chain_lib [] treasury (Some ''00'') (Some ''00'') 5000000 [] False None = Inr home_state"
  by (simp add: network_genesis_def genesis_for_chain_def GENESIS_VALIDATOR_STAKE_def UNITS_PER_HKM_def min_def
      fmfind_def sub_u64_def add_u64_def checked_add_def seat_genesis_validator_pq_key_def treasury_classical)
     (simp add: home_state_def founded_def default_chain_state_def)

lemma home_born:
  "new_with_genesis_on_chain chain_lib [] 2 treasury (Some ''00'') (Some ''00'') 5000000 [] False None = Inr home"
  using sample_mining [of "[''r'' \<mapsto> reward_tx, ''c'' \<mapsto> anchor_tx]"]
  by (simp add: new_chain_ok home_network genesis_block_def new_at_def clamp_2 Let_def flip: chain_lib_def zeros_def)
     (simp add: home_def home_block_def)

text \<open>The next block, with its reward.\<close>

definition next_block :: block where
  "next_block = \<lparr>blk_index = 1, blk_timestamp = GENESIS_TIMESTAMP * 1000000000, blk_transactions = [''r''],
     blk_merkle_root = compute_merkle_root chain_lib [''r''], blk_state_root = zeros, blk_previous_hash = zeros,
     blk_difficulty = 2, blk_nonce = 0, blk_hash = zeros, blk_validator = Some treasury,
     blk_validator_public_key = Some ''00'', blk_validator_signature = Some ''00'', blk_validator_pq_signature = None,
     blk_vrf_output = Some ''00'', blk_vrf_proof = Some ''00''\<rparr>"

lemma home_sound: "sound home_state"
  unfolding home_state_def
  by (rule founded_sound) (use books_open_bonded [of treasury 5000000 5000000] in simp)

lemma zeros_lead: "leading_zeros 2 zeros"
  by (simp add: leading_zeros_def starts_with_def zeros_def)

lemma next_block_pow: "has_valid_pow chain_lib next_block" "has_valid_merkle_root chain_lib next_block"
  by (simp_all add: has_valid_pow_def has_valid_merkle_root_def next_block_def calculate_hash_def
      is_difficulty_in_bounds_def MIN_DIFFICULTY_def MAX_DIFFICULTY_def zeros_lead)

lemma next_block_executes: "\<exists>t. execute_block chain_lib next_block treasury home_state = Inr t"
proof -
  have parse: "tx_parse chain_lib ''r'' = Some reward_tx" by (simp add: chain_lib_def)
  have v: "verify_for_block chain_lib reward_tx treasury = Inr ()"
    by (simp add: verify_for_block_def verify_reward_def reward_tx_def new_transaction_def exec_ok)
  obtain u where u: "apply_verified chain_lib reward_tx 1 home_state = (Inr (), u)"
    by (simp add: apply_verified_def verify_chain_scope_ok verify_signature_policy_ok reward_tx_def
        new_transaction_def apply_reward_ok exec_ok)
  have reward: "block_reward 1 = 3700000000"
    by (simp add: word_unat_eq_iff unat_block_reward reward_nat_def)
  then have "execute_transactions chain_lib treasury 1 [''r''] (home_state, 0) = Inr (u, 1)"
    unfolding execute_transactions_cons execute_transaction_ok
    using parse v u by (auto simp: reward_tx_def new_transaction_def)
  moreover from execute_transactions_sound [OF this _ home_sound samples_external(1), of 5000000]
  have "sound u" using reward by (simp add: home_state_def founded_def)
  moreover obtain t where "end_block 1 treasury u = (Inr (), t)"
    using end_block_books [OF \<open>sound u\<close> samples_external(1)] by blast
  ultimately show ?thesis unfolding execute_block_ok by (auto simp: next_block_def)
qed

lemma home_selects: "select_staker_with_seed L seed (validator_set home_state) = Inr (Some treasury)"
proof -
  have "keys_of (cs_stakers home_state) = [treasury]"
    by (simp add: home_state_def founded_def keys_of_def sorted_list_of_fset.rep_eq)
  then have "validator_set home_state = [\<lparr>st_address = treasury, st_stake = 5000000, st_public_key = Some ''00''\<rparr>]"
    by (simp add: validator_set_def home_state_def founded_def fmfind_def)
  then show ?thesis by (simp add: select_staker_with_seed_ok)
qed

lemma from_hex_zeros: "from_hex zeros = Inr zero_digest"
proof -
  have zero: "char_of (17 * from_hex_digit CHR ''0'') = CHR 0x00" by code_simp
  have "from_hex (replicate (2 * n) CHR ''0'') = Inr (replicate n CHR 0x00)" for n
    by (induction n) (simp_all add: zero)
  from this [of 32] show ?thesis by (simp add: zeros_def zero_digest_def)
qed

lemma sample_seals:
  "verify_block_signature chain_lib zeros ''00'' ''00''" "vrf_verify chain_lib slot ''00'' ''00'' ''00''"
  using from_hex_zeros
  by (simp_all add: verify_block_signature_def verify_digest_def vrf_verify_def chain_lib_def sample_lib_def)

lemma next_block_rounds:
  "rounds_upto (open_rounds (blk_timestamp home_block) (blk_timestamp next_block)) = [0]"
  by (simp add: rounds_upto_def open_rounds_def num_seconds_def trunc_div_def next_block_def home_block_def)

lemma next_block_slot:
  "check_slot chain_lib next_block treasury home_state zeros (blk_timestamp home_block)
   = Inr (slot_input_at_round zeros 1 0)"
  using next_block_rounds by (simp add: check_slot_ok home_selects) (simp add: next_block_def)

lemma next_block_valid_at:
  "\<exists>t. validate_block_at chain_lib next_block 1 zeros home_state zeros (blk_timestamp home_block) 2 = Inr t"
proof -
  obtain t where t: "execute_block chain_lib next_block treasury home_state = Inr t"
    using next_block_executes by blast
  have "check_header next_block 1 zeros (blk_timestamp home_block) 2 = Inr ()"
    by (simp add: check_header_ok next_block_def home_block_def is_difficulty_in_bounds_def
        MIN_DIFFICULTY_def MAX_DIFFICULTY_def)
  moreover have "check_seal chain_lib next_block treasury home_state slot = Inr ()" for slot
    by (simp add: check_seal_ok next_block_def home_state_def founded_def sample_seals)
  ultimately show ?thesis
    using t next_block_pow next_block_slot by (auto simp: validate_block_at_ok next_block_def)
qed

lemma next_block_valid: "\<exists>t. validate_block_candidate chain_lib (blk_timestamp next_block) home next_block = Inr t"
proof -
  obtain t where "validate_block_at chain_lib next_block 1 zeros home_state zeros (blk_timestamp home_block) 2 = Inr t"
    using next_block_valid_at by blast
  then show ?thesis
    by (simp add: validate_block_candidate_ok seconds_def MAX_TIMESTAMP_SKEW_SECONDS_def)
       (auto simp: home_def next_block_def home_block_def next_index_def latest_hash_def exec_ok as_u64_def)
qed


section \<open>The chain of two blocks\<close>

lemma home_commits:
  "\<exists>t c. validate_block_candidate chain_lib (blk_timestamp next_block) home next_block = Inr t
     \<and> commit_block chain_lib next_block t home = (Inr c :: blockchain outcome) \<and> bc_blocks c = [home_block, next_block]"
proof -
  obtain t where "validate_block_candidate chain_lib (blk_timestamp next_block) home next_block = Inr t"
    using next_block_valid by blast
  moreover have "\<exists>c. commit_block chain_lib next_block t home = (Inr c :: blockchain outcome)
      \<and> bc_blocks c = [home_block, next_block]"
    by (simp add: commit_block_def home_def tip_index_def next_index_def exec_ok as_u64_def bindR_def
        add_u64_def checked_add_def retarget_def RETARGET_INTERVAL_def sat_sub_def)
  ultimately show ?thesis by blast
qed

lemma home_extended: "\<exists>c. runs chain_lib home c \<and> bc_blocks c = [home_block, next_block]"
  using home_commits runs.extend [OF runs.born] by blast

end
