(* ===== verification/Chain_Properties.thy ===== *)
theory Chain_Properties
  imports History Election Chain_Samples
begin

text \<open>
  The properties of the chain: its cache, its books, fork choice, finality, leaders, difficulty,
  checkpoints and evidence, each with an instance on the sample chains.
\<close>


section \<open>The cache and the books\<close>

text \<open>C3 The cache is the replay. Whatever a node does, starting from its genesis or from a bundle,
  committing validated blocks, adopting heavier chains, moving finality, the state, the randomness
  and the difficulty it holds are what replaying its blocks from the root yields, so its chain is
  valid and the cheap integrity check agrees.\<close>

theorem cache_is_the_replay:
  assumes "new_with_genesis_on_chain L cid d tr vk vrf n al hyb pq = Inr c0 \<or> from_bundle L bundle = Inr c0"
    and "runs L c0 c" and "length (bc_blocks c) < 2 ^ 63"
  shows "validate_full L c = Inr (bc_state c, bc_randomness c, bc_current_difficulty c)
    \<and> is_valid L c = (Inr True :: (unit, bool) result) \<and> quick_integrity L c"
proof -
  have "in_sync L c0" using assms(1) new_chain_in_sync bundle_in_sync by blast
  then have "in_sync L c" by (rule runs_in_sync [OF assms(2) _ assms(3)])
  then show ?thesis using in_sync_quick_integrity by (auto simp: in_sync_def is_valid_def)
qed

theorem cache_is_the_replay_witness:
  "\<exists>c. length (bc_blocks c) = 2
     \<and> validate_full chain_lib c = Inr (bc_state c, bc_randomness c, bc_current_difficulty c)"
proof -
  obtain c where c: "runs chain_lib home c" "length (bc_blocks c) = 2" using home_extended by fastforce
  then show ?thesis using cache_is_the_replay [OF disjI1 [OF home_born] c(1)] by auto
qed

text \<open>C2 The books balance at every tip. On a network whose treasury is an ordinary account, at every
  chain a node can come to hold, the balances and pools of the state add up, and the supply is at
  most the genesis supply plus the rewards of the heights so far; with a supply of up to thirty
  billion HKM there is room for three hundred billion blocks. The network's name and policy are
  those of its genesis.\<close>

theorem books_balance_at_every_tip:
  assumes "new_with_genesis_on_chain L cid d tr vk vrf n al hyb pq = Inr c0" and "\<not> internal_account tr"
    and "n \<le> 30000000000000000" and "runs L c0 c" and "length (bc_blocks c) \<le> 300000000000"
  shows "sound (bc_state c)
    \<and> unat (cs_total_supply (bc_state c)) \<le> unat n + (\<Sum>h<length (bc_blocks c) - 1. reward_nat (h + 1))
    \<and> cs_chain_id (bc_state c) = cid \<and> cs_require_hybrid_signatures (bc_state c) = hyb"
proof -
  note books = reachable_books [OF assms]
  have "int (unat (cs_total_supply (bc_state c))) \<le> int (unat n + emission 1 (length (bc_blocks c) - 1))"
    using books(4) by simp
  then have "unat (cs_total_supply (bc_state c)) \<le> unat n + (\<Sum>h<length (bc_blocks c) - 1. reward_nat (h + 1))"
    by (simp only: of_nat_le_iff emission_def add.commute)
  with books show ?thesis by simp
qed

theorem books_balance_at_every_tip_witness:
  "\<exists>c :: blockchain. length (bc_blocks c) = 2 \<and> sound (bc_state c)
     \<and> unat (cs_total_supply (bc_state c)) \<le> unat (5000000 :: u64) + (\<Sum>h<length (bc_blocks c) - 1. reward_nat (h + 1))"
proof -
  obtain c where c: "runs chain_lib home c" "length (bc_blocks c) = 2" using home_extended by fastforce
  have "sound (bc_state c)
      \<and> unat (cs_total_supply (bc_state c)) \<le> unat (5000000 :: u64) + (\<Sum>h<length (bc_blocks c) - 1. reward_nat (h + 1))
      \<and> cs_chain_id (bc_state c) = [] \<and> cs_require_hybrid_signatures (bc_state c) = False"
    by (rule books_balance_at_every_tip [OF home_born samples_external(1) _ c(1)]) (simp_all add: c(2))
  with c(2) show ?thesis by blast
qed


section \<open>Fork choice and finality\<close>

text \<open>C9 Finalized history is never rewritten. A node that considers a candidate chain either keeps its
  own chain unchanged or holds one that replays, has the same root, the same block hashes at every
  finalized position and a tip at least as high; finality, network and root height stay.\<close>

theorem finalized_history_stays:
  assumes "try_adopt_chain L now candidate c = Inr (adopted, c')"
  shows "(if adopted then bc_blocks c' = bc_blocks candidate \<and> in_sync L c'
            \<and> (\<exists>t t'. tip_index c = (Inr t :: u64 outcome) \<and> tip_index c' = (Inr t' :: u64 outcome) \<and> t \<le> t')
          else c' = c)
    \<and> bc_finalized_height c' = bc_finalized_height c \<and> same_network c c'
    \<and> (\<forall>i \<le> unat (bc_finalized_height c - bc_base_height c).
          blk_hash (bc_blocks c' ! i) = blk_hash (bc_blocks c ! i))"
proof (cases adopted)
  case True
  have ok: "bc_blocks c' = bc_blocks candidate" "bc_base_height c = bc_base_height candidate"
    "bc_base_height c' = bc_base_height c" "bc_finalized_height c' = bc_finalized_height c" "same_network c c'"
    "outweighs candidate c = (Inr True :: bool outcome)"
    "\<forall>i \<le> unat (bc_finalized_height c - bc_base_height c).
        blk_hash (bc_blocks c ! i) = blk_hash (bc_blocks candidate ! i)"
    using assms True by (auto simp: try_adopt_chain_ok same_network_def)
  obtain t t' where t: "tip_index c = (Inr t :: u64 outcome)" "tip_index candidate = (Inr t' :: u64 outcome)" "t \<le> t'"
    using ok(6) unfolding outweighs_def bindR_ok by (auto split: if_splits)
  have "tip_index c' = (Inr t' :: u64 outcome)"
    using t(2) ok(1-3) by (simp add: tip_index_def next_index_def)
  moreover have "in_sync L c'" using adopted_in_sync [of L now candidate c c'] assms True by simp
  ultimately show ?thesis using t ok True by simp
next
  case False
  then have "c' = c" using assms by (simp add: try_adopt_chain_ok)
  with False show ?thesis by (simp add: same_network_def)
qed

theorem finalized_history_stays_witness:
  "\<exists>c'. try_adopt_chain chain_lib 1767225600000000000 home home = Inr (False, c') \<and> c' = home"
proof -
  have "try_adopt_chain chain_lib 1767225600000000000 home home = Inr (False, home)"
    by (simp add: try_adopt_chain_ok home_def home_block_def GENESIS_TIMESTAMP_def seconds_def
        MAX_TIMESTAMP_SKEW_SECONDS_def outweighs_def tip_index_def next_index_def cumulative_work_def
        work_for_difficulty_def as_u64_def add_u64_def checked_add_def)
  with finalized_history_stays [OF this] show ?thesis by simp
qed

text \<open>C17 A valid chain is linked. In every chain that replays, each block after the root carries the
  hash of its predecessor, the next index, a time not before its predecessor's, and its own proof of
  work and Merkle root; the last block names the root of the state the replay ends in.\<close>

theorem valid_chain_is_linked:
  assumes "validate_full L c = Inr (s, r, d)"
  shows "\<forall>i. i < length (bc_blocks c) \<longrightarrow>
      blk_index (bc_blocks c ! i) = bc_base_height c + as_u64 i
      \<and> has_valid_pow L (bc_blocks c ! i) \<and> has_valid_merkle_root L (bc_blocks c ! i)
      \<and> (i \<noteq> 0 \<longrightarrow> blk_previous_hash (bc_blocks c ! i) = blk_hash (bc_blocks c ! (i - 1))
            \<and> blk_timestamp (bc_blocks c ! (i - 1)) \<le> blk_timestamp (bc_blocks c ! i))
      \<and> (i = length (bc_blocks c) - 1 \<longrightarrow> blk_state_root (bc_blocks c ! i) = state_root L s)"
proof (intro allI impI)
  fix i
  assume i: "i < length (bc_blocks c)"
  let ?c = "c\<lparr>bc_state := s, bc_randomness := r, bc_current_difficulty := d\<rparr>"
  have sync: "in_sync L ?c" using assms by (simp add: in_sync_def)
  obtain anchor rest root where c: "bc_blocks c = anchor # rest"
    and bs: "replay_blocks L (bc_base_height c) [anchor] root rest = Inr (s, r, d)"
    using assms by (auto simp: validate_full_ok)
  have "quick_integrity L ?c" by (rule in_sync_quick_integrity [OF sync])
  moreover have "bc_blocks c ! (length (bc_blocks c) - 1) = last (bc_blocks c)"
    by (rule last_conv_nth [symmetric]) (simp add: c)
  ultimately have "i = length (bc_blocks c) - 1 \<longrightarrow> blk_state_root (bc_blocks c ! i) = state_root L s"
    using c by (simp add: quick_integrity_def Let_def)
  moreover have "i \<noteq> 0 \<longrightarrow> blk_previous_hash (bc_blocks c ! i) = blk_hash (bc_blocks c ! (i - 1))
      \<and> blk_timestamp (bc_blocks c ! (i - 1)) \<le> blk_timestamp (bc_blocks c ! i)"
    using replay_linked [OF bs, of i] i c by auto
  ultimately show "blk_index (bc_blocks c ! i) = bc_base_height c + as_u64 i
      \<and> has_valid_pow L (bc_blocks c ! i) \<and> has_valid_merkle_root L (bc_blocks c ! i)
      \<and> (i \<noteq> 0 \<longrightarrow> blk_previous_hash (bc_blocks c ! i) = blk_hash (bc_blocks c ! (i - 1))
            \<and> blk_timestamp (bc_blocks c ! (i - 1)) \<le> blk_timestamp (bc_blocks c ! i))
      \<and> (i = length (bc_blocks c) - 1 \<longrightarrow> blk_state_root (bc_blocks c ! i) = state_root L s)"
    using in_sync_blocks [OF sync, of i] i by simp
qed

theorem valid_chain_is_linked_witness:
  "blk_index (bc_blocks home ! 0) = 0 \<and> has_valid_pow chain_lib (bc_blocks home ! 0)"
proof -
  have "validate_full chain_lib home = Inr (home_state, zeros, 2)"
    using new_chain_in_sync [OF home_born] by (simp add: in_sync_def home_def)
  from valid_chain_is_linked [OF this, rule_format, of 0] show ?thesis by (simp add: home_def as_u64_def)
qed

text \<open>Two long-lived candidates can stop a node. The weight of a chain is a 128-bit sum that is
  computed before the candidate is replayed, and a block may claim a difficulty whose weight
  saturates; when a candidate shares the root and the finalized blocks, ties with the node's tip
  and claims such a difficulty twice, the comparison panics instead of refusing it.\<close>

theorem tied_candidate_panics:
  assumes "bc_blocks c \<noteq> []" and "bc_base_height candidate = bc_base_height c"
    and "bc_base_height c \<le> bc_finalized_height c"
    and "\<forall>i \<le> unat (bc_finalized_height c - bc_base_height c).
      i < length (bc_blocks c) \<and> i < length (bc_blocks candidate)
      \<and> blk_hash (bc_blocks c ! i) = blk_hash (bc_blocks candidate ! i)"
    and "blk_timestamp (last (bc_blocks candidate)) \<le> now + seconds MAX_TIMESTAMP_SKEW_SECONDS"
    and "tip_index candidate = (Inr t :: u64 outcome)" and "tip_index c = (Inr t :: u64 outcome)"
    and "i < j" "j < length (bc_blocks candidate)"
    and "32 \<le> unat (blk_difficulty (bc_blocks candidate ! i)) mod 2 ^ 32"
    and "32 \<le> unat (blk_difficulty (bc_blocks candidate ! j)) mod 2 ^ 32"
  shows "try_adopt_chain L now candidate c = Inl Panic"
proof -
  let ?w = "map (\<lambda>b. work_for_difficulty (blk_difficulty b)) (bc_blocks candidate)"
  have full: "work_for_difficulty d = 2 ^ 128 - 1" if "32 \<le> unat d mod 2 ^ 32" for d
  proof -
    have "(2 :: nat) ^ 128 = 16 ^ 32" by simp
    also have "\<dots> \<le> 16 ^ (unat d mod 2 ^ 32)" using that by (intro power_increasing) simp_all
    finally show ?thesis by (simp add: work_for_difficulty_def unsigned_ucast_eq take_bit_eq_mod)
  qed
  have sum: "sum_u128 acc xs = (if acc + sum_list xs < 2 ^ 128 then Inr (acc + sum_list xs) else Inl Panic :: nat outcome)"
    if "acc < 2 ^ 128" for acc xs using that by (induction xs arbitrary: acc) (auto simp: add.assoc)
  have "?w ! i + ?w ! j \<le> sum_list ?w"
  proof -
    have "?w ! i + ?w ! j = (\<Sum>k\<in>{i, j}. ?w ! k)" using assms(8) by simp
    also have "\<dots> \<le> (\<Sum>k\<in>{..<length ?w}. ?w ! k)"
      using assms(8,9) by (intro sum_mono2) auto
    also have "\<dots> = sum_list ?w" by (simp add: sum_list_sum_nth lessThan_atLeast0)
    finally show ?thesis .
  qed
  then have "2 ^ 128 \<le> sum_list ?w" using full assms(8-11) by simp
  then have "cumulative_work candidate = (Inl Panic :: nat outcome)" by (simp add: cumulative_work_def sum)
  then have heavy: "outweighs candidate c = (Inl Panic :: bool outcome)"
    using assms(6,7) by (simp add: outweighs_def bindR_def)
  have root: "bc_blocks candidate \<noteq> [] \<and> blk_hash (hd (bc_blocks c)) = blk_hash (hd (bc_blocks candidate))"
    using assms(1,4,9) by (auto simp: hd_conv_nth)
  have "same_history (bc_blocks c) (bc_blocks candidate) [0..<unat (bc_finalized_height c - bc_base_height c) + 1] = Inr ()"
    using assms(4) by (simp add: same_history_ok less_Suc_eq_le del: upt_Suc)
  then show ?thesis
    unfolding try_adopt_chain_def using assms(1-3,5) root heavy
    by (simp add: sub_u64_def del: upt_Suc)
qed

theorem tied_candidate_panics_witness:
  "try_adopt_chain chain_lib 1767225600000000000
     (home\<lparr>bc_blocks := [home_block, home_block\<lparr>blk_difficulty := 32\<rparr>, home_block\<lparr>blk_difficulty := 32\<rparr>]\<rparr>)
     (home\<lparr>bc_blocks := [home_block, home_block, home_block]\<rparr>) = Inl Panic"
  by (rule tied_candidate_panics [where t = 2 and i = 1 and j = 2])
     (simp_all add: home_def home_block_def GENESIS_TIMESTAMP_def seconds_def MAX_TIMESTAMP_SKEW_SECONDS_def
       tip_index_def next_index_def exec_ok as_u64_def sat_sub_def)


section \<open>Leaders\<close>

text \<open>C23 Proposers and validators agree. A block stamped with the current time, at the next height and
  by validator \<open>v\<close>, passes the slot check of validation against the node's tip exactly when the
  node tells \<open>v\<close> that it is eligible, and with the slot input it was told.\<close>

theorem eligible_is_what_validates:
  assumes "bc_blocks c \<noteq> []" and "next_index c = (Inr (blk_index b) :: (string, u64) result)"
  shows "check_slot L b v (bc_state c) (bc_randomness c) (blk_timestamp (last (bc_blocks c))) = Inr i
    \<longleftrightarrow> (\<exists>r. eligible_slot_for L (blk_timestamp b) c v = (Inr (Some (r, i)) :: (string, _) result))"
  using assms check_slot_find [where 'e = string and L = L and b = b and v = v]
  by (simp add: eligible_slot_for_ok)

theorem eligible_is_what_validates_witness:
  "\<exists>r. eligible_slot_for chain_lib (blk_timestamp next_block) home treasury
     = (Inr (Some (r, slot_input_at_round zeros 1 0)) :: (string, _) result)"
proof -
  have "check_slot chain_lib next_block treasury (bc_state home) (bc_randomness home)
      (blk_timestamp (last (bc_blocks home))) = Inr (slot_input_at_round zeros 1 0)"
    using next_block_slot by (simp add: home_def)
  then show ?thesis
    by (subst (asm) eligible_is_what_validates)
       (simp_all add: home_def next_block_def next_index_def exec_ok as_u64_def)
qed

text \<open>The list of open leaders is the eligible validators, each once. A validator is listed with a
  round and a slot input exactly when the node calls it eligible with them.\<close>

theorem open_leaders_are_the_eligible:
  assumes "open_leaders L now c = (Inr ls :: (string, _) result)"
  shows "distinct (map (fst \<circ> snd) ls)
    \<and> (\<forall>r v i. (r, v, i) \<in> set ls \<longleftrightarrow> eligible_slot_for L now c v = (Inr (Some (r, i)) :: (string, _) result))"
  using open_leaders_set [OF assms] open_leaders_distinct [OF assms] by blast

theorem open_leaders_are_the_eligible_witness:
  "\<exists>r i. eligible_slot_for chain_lib (blk_timestamp next_block) home treasury = (Inr (Some (r, i)) :: (string, _) result)"
proof -
  have "open_leaders chain_lib (blk_timestamp next_block) home
      = (Inr [(0, treasury, slot_input_at_round zeros 1 0)] :: (string, _) result)"
    by (simp add: open_leaders_def home_def next_index_def add_u64_def checked_add_def as_u64_def Let_def
        next_block_rounds home_selects)
  from open_leaders_are_the_eligible [OF this, THEN conjunct2, rule_format, of 0 treasury "slot_input_at_round zeros 1 0"]
  show ?thesis by auto
qed


section \<open>Blocks\<close>

lemma execute_transactions_rewards:
  assumes "execute_transactions L v i xs (s, k) = Inr (t, n)"
  shows "n = k + length (filter (\<lambda>x. \<exists>tx. tx_parse L x = Some tx \<and> tx_type tx = Reward) xs)
    \<and> (\<forall>x\<in>set xs. \<exists>tx. tx_parse L x = Some tx
          \<and> (tx_type tx = Reward \<longrightarrow> tx_from tx = None \<and> tx_to tx = v \<and> tx_amount tx = block_reward i))"
  using assms
proof (induction xs arbitrary: s k)
  case (Cons x xs)
  then obtain u m where step: "execute_transaction L v i x (s, k) = Inr (u, m)"
    and rest: "execute_transactions L v i xs (u, m) = Inr (t, n)"
    unfolding execute_transactions_cons by blast
  obtain tx where tx: "tx_parse L x = Some tx" "verify_for_block L tx v = Inr ()"
    "if tx_type tx = Reward then tx_amount tx = block_reward i \<and> m = k + 1 else m = k"
    using step by (auto simp: execute_transaction_ok)
  moreover have "tx_type tx = Reward \<longrightarrow> tx_from tx = None \<and> tx_to tx = v"
    using tx(2) by (auto simp: verify_for_block_def verify_reward_def exec_ok)
  ultimately show ?case using Cons.IH [OF rest] by (auto split: if_splits)
qed simp

text \<open>C8 A block mints one reward. A validated block that follows sound books leaves sound books, an
  empty fee pot and a base fee within its bounds; exactly one of its transactions is a reward; the
  reward has no sender, pays the block's validator and is the scheduled one; the supply grows by at
  most that amount.\<close>

theorem block_mints_one_reward:
  assumes "validate_block_at L b i ph s rnd ts d = Inr t" and "sound s"
    and "uint (cs_total_supply s) + uint (block_reward i) < 2 ^ 64"
  shows "sound t \<and> cs_fee_pot t = 0 \<and> TX_FEE \<le> cs_base_fee t \<and> cs_base_fee t \<le> BASE_FEE_MAX
    \<and> uint (cs_total_supply t) \<le> uint (cs_total_supply s) + uint (block_reward i)
    \<and> length (filter (\<lambda>x. \<exists>tx. tx_parse L x = Some tx \<and> tx_type tx = Reward) (blk_transactions b)) = 1
    \<and> (\<forall>x\<in>set (blk_transactions b). \<exists>tx. tx_parse L x = Some tx
          \<and> (tx_type tx = Reward \<longrightarrow>
               tx_from tx = None \<and> Some (tx_to tx) = blk_validator b \<and> tx_amount tx = block_reward i))"
proof -
  have b: "blk_index b = i" "blk_validator b = Some (the (blk_validator b))"
    using assms(1) by (auto simp: validate_block_at_ok exec_ok)
  obtain u where "execute_transactions L (the (blk_validator b)) i (blk_transactions b) (s, 0) = Inr (u, 1)"
    using assms(1) b(1) by (auto simp: validate_block_at_ok execute_block_ok)
  from execute_transactions_rewards [OF this] validate_block_at_sound [OF assms] b(2) show ?thesis
    by auto
qed

theorem block_mints_one_reward_witness:
  "\<exists>t. execute_block chain_lib next_block treasury home_state = Inr t \<and> sound t
    \<and> uint (cs_total_supply t) \<le> uint (cs_total_supply home_state) + uint (block_reward 1)"
proof -
  obtain t where v: "validate_block_at chain_lib next_block 1 zeros home_state zeros (blk_timestamp home_block) 2 = Inr t"
    using next_block_valid_at by blast
  have "uint (cs_total_supply home_state) + uint (block_reward 1) < 2 ^ 64"
    by (simp add: home_state_def founded_def uint_block_reward reward_nat_def)
  from block_mints_one_reward [OF v home_sound this] v show ?thesis
    by (auto simp: validate_block_at_ok next_block_def)
qed


text \<open>C26 Difficulty moves by at most one, at retarget heights only. From a difficulty within the bounds
  the schedule of a non-empty chain never fails, stays within the bounds, changes by at most one and
  only when the next height is a multiple of the interval.\<close>

theorem difficulty_moves_by_one:
  assumes "is_difficulty_in_bounds d" and "blocks \<noteq> []" and "unat produced + 1 < 2 ^ 64"
  shows "\<exists>d'. retarget blocks produced base d = (Inr d' :: (string, u64) result) \<and> is_difficulty_in_bounds d'
    \<and> unat d' \<le> unat d + 1 \<and> unat d \<le> unat d' + 1
    \<and> ((produced + 1) mod RETARGET_INTERVAL \<noteq> 0 \<longrightarrow> d' = d)"
proof (cases "(produced + 1) mod RETARGET_INTERVAL = 0")
  case True
  let ?w = "drop (if base = 0 then max (length blocks - unat RETARGET_INTERVAL) 1
      else length blocks - unat RETARGET_INTERVAL) blocks"
  have "retarget blocks produced base d = (adjusted_difficulty d ?w :: (string, u64) result)"
    using assms(2,3) True by (cases blocks) (auto simp: retarget_def add_u64_def checked_add_def Let_def)
  with adjusted_difficulty_ok [OF assms(1), of ?w, where 'e = string] True show ?thesis by simp
next
  case False
  then have "retarget blocks produced base d = (Inr d :: (string, u64) result)"
    using assms(3) by (simp add: retarget_def add_u64_def checked_add_def)
  with assms(1) show ?thesis by simp
qed

theorem difficulty_moves_by_one_witness:
  "\<exists>d'. retarget [home_block] 9 0 2 = (Inr d' :: (string, u64) result) \<and> unat d' \<le> 3"
proof -
  have "is_difficulty_in_bounds 2"
    by (simp add: is_difficulty_in_bounds_def MIN_DIFFICULTY_def MAX_DIFFICULTY_def)
  from difficulty_moves_by_one [OF this, of "[home_block]" 9 0] show ?thesis by auto
qed

text \<open>Finality trails the tip. Updating finality on a non-empty chain sets it to the tip's height
  minus the depth, but never below the root; it stays between root and tip, and a longer chain with
  the same depth never lowers it.\<close>

theorem finality_trails_the_tip:
  assumes "bc_blocks c \<noteq> []" and "length (bc_blocks c) < 2 ^ 63"
    and "apply_finality depth c = (Inr c' :: (string, blockchain) result)"
  shows "\<exists>t. tip_index c = (Inr t :: (string, u64) result)
    \<and> unat (bc_finalized_height c') = max (unat t - unat depth) (unat (bc_base_height c))
    \<and> bc_base_height c \<le> bc_finalized_height c' \<and> bc_finalized_height c' \<le> t
    \<and> c' = c\<lparr>bc_finalized_height := bc_finalized_height c'\<rparr>"
proof -
  obtain t where t: "tip_index c = (Inr t :: (string, u64) result)"
    and c': "c' = c\<lparr>bc_finalized_height := if depth = 0 then t else max (sat_sub t depth) (bc_base_height c)\<rparr>"
    using assms(1,3) by (auto simp: apply_finality_ok)
  have "1 \<le> length (bc_blocks c)" using assms(1) by (cases "bc_blocks c") simp_all
  then have le: "unat (bc_base_height c) \<le> unat t" using t assms(1,2) by (simp add: tip_index_ok)
  have mx: "unat (max a b) = max (unat a) (unat b)" for a b :: u64 by (simp add: max_def word_le_nat_alt)
  have fin: "unat (bc_finalized_height c') = max (unat t - unat depth) (unat (bc_base_height c))"
    using le by (simp add: c' mx unat_sat_sub)
  then show ?thesis using t le c' by (auto simp: word_le_nat_alt)
qed

theorem finality_trails_the_tip_witness:
  "\<exists>c'. apply_finality 6 home = (Inr c' :: (string, blockchain) result) \<and> unat (bc_finalized_height c') = 0"
proof -
  have f: "apply_finality 6 home = (Inr home :: (string, blockchain) result)"
    by (simp add: apply_finality_def home_def tip_index_def next_index_def bindR_def add_u64_def checked_add_def
        as_u64_def sat_sub_def)
  from finality_trails_the_tip [OF _ _ f] have "\<exists>t. tip_index home = (Inr t :: (string, u64) result)
      \<and> unat (bc_finalized_height home) = max (unat t - unat (6 :: u64)) (unat (bc_base_height home))"
    by (auto simp: home_def)
  with f show ?thesis by (auto simp: home_def)
qed


section \<open>Bundles and evidence\<close>

text \<open>C11 Bundles round-trip. From every chain that is in step with its blocks, sits on a root at a
  retarget boundary and has reached height ten, a bundle can be exported; importing it succeeds and
  gives a chain with the same state, randomness and difficulty at the tip and the same blocks from
  the boundary on.\<close>

theorem bundle_round_trip:
  assumes "in_sync L c" and "bc_base_height c mod 10 = 0" and "length (bc_blocks c) < 2 ^ 63"
    and "tip_index c = (Inr tip :: u64 outcome)" and "10 \<le> unat tip"
  shows "\<exists>bd d. export_bundle L c = Inr bd \<and> from_bundle L bd = Inr d
    \<and> bc_state d = bc_state c \<and> bc_randomness d = bc_randomness c
    \<and> bc_current_difficulty d = bc_current_difficulty c
    \<and> bc_base_height d = tip div 10 * 10
    \<and> bc_blocks d = drop (unat (tip div 10 * 10 - bc_base_height c)) (bc_blocks c)"
  using bundle_replays [OF assms] .

definition outpost :: blockchain where
  "outpost = home\<lparr>bc_blocks := [home_block\<lparr>blk_index := 10\<rparr>], bc_base_height := 10, bc_finalized_height := 10,
     bc_checkpoint := Some \<lparr>cp_state = home_state, cp_randomness = zeros, cp_difficulty = 2\<rparr>\<rparr>"

lemma outpost_in_sync: "in_sync chain_lib outpost"
  by (simp add: in_sync_def validate_full_ok outpost_def home_def replay_root_def)
     (simp add: home_block_def has_valid_pow_def has_valid_merkle_root_def calculate_hash_def
       is_difficulty_in_bounds_def MIN_DIFFICULTY_def MAX_DIFFICULTY_def zeros_lead)

theorem bundle_round_trip_witness:
  "\<exists>bd d. export_bundle chain_lib outpost = Inr bd \<and> from_bundle chain_lib bd = Inr d
    \<and> bc_state d = bc_state outpost"
proof -
  have "tip_index outpost = (Inr 10 :: u64 outcome)"
    by (simp add: outpost_def home_def tip_index_def next_index_def exec_ok as_u64_def sat_sub_def)
  from bundle_round_trip [OF outpost_in_sync _ _ this] show ?thesis by (auto simp: outpost_def)
qed

text \<open>C24 Evidence points at the first bad block. Slash evidence about a height is produced only for the
  block at which the replay of the chain fails with a fault the validator is answerable for; all
  blocks before it form a valid chain, and the validator named is the one the block carries.\<close>

theorem evidence_points_at_first_fault:
  assumes "evaluate_slash_evidence L now_text c h = Inr ev"
  shows "\<exists>e v. validate_full L c = Inl (Err (unat (h - bc_base_height c), e)) \<and> be_slashable e
    \<and> ev_reason ev = be_reason e
    \<and> validate_full L (c\<lparr>bc_blocks := take (unat (h - bc_base_height c)) (bc_blocks c)\<rparr>) = Inr v
    \<and> ev_validator ev = (case blk_validator (bc_blocks c ! unat (h - bc_base_height c)) of
          None \<Rightarrow> ''unknown'' | Some w \<Rightarrow> w)"
proof -
  let ?k = "unat (h - bc_base_height c)"
  obtain e where e: "validate_full L c = Inl (Err (?k, e))" "be_slashable e" "?k \<noteq> 0" "ev_reason ev = be_reason e"
    "ev_validator ev = (case blk_validator (bc_blocks c ! ?k) of None \<Rightarrow> ''unknown'' | Some w \<Rightarrow> w)"
    using assms
    by (auto simp: evaluate_slash_evidence_def bindR_ok require_ok Let_def
        split: sum.splits failure.splits prod.splits if_splits)
  obtain anchor rest where c: "bc_blocks c = anchor # rest"
    using e(1,3) by (cases "bc_blocks c") (auto simp: validate_full_def)
  have no_0: "require x (0 :: nat, y) \<noteq> Inl (Err (?k, e))" for x y
    using e(3) by (simp add: require_def)
  have root_0: "replay_root L c anchor \<noteq> Inl (Err (?k, e))"
    using e(3) no_0 by (auto simp: replay_root_def bindR_err map_err_err split: option.split)
  obtain root where root: "has_valid_pow L anchor" "has_valid_merkle_root L anchor"
    "blk_index anchor = bc_base_height c" "replay_root L c anchor = Inr root"
    and fails: "replay_blocks L (bc_base_height c) [anchor] root rest = Inl (Err (?k, e))"
    using e(1) no_0 root_0 unfolding validate_full_def c list.case bindR_err require_ok by auto
  from replay_fails_at [OF fails] obtain w where
    w: "replay_blocks L (bc_base_height c) [anchor] root (take (?k - 1) rest) = Inr w" by auto
  have "take ?k (bc_blocks c) = anchor # take (?k - 1) rest" using e(3) c by (cases ?k) simp_all
  then have "validate_full L (c\<lparr>bc_blocks := take ?k (bc_blocks c)\<rparr>) = Inr w"
    using root w by (cases root; cases w) (auto simp: validate_full_ok)
  with e show ?thesis by blast
qed

theorem evidence_points_at_first_fault_witness:
  "\<exists>ev. evaluate_slash_evidence chain_lib ''now'' (home\<lparr>bc_blocks := [home_block, next_block\<lparr>blk_difficulty := 3\<rparr>]\<rparr>) 1
      = Inr ev \<and> ev_validator ev = treasury"
proof -
  let ?c = "home\<lparr>bc_blocks := [home_block, next_block\<lparr>blk_difficulty := 3\<rparr>]\<rparr>"
  let ?e = "slashable ''Block difficulty does not match retarget schedule''"
  have root: "has_valid_pow chain_lib home_block" "has_valid_merkle_root chain_lib home_block" "blk_index home_block = 0"
    "replay_root chain_lib home home_block = Inr (home_state, zeros, 2)"
    using new_chain_in_sync [OF home_born] by (auto simp: in_sync_def validate_full_ok home_def)
  have "validate_block_at chain_lib (next_block\<lparr>blk_difficulty := 3\<rparr>) 1 zeros home_state zeros (blk_timestamp home_block) 2
      = Inl (Err ?e)"
    by (simp add: validate_block_at_def check_header_def next_block_def home_block_def bindR_def require_def)
  then have "replay_blocks chain_lib 0 [home_block] (home_state, zeros, 2) [next_block\<lparr>blk_difficulty := 3\<rparr>]
      = Inl (Err (1, ?e))"
    by (simp add: replay_blocks.simps bindR_def add_u64_def checked_add_def as_u64_def map_err_def)
       (simp add: home_block_def)
  then have full: "validate_full chain_lib ?c = Inl (Err (1, ?e))"
    using root by (simp add: validate_full_def) (simp add: home_def)
  have ev: "evaluate_slash_evidence chain_lib ''now'' ?c 1
      = Inr \<lparr>ev_validator = treasury, ev_reason = be_reason ?e, ev_timestamp = ''now''\<rparr>" (is "_ = Inr ?ev")
    by (simp add: evaluate_slash_evidence_def full)
       (simp add: home_def next_index_def bindR_def add_u64_def checked_add_def as_u64_def slashable_def next_block_def)
  from evidence_points_at_first_fault [OF ev] ev show ?thesis by auto
qed

end
