(* ===== verification/Access.thy ===== *)
theory Access
  imports Keys Complex_Main
begin

text \<open>
  Who may call a node: self-expiring signed tokens (\<open>src/src/auth/token.rs\<close>), the static bearer
  tokens and the two authorization checks of \<open>api/routes.rs\<close>, login sessions (\<open>auth/mod.rs\<close>,
  \<open>auth/signature.rs\<close>, \<open>auth/routes.rs\<close>), the JWT middleware (\<open>auth/middleware.rs\<close>), and how amounts in
  requests are read (\<open>api/amount.rs\<close>).
\<close>


section \<open>Signed tokens (auth/token.rs)\<close>

text \<open>
  The \<open>base64\<close> crate, HMAC-SHA256 (key, message) and the UTF-8 check of \<open>String::from_utf8\<close>.
\<close>

record auth_lib = prims +
  b64_encode :: "string \<Rightarrow> string"
  b64_decode :: "string \<Rightarrow> string option"
  hmac_sha256 :: "string \<Rightarrow> string \<Rightarrow> string"
  utf8_valid :: "string \<Rightarrow> bool"

datatype token_scope = Admin | P2p

datatype token_error = MalformedToken | InvalidSignature | Expired | ScopeMismatch

definition scope_str :: "token_scope \<Rightarrow> string" where
  "scope_str s = (case s of Admin \<Rightarrow> ''admin'' | P2p \<Rightarrow> ''p2p'')"

definition scope_parse :: "string \<Rightarrow> token_scope option" where
  "scope_parse s = (if s = ''admin'' then Some Admin else if s = ''p2p'' then Some P2p else None)"

text \<open>\<open>value\<close> is the content of the environment variable.\<close>

definition signing_key_from_env :: "'x prims_scheme \<Rightarrow> string option \<Rightarrow> string option" where
  "signing_key_from_env L value =
     (case value of None \<Rightarrow> None
      | Some hex_key \<Rightarrow>
          if length hex_key \<noteq> 64 then None
          else (case hex_decode L hex_key of Inl _ \<Rightarrow> None | Inr key \<Rightarrow> Some key))"

definition token_payload :: "u64 \<Rightarrow> u64 \<Rightarrow> token_scope \<Rightarrow> string" where
  "token_payload issued_at expires_at scope =
     show_u64 issued_at @ '':'' @ show_u64 expires_at @ '':'' @ scope_str scope"

definition generate_token :: "'x auth_lib_scheme \<Rightarrow> u64 \<Rightarrow> string \<Rightarrow> token_scope \<Rightarrow> u64 \<Rightarrow> string" where
  "generate_token L now signing_key scope ttl_seconds =
     (let expires_at = sat_add now ttl_seconds;
          payload = token_payload now expires_at scope;
          signature = hmac_sha256 L signing_key payload
      in b64_encode L payload @ ''.'' @ hex_encode L signature)"

text \<open>\<open>str::split_once\<close> and \<open>str::splitn\<close> at a character.\<close>

definition split_once :: "char \<Rightarrow> string \<Rightarrow> (string \<times> string) option" where
  "split_once c s =
     (case dropWhile (\<lambda>x. x \<noteq> c) s of [] \<Rightarrow> None | _ # rest \<Rightarrow> Some (takeWhile (\<lambda>x. x \<noteq> c) s, rest))"

fun splitn :: "nat \<Rightarrow> char \<Rightarrow> string \<Rightarrow> string list" where
  "splitn 0 c s = []"
| "splitn (Suc 0) c s = [s]"
| "splitn (Suc n) c s = (case split_once c s of None \<Rightarrow> [s] | Some (part, rest) \<Rightarrow> part # splitn n c rest)"

definition part :: "nat \<Rightarrow> string list \<Rightarrow> (token_error, string) result" where
  "part i parts = ok_or (if i < length parts then Some (parts ! i) else None) MalformedToken"

definition verify_token ::
  "'x auth_lib_scheme \<Rightarrow> u64 \<Rightarrow> string \<Rightarrow> string \<Rightarrow> token_scope \<Rightarrow> (token_error, unit) result" where
  "verify_token L now token signing_key expected_scope =
     bindR (ok_or (split_once CHR ''.'' token) MalformedToken) (\<lambda>(b64_payload, hex_sig).
     bindR (ok_or (b64_decode L b64_payload) MalformedToken) (\<lambda>payload.
     bindR (require (utf8_valid L payload) MalformedToken) (\<lambda>_.
     bindR (map_err (\<lambda>_. MalformedToken) (from_lib (hex_decode L hex_sig))) (\<lambda>sig_bytes.
     bindR (require (hmac_sha256 L signing_key payload = sig_bytes) InvalidSignature) (\<lambda>_.
     let parts = splitn 3 CHR '':'' payload in
     bindR (part 0 parts) (\<lambda>p0.
     bindR (ok_or (parse_u64 p0) MalformedToken) (\<lambda>_.
     bindR (part 1 parts) (\<lambda>p1.
     bindR (ok_or (parse_u64 p1) MalformedToken) (\<lambda>expires_at.
     bindR (part 2 parts) (\<lambda>scope_str.
     bindR (ok_or (scope_parse scope_str) MalformedToken) (\<lambda>token_scope.
     bindR (require (token_scope = expected_scope) ScopeMismatch) (\<lambda>_.
     require (now \<le> expires_at) Expired))))))))))))"

definition token_is_valid :: "'x auth_lib_scheme \<Rightarrow> u64 \<Rightarrow> string \<Rightarrow> string \<Rightarrow> token_scope \<Rightarrow> bool" where
  "token_is_valid L now token signing_key expected_scope =
     is_ok (verify_token L now token signing_key expected_scope)"


section \<open>Authorization (api/routes.rs)\<close>

text \<open>The loop accumulates the exclusive or of the byte pairs.\<close>

fun xor_bytes :: "8 word \<Rightarrow> string \<Rightarrow> string \<Rightarrow> 8 word" where
  "xor_bytes acc (x # xs) (y # ys) = xor_bytes (or acc (xor (of_char x) (of_char y))) xs ys"
| "xor_bytes acc _ _ = acc"

definition constant_time_eq :: "string \<Rightarrow> string \<Rightarrow> bool" where
  "constant_time_eq a b = (if length a \<noteq> length b then False else xor_bytes 0 a b = 0)"

record access_config =
  ac_p2p_tokens :: "string list"
  ac_admin_tokens :: "string list"
  ac_admin_signing_key :: "string option"
  ac_p2p_signing_key :: "string option"
  ac_p2p_require_identity :: bool

text \<open>\<open>supplied\<close> is the request's header, when there is one and it is text.\<close>

definition authorize_p2p :: "'x auth_lib_scheme \<Rightarrow> u64 \<Rightarrow> access_config \<Rightarrow> string option \<Rightarrow> bool" where
  "authorize_p2p L now cfg supplied =
     (case supplied of None \<Rightarrow> False
      | Some token \<Rightarrow>
          (case ac_p2p_signing_key cfg of None \<Rightarrow> False | Some key \<Rightarrow> token_is_valid L now token key P2p)
          \<or> list_ex (\<lambda>t. constant_time_eq t token) (ac_p2p_tokens cfg))"

definition authorize_admin :: "'x auth_lib_scheme \<Rightarrow> u64 \<Rightarrow> access_config \<Rightarrow> string option \<Rightarrow> bool" where
  "authorize_admin L now cfg supplied =
     (case supplied of None \<Rightarrow> False
      | Some token \<Rightarrow>
          (case ac_admin_signing_key cfg of None \<Rightarrow> False | Some key \<Rightarrow> token_is_valid L now token key Admin)
          \<or> list_ex (\<lambda>t. constant_time_eq t token) (ac_admin_tokens cfg))"


section \<open>Login sessions (auth)\<close>

record auth_manager =
  am_sessions :: "(string, string) fmap"
  am_nonces :: "(string, string) fmap"

definition new_auth_manager :: auth_manager where
  "new_auth_manager = \<lparr>am_sessions = fmempty, am_nonces = fmempty\<rparr>"

definition generate_nonce :: "string \<Rightarrow> string \<Rightarrow> auth_manager \<Rightarrow> string \<times> auth_manager" where
  "generate_nonce uuid address m = (uuid, m\<lparr>am_nonces := fmupd address uuid (am_nonces m)\<rparr>)"

definition verify_nonce :: "auth_manager \<Rightarrow> string \<Rightarrow> string \<Rightarrow> bool" where
  "verify_nonce m address nonce \<longleftrightarrow> fmlookup (am_nonces m) address = Some nonce"

definition create_session :: "string \<Rightarrow> string \<Rightarrow> auth_manager \<Rightarrow> string \<times> auth_manager" where
  "create_session uuid address m =
     (let token = uuid @ ''_'' @ address in
      (token, m\<lparr>am_sessions := fmupd token address (am_sessions m), am_nonces := fmdrop address (am_nonces m)\<rparr>))"

definition verify_session :: "auth_manager \<Rightarrow> string \<Rightarrow> string option" where
  "verify_session m token = fmlookup (am_sessions m) token"

definition revoke_session :: "string \<Rightarrow> auth_manager \<Rightarrow> auth_manager" where
  "revoke_session token m = m\<lparr>am_sessions := fmdrop token (am_sessions m)\<rparr>"

definition verify_login_signature :: "'x prims_scheme \<Rightarrow> string \<Rightarrow> string \<Rightarrow> string \<Rightarrow> string \<Rightarrow> bool" where
  "verify_login_signature L address message public_key_hex signature_hex =
     (case derive_address L public_key_hex of
        Inr derived \<Rightarrow> derived = address \<and> verify_message L message public_key_hex signature_hex
      | Inl _ \<Rightarrow> False)"

record login_request =
  lr_address :: string
  lr_message :: string
  lr_public_key :: string
  lr_signature :: string
  lr_nonce :: string

datatype login_error = BadRequest | Unauthorized

text \<open>The \<open>/auth/verify\<close> handler: the session token, or the status code.\<close>

definition login :: "'x prims_scheme \<Rightarrow> string \<Rightarrow> login_request \<Rightarrow> auth_manager \<Rightarrow> (login_error + string) \<times> auth_manager" where
  "login L uuid request m =
     (if \<not> verify_nonce m (lr_address request) (lr_nonce request) then (Inl BadRequest, m)
      else if verify_login_signature L (lr_address request) (lr_message request) (lr_public_key request)
                (lr_signature request)
      then (let (token, m') = create_session uuid (lr_address request) m in (Inr token, m'))
      else (Inl Unauthorized, m))"


section \<open>The JWT middleware (auth/middleware.rs)\<close>

text \<open>
  \<open>to_str\<close> is the header's text when it has one (the \<open>http\<close> crate), \<open>decodes\<close> whether a token is a
  valid HS256 token under a secret (the \<open>jsonwebtoken\<close> crate).
\<close>

datatype middleware_error = UnauthorizedRequest | ServerError

definition auth_middleware ::
  "(string \<Rightarrow> string option) \<Rightarrow> (string \<Rightarrow> string \<Rightarrow> bool) \<Rightarrow> (string \<Rightarrow> string option) \<Rightarrow> string option
   \<Rightarrow> middleware_error + unit" where
  "auth_middleware to_str decodes env authorization =
     (case authorization of
        None \<Rightarrow> Inl UnauthorizedRequest
      | Some header \<Rightarrow>
          (case to_str header of
             None \<Rightarrow> Inl UnauthorizedRequest
           | Some auth_str \<Rightarrow>
               if \<not> starts_with ''Bearer '' auth_str then Inl UnauthorizedRequest
               else let token = drop 7 auth_str in
                 (case env ''HIKMALAYER_JWT_SECRET'' of
                    None \<Rightarrow> Inl ServerError
                  | Some secret \<Rightarrow> if decodes secret token then Inr () else Inl UnauthorizedRequest)))"


section \<open>Amounts in requests (api/amount.rs)\<close>

datatype amount_error = InvalidValue int | InvalidType | Custom string

type_synonym amount_result = "(amount_error, u64) result"

definition visit_u64 :: "u64 \<Rightarrow> amount_result" where
  "visit_u64 value = Inr value"

definition visit_i64 :: "int \<Rightarrow> amount_result" where
  "visit_i64 value = (if 0 \<le> value then Inr (word_of_int value) else Inl (Err (InvalidValue value)))"

definition visit_u128 :: "nat \<Rightarrow> amount_result" where
  "visit_u128 value =
     (if value < 2 ^ 64 then Inr (as_u64 value) else Inl (Err (Custom ''amount exceeds the maximum of u64'')))"

definition visit_i128 :: "int \<Rightarrow> amount_result" where
  "visit_i128 value =
     (if 0 \<le> value \<and> value < 2 ^ 64 then Inr (word_of_int value)
      else Inl (Err (Custom ''amount is negative or exceeds u64'')))"

definition visit_str :: "string \<Rightarrow> amount_result" where
  "visit_str value =
     (let text = trim value in
      bindR (require (text \<noteq> []) (Custom ''amount must not be empty'')) (\<lambda>_.
      bindR (require (list_all is_digit text)
               (Custom ''amount must be a whole number of base units, digits only'')) (\<lambda>_.
      ok_or (parse_u64 text) (Custom ''amount exceeds the maximum of u64''))))"

text \<open>A 64-bit float, as far as its value matters here.\<close>

datatype f64 = NaN | Infinite bool | Finite rat

definition visit_f64 :: "f64 \<Rightarrow> amount_result" where
  "visit_f64 value =
     (case value of
        Finite r \<Rightarrow>
          if frac r \<noteq> 0 \<or> r < 0 then Inl (Err (Custom ''amount must be a non-negative whole number''))
          else if 9007199254740991 < r then
            Inl (Err (Custom ''amount exceeds 2^53-1 and cannot be represented exactly as a JSON number; send it as a decimal string''))
          else Inr (word_of_int \<lfloor>r\<rfloor>)
      | _ \<Rightarrow> Inl (Err (Custom ''amount must be a non-negative whole number'')))"

text \<open>An omitted optional amount, and JSON's \<open>null\<close>.\<close>

definition visit_none :: amount_result where
  "visit_none = Inr 0"

definition visit_unit :: amount_result where
  "visit_unit = Inr 0"


text \<open>
  What serde hands a visitor; a value a visitor has no method for is an error of its type. With
  \<open>deserialize_any\<close> the format decides which one it is, and for JSON an option is never wrapped.
\<close>

datatype visited =
    VisitU64 u64
  | VisitI64 int
  | VisitU128 nat
  | VisitI128 int
  | VisitF64 f64
  | VisitStr string
  | VisitNone
  | VisitUnit
  | VisitSome visited
  | VisitOther

fun amount_visitor :: "visited \<Rightarrow> amount_result" where
  "amount_visitor (VisitU64 n) = visit_u64 n"
| "amount_visitor (VisitI64 i) = visit_i64 i"
| "amount_visitor (VisitU128 n) = visit_u128 n"
| "amount_visitor (VisitI128 i) = visit_i128 i"
| "amount_visitor (VisitF64 x) = visit_f64 x"
| "amount_visitor (VisitStr s) = visit_str s"
| "amount_visitor _ = Inl (Err InvalidType)"

fun optional_amount_visitor :: "visited \<Rightarrow> amount_result" where
  "optional_amount_visitor VisitNone = visit_none"
| "optional_amount_visitor VisitUnit = visit_unit"
| "optional_amount_visitor (VisitSome v) = amount_visitor v"
| "optional_amount_visitor v = amount_visitor v"

lemma optional_amount_agrees: "amount_visitor v = Inr n \<Longrightarrow> optional_amount_visitor v = Inr n"
  by (cases v) simp_all

text \<open>A float that is exact is read as the integer it is.\<close>

lemma visit_f64_exact: "n < 2 ^ 53 \<Longrightarrow> visit_f64 (Finite (of_nat n)) = visit_u128 n"
  using of_nat_le_iff [of n 9007199254740991, where 'a = rat]
  by (auto simp: visit_f64_def visit_u128_def as_u64_def frac_def)

lemma digit_no_ws: "list_all is_digit s \<Longrightarrow> ws_prefix s = 0" "list_all is_digit s \<Longrightarrow> ws_suffix s = 0"
  by (cases s; auto simp: ws_prefix_def ws_suffix_def ascii_ws_def wide_ws_def is_digit_def)+

lemma trim_digits: "list_all is_digit s \<Longrightarrow> trim s = s"
  by (simp add: trim_def strip_with_none digit_no_ws)

text \<open>An amount sent as its decimal text arrives exactly.\<close>

lemma visit_str_show: "visit_str (show_u64 w) = Inr w"
  using dec_string_digits [of "unat w"]
  by (simp add: visit_str_def trim_digits show_u64_def [of w, symmetric] parse_u64_show Let_def)
     (simp add: show_u64_def parse_u64_show [unfolded show_u64_def])


section \<open>What the checks establish\<close>

lemma byte_inj: "(of_char x :: 8 word) = of_char y \<longleftrightarrow> x = y"
proof -
  have byte: "unat (of_char c :: 8 word) = of_char c" for c
  proof -
    have "word_of_nat (horner_sum of_bool 2 bs) = (horner_sum of_bool 2 bs :: 8 word)" for bs
      by (induction bs) simp_all
    then have "(of_char c :: 8 word) = word_of_nat (of_char c)" by (simp add: of_char_def)
    then show ?thesis by (simp add: unat_of_nat)
  qed
  show ?thesis by (metis byte of_char_eq_iff)
qed

lemma xor_zero: "xor a b = 0 \<longleftrightarrow> a = (b :: 'a::len word)"
  by (metis xor.assoc xor.left_neutral xor.right_neutral xor_self_eq)

lemma xor_bytes_zero:
  "length a = length b \<Longrightarrow> xor_bytes acc a b = 0 \<longleftrightarrow> acc = 0 \<and> a = b"
  by (induction acc a b rule: xor_bytes.induct) (auto simp: or_eq_0_iff xor_zero byte_inj)

lemma constant_time_eq_iff [simp]: "constant_time_eq a b \<longleftrightarrow> a = b"
  by (auto simp: constant_time_eq_def xor_bytes_zero)


section \<open>Reading back a token\<close>

lemma split_once_at: "c \<notin> set p \<Longrightarrow> split_once c (p @ c # r) = Some (p, r)"
proof -
  assume "c \<notin> set p"
  then have "dropWhile (\<lambda>x. x \<noteq> c) (p @ c # r) = c # r" "takeWhile (\<lambda>x. x \<noteq> c) (p @ c # r) = p"
    by (subst dropWhile_append2 takeWhile_append2; auto)+
  then show ?thesis by (simp add: split_once_def)
qed

lemma no_colon_u64: "CHR '':'' \<notin> set (show_u64 w)"
  by (simp add: show_u64_def no_colon_dec_string)

lemma scope_parse_str [simp]: "scope_parse (scope_str s) = Some s"
  by (cases s) (simp_all add: scope_parse_def scope_str_def)

lemma token_parts: "splitn 3 CHR '':'' (token_payload i e s) = [show_u64 i, show_u64 e, scope_str s]"
  using split_once_at [OF no_colon_u64] by (simp add: token_payload_def numeral_3_eq_3)

end
