(* ===== verification/Node.thy ===== *)
theory Node
  imports Lifecycle Election Peers Access
begin

text \<open>
  The node around the chain: its shared state, the pending pool, block production and block
  acceptance (\<open>src/src/api/routes.rs\<close>, with \<open>governance.rs\<close>, \<open>contract/executor.rs\<close> and
  \<open>persistence.rs\<close>). Every handler is a state-passing computation over the node; a task the code
  spawns is queued in \<open>ns_tasks\<close>. What the outside answers (the clock, fresh identifiers, whether a
  write to disk succeeds) is the argument \<open>W\<close>, one reading per computation.
\<close>


section \<open>The node's state\<close>

definition MAX_SYNC_BATCH :: nat where "MAX_SYNC_BATCH = 256"
definition MAX_PENDING_TXS :: nat where "MAX_PENDING_TXS = 1000"
definition MAX_BLOCK_TXS :: nat where "MAX_BLOCK_TXS = 100"

record local_validator_key =
  lk_address :: string
  lk_public_key :: string
  lk_vrf_public_key :: string
  lk_private_key :: string

definition from_private_key :: "'x prims_scheme \<Rightarrow> string \<Rightarrow> local_validator_key outcome" where
  "from_private_key L private_key_hex =
     bindR (derive_public_key L private_key_hex) (\<lambda>public_key.
     bindR (derive_address L public_key) (\<lambda>address.
     bindR (derive_vrf_public_key L private_key_hex) (\<lambda>vrf_public_key.
     Inr \<lparr>lk_address = address, lk_public_key = public_key, lk_vrf_public_key = vrf_public_key,
          lk_private_key = private_key_hex\<rparr>)))"

record governance_config =
  gc_slash_percent :: u64
  gc_finality_depth :: u64

definition default_governance :: governance_config where
  "default_governance = \<lparr>gc_slash_percent = 10, gc_finality_depth = 6\<rparr>"

record certificate =
  ce_id :: string
  ce_issued_to :: string
  ce_description :: string
  ce_verified :: bool

type_synonym contract_executor = "(string, certificate) fmap"

definition issue_cert :: "string \<Rightarrow> string \<Rightarrow> string \<Rightarrow> contract_executor \<Rightarrow> contract_executor" where
  "issue_cert cert_id issued_to description contracts =
     fmupd cert_id \<lparr>ce_id = cert_id, ce_issued_to = issued_to, ce_description = description, ce_verified = False\<rparr> contracts"

definition verify_cert :: "string \<Rightarrow> contract_executor \<Rightarrow> bool \<times> contract_executor" where
  "verify_cert cert_id contracts =
     (case fmlookup contracts cert_id of
        Some cert \<Rightarrow> (True, fmupd cert_id (cert\<lparr>ce_verified := True\<rparr>) contracts)
      | None \<Rightarrow> (False, contracts))"

record recorded_evidence =
  re_block_index :: u64
  re_reason :: string
  re_reporter :: string
  re_timestamp :: string
  re_slashed_amount :: u64

record metrics =
  mt_blocks_mined :: u64
  mt_blocks_received :: u64
  mt_blocks_rejected :: u64
  mt_reorgs :: u64
  mt_transactions_received :: u64
  mt_peers_registered :: u64
  mt_slashes_submitted :: u64
  mt_gossip_sent :: u64
  mt_gossip_failed :: u64
  mt_protocol_messages_received :: u64
  mt_protocol_messages_rejected :: u64
  mt_peers_banned :: u64
  mt_invalid_from_peers :: u64

record app_snapshot =
  as_chain :: blockchain
  as_contracts :: contract_executor
  as_pending_transactions :: "transaction list"
  as_peers :: "string list"
  as_governance :: governance_config
  as_slash_evidence :: "recorded_evidence list"

datatype task = SyncWithPeers | GossipTransaction transaction | GossipBlocks "block list"

record node =
  ns_chain :: blockchain
  ns_contracts :: contract_executor
  ns_pending :: "transaction list"
  ns_auth :: auth_manager
  ns_peers :: "string list"
  ns_governance :: governance_config
  ns_evidence :: "recorded_evidence list"
  ns_metrics :: metrics
  ns_seen :: seen_cache
  ns_book :: peer_book
  ns_access :: access_config
  ns_validator_key :: "local_validator_key option"
  ns_treasury_key :: "local_validator_key option"
  ns_saved :: "app_snapshot option"
  ns_tasks :: "task list"

record world =
  w_now :: int
  w_secs :: u64
  w_uuid :: string
  w_disk :: bool

text \<open>\<open>field += n\<close> on a counter, with its overflow check.\<close>

definition bump :: "(metrics \<Rightarrow> u64) \<Rightarrow> ((u64 \<Rightarrow> u64) \<Rightarrow> metrics \<Rightarrow> metrics) \<Rightarrow> u64 \<Rightarrow> (node, unit) exec" where
  "bump get put n =
     bindE (gets (\<lambda>s. get (ns_metrics s))) (\<lambda>v.
     bindE (lift (add_u64 v n)) (\<lambda>w.
     modify (\<lambda>s. s\<lparr>ns_metrics := put (\<lambda>_. w) (ns_metrics s)\<rparr>)))"

definition spawn :: "task \<Rightarrow> (node, unit) exec" where
  "spawn t = modify (\<lambda>s. s\<lparr>ns_tasks := ns_tasks s @ [t]\<rparr>)"

definition snapshot_of :: "node \<Rightarrow> app_snapshot" where
  "snapshot_of s =
     \<lparr>as_chain = ns_chain s, as_contracts = ns_contracts s, as_pending_transactions = ns_pending s,
      as_peers = ns_peers s, as_governance = ns_governance s, as_slash_evidence = ns_evidence s\<rparr>"

text \<open>The callers drop the result of a save; a failed write leaves the last one in place.\<close>

definition persist_state :: "world \<Rightarrow> (node, unit) exec" where
  "persist_state W = modify (\<lambda>s. if w_disk W then s\<lparr>ns_saved := Some (snapshot_of s)\<rparr> else s)"

record api_response =
  ar_status :: string
  ar_message :: string

definition success :: "string \<Rightarrow> api_response" where
  "success message = \<lparr>ar_status = ''success'', ar_message = message\<rparr>"

definition failed :: "string \<Rightarrow> api_response" where
  "failed message = \<lparr>ar_status = ''error'', ar_message = message\<rparr>"

text \<open>\<open>match m { Ok(x) => f(x), Err(e) => g(e) }\<close> for a computation, where a panic goes through.\<close>

definition matchE :: "('s, 'a) exec \<Rightarrow> ('a \<Rightarrow> ('s, 'b) exec) \<Rightarrow> (string \<Rightarrow> ('s, 'b) exec) \<Rightarrow> ('s, 'b) exec" where
  "matchE m f g = (\<lambda>s. case m s of
       (Inr x, t) \<Rightarrow> f x t
     | (Inl (Err e), t) \<Rightarrow> g e t
     | (Inl Panic, t) \<Rightarrow> (Inl Panic, t))"

definition contains :: "string \<Rightarrow> string \<Rightarrow> bool" where
  "contains needle s \<longleftrightarrow> list_ex (\<lambda>i. take (length needle) (drop i s) = needle) [0..<length s + 1]"


section \<open>Peers' reputation\<close>

definition penalize_peer :: "world \<Rightarrow> string \<Rightarrow> (node, unit) exec" where
  "penalize_peer W node_id =
     (if blank node_id then ret ()
      else bindE (gets ns_book) (\<lambda>book.
           bindE (lift (record_bad (w_secs W) (w_secs W) node_id book)) (\<lambda>(banned, book').
           bindE (modify (\<lambda>s. s\<lparr>ns_book := book'\<rparr>)) (\<lambda>_.
           bindE (bump mt_invalid_from_peers mt_invalid_from_peers_update 1) (\<lambda>_.
           if banned then bump mt_peers_banned mt_peers_banned_update 1 else ret ())))))"

definition reward_peer :: "string \<Rightarrow> (node, unit) exec" where
  "reward_peer node_id =
     (if blank node_id then ret ()
      else bindE (gets ns_book) (\<lambda>book.
           bindE (lift (record_good node_id book)) (\<lambda>book'.
           modify (\<lambda>s. s\<lparr>ns_book := book'\<rparr>))))"


section \<open>The pending pool\<close>

fun project_pending_state ::
  "'x prims_scheme \<Rightarrow> chain_state \<Rightarrow> transaction list \<Rightarrow> u64 \<Rightarrow> ('e, chain_state) result" where
  "project_pending_state L projected [] next_height = Inr projected"
| "project_pending_state L projected (tx # pending) next_height =
     (case apply_verified L tx next_height projected of
        (Inl Panic, _) \<Rightarrow> Inl Panic
      | (_, projected') \<Rightarrow> project_pending_state L projected' pending next_height)"

definition QUEUE_VALIDATOR :: string where "QUEUE_VALIDATOR = ''__queue__''"

text \<open>The section of \<open>queue_transaction\<close> that holds the pool; whether the transaction was added.\<close>

definition admit :: "'x prims_scheme \<Rightarrow> transaction \<Rightarrow> (node, bool) exec" where
  "admit L tx =
     bindE (gets ns_chain) (\<lambda>chain.
     bindE (gets ns_pending) (\<lambda>pending.
     bindE (ensure (length pending < MAX_PENDING_TXS) ''Mempool is full; retry after the next block'') (\<lambda>_.
     if list_ex (\<lambda>queued. tx_id queued = tx_id tx) pending then ret False
     else let next_height = as_u64 (length (bc_blocks chain)) in
          bindE (lift (project_pending_state L (bc_state chain) pending next_height)) (\<lambda>projected.
          bindE (lift (map_err (\<lambda>e. ''Transaction not applicable: '' @ e)
                         (fst (apply_verified L tx next_height projected)))) (\<lambda>_.
          bindE (modify (\<lambda>s. s\<lparr>ns_pending := ns_pending s @ [tx]\<rparr>)) (\<lambda>_.
          ret True))))))"

definition queue_transaction :: "'x prims_scheme \<Rightarrow> world \<Rightarrow> transaction \<Rightarrow> (node, unit) exec" where
  "queue_transaction L W tx0 =
     bindE (ensure (tx_type tx0 \<noteq> Reward) ''Reward transactions cannot be submitted'') (\<lambda>_.
     bindE (gets (\<lambda>s. cs_chain_id (bc_state (ns_chain s)))) (\<lambda>chain_id.
     let tx = tx0\<lparr>tx_chain_id := chain_id\<rparr> in
     bindE (lift (map_err (\<lambda>e. ''Invalid transaction: '' @ e) (verify_for_block L tx QUEUE_VALIDATOR))) (\<lambda>_.
     bindE (admit L tx) (\<lambda>added.
     if \<not> added then ret ()
     else bindE (persist_state W) (\<lambda>_. spawn (GossipTransaction tx))))))"

text \<open>Which pending transactions stay after the blocks \<open>accepted\<close>.\<close>

definition prune_pending :: "'x node_lib_scheme \<Rightarrow> block list \<Rightarrow> (node, unit) exec" where
  "prune_pending L accepted =
     (let included_ids = map tx_id (List.map_filter (tx_parse L) (concat (map blk_transactions accepted))) in
      modify (\<lambda>s. s\<lparr>ns_pending := filter (\<lambda>tx.
        if tx_id tx \<in> set included_ids then False
        else case tx_from tx of
               Some sender \<Rightarrow> if 0 < tx_nonce tx then nonce_of (bc_state (ns_chain s)) sender < tx_nonce tx else True
             | None \<Rightarrow> True) (ns_pending s)\<rparr>))"


section \<open>Producing a block\<close>

record block_plan =
  bp_validator :: string
  bp_public_key :: string
  bp_slot_input :: string
  bp_transactions :: "string list"
  bp_state_root :: string
  bp_included_ids :: "string list"

definition NO_VALIDATORS :: string where
  "NO_VALIDATORS = ''No validators available. Stake tokens to become a validator.''"

definition first_leader ::
  "'x prims_scheme \<Rightarrow> int \<Rightarrow> blockchain \<Rightarrow> (string \<times> string) outcome" where
  "first_leader L now chain =
     bindR (open_leaders L now chain) (\<lambda>leaders.
     ok_or (case leaders of [] \<Rightarrow> None | (_, leader, input) # _ \<Rightarrow> Some (leader, input)) NO_VALIDATORS)"

text \<open>The validator to plan for and its slot input.\<close>

definition plan_slot ::
  "'x prims_scheme \<Rightarrow> int \<Rightarrow> blockchain \<Rightarrow> string option \<Rightarrow> (string \<times> string) outcome" where
  "plan_slot L now chain producer =
     (case producer of
        None \<Rightarrow> first_leader L now chain
      | Some addr \<Rightarrow>
          bindR (eligible_slot_for L now chain addr) (\<lambda>slot.
          case slot of
            Some (_, input) \<Rightarrow> Inr (addr, input)
          | None \<Rightarrow>
              bindR (first_leader L now chain) (\<lambda>(primary, _).
              Inl (Err (''PoS: validator '' @ addr @ '' is not an eligible leader for this slot. Current leader is ''
                @ primary @ ''; a fallback leader rotates in every '' @ show_int SLOT_TIMEOUT_SECONDS
                @ ''s without a block.'')))))"

text \<open>
  The loop over the pool: a transaction that does not verify is skipped, and so is one that does
  not apply, whose writes stay in the state the plan goes on from.
\<close>

fun include_pending ::
  "'x node_lib_scheme \<Rightarrow> string \<Rightarrow> u64 \<Rightarrow> transaction list \<Rightarrow> chain_state \<times> string list \<times> string list
   \<Rightarrow> ('e, chain_state \<times> string list \<times> string list) result" where
  "include_pending L validator height [] acc = Inr acc"
| "include_pending L validator height (tx # pending) (post_state, transactions, included_ids) =
     (if MAX_BLOCK_TXS \<le> length included_ids then Inr (post_state, transactions, included_ids)
      else case verify_for_block L tx validator of
        Inl Panic \<Rightarrow> Inl Panic
      | Inl (Err _) \<Rightarrow> include_pending L validator height pending (post_state, transactions, included_ids)
      | Inr _ \<Rightarrow>
          (case apply_verified L tx height post_state of
             (Inl Panic, _) \<Rightarrow> Inl Panic
           | (Inl (Err _), post_state') \<Rightarrow>
               include_pending L validator height pending (post_state', transactions, included_ids)
           | (Inr _, post_state') \<Rightarrow>
               include_pending L validator height pending
                 (post_state', transactions @ [tx_print L tx], included_ids @ [tx_id tx])))"

definition plan_block ::
  "'x node_lib_scheme \<Rightarrow> world \<Rightarrow> blockchain \<Rightarrow> transaction list \<Rightarrow> string option \<Rightarrow> block_plan outcome" where
  "plan_block L W chain pending producer =
     bindR (next_index chain) (\<lambda>height.
     bindR (plan_slot L (w_now W) chain producer) (\<lambda>(validator, slot_input).
     bindR (ok_or (map_option si_public_key (fmlookup (cs_stakers (bc_state chain)) validator))
              ''Selected validator not registered'') (\<lambda>public_key.
     bindR (include_pending L validator height pending (bc_state chain, [], [])) (\<lambda>(state1, transactions, ids).
     let reward = new_reward (w_uuid W) (w_now W) validator height;
         (r, state2) = apply_verified L reward height state1 in
     bindR (map_err (\<lambda>e. ''Failed to apply reward: '' @ e) r) (\<lambda>_.
     let (q, state3) = end_block height validator state2 in
     bindR q (\<lambda>_.
     Inr \<lparr>bp_validator = validator, bp_public_key = public_key, bp_slot_input = slot_input,
          bp_transactions = transactions @ [tx_print L reward], bp_state_root = state_root L state3,
          bp_included_ids = ids\<rparr>))))))"

end
