(* ===== verification/Handlers.thy ===== *)
theory Handlers
  imports Node
begin

text \<open>
  The node's handlers that touch the chain (\<open>src/src/api/routes.rs\<close>): mining, submitted and
  gossiped blocks, protocol messages, fork-choice sync, governance and slashing evidence.
\<close>


section \<open>Mining\<close>

record mining_response =
  mr_status :: string
  mr_message :: string
  mr_block_index :: u64
  mr_transactions_count :: nat

definition no_block :: "string \<Rightarrow> string \<Rightarrow> mining_response" where
  "no_block status message =
     \<lparr>mr_status = status, mr_message = message, mr_block_index = 0, mr_transactions_count = 0\<rparr>"

text \<open>The first section of \<open>mine_block\<close>: what to mine, on top of which block, at which difficulty.\<close>

definition plan_mining ::
  "'x node_lib_scheme \<Rightarrow> world \<Rightarrow> local_validator_key
   \<Rightarrow> (node, mining_response + (block_plan \<times> u64 \<times> string \<times> u64)) exec" where
  "plan_mining L W key =
     bindE (gets ns_chain) (\<lambda>chain.
     bindE (gets ns_pending) (\<lambda>pending.
     matchE (lift (plan_block L W chain pending (Some (lk_address key))))
       (\<lambda>plan.
          if bp_public_key plan \<noteq> lk_public_key key then
            ret (Inl (no_block ''error''
              (''Local validator key does not match this validator'' @ [CHR 0x27] @ ''s registered public key'')))
          else bindE (lift (next_index chain)) (\<lambda>index.
               ret (Inr (plan, index, latest_hash chain, bc_current_difficulty chain))))
       (\<lambda>message.
          ret (Inl (no_block (if contains ''No pending'' message \<or> contains ''not an eligible leader'' message
                              then ''info'' else ''error'') message)))))"

text \<open>\<open>Block::new\<close> on the blocking pool, with the time it reads.\<close>

definition build_block :: "'x prims_scheme \<Rightarrow> int \<Rightarrow> block_plan \<Rightarrow> u64 \<Rightarrow> string \<Rightarrow> u64 \<Rightarrow> block outcome" where
  "build_block L now plan index previous_hash difficulty =
     new_at L now index (bp_transactions plan) previous_hash difficulty (Some (bp_validator plan))
       (Some (bp_public_key plan)) None (bp_state_root plan)"

text \<open>The proofs and signatures a validator adds to its block; the text of what failed otherwise.\<close>

definition seal_block ::
  "'x prims_scheme \<Rightarrow> local_validator_key \<Rightarrow> block_plan \<Rightarrow> chain_state \<Rightarrow> block \<Rightarrow> block outcome" where
  "seal_block L key plan state b =
     bindR (map_err (\<lambda>e. ''Failed to compute VRF proof: '' @ e) (vrf_prove L (bp_slot_input plan) (lk_private_key key)))
       (\<lambda>(vrf_output, vrf_proof).
     let b1 = b\<lparr>blk_vrf_output := Some vrf_output, blk_vrf_proof := Some vrf_proof\<rparr> in
     bindR (map_err (\<lambda>e. ''Failed to sign block: '' @ e) (sign_block_hash L (blk_hash b1) (lk_private_key key)))
       (\<lambda>signature.
     let b2 = b1\<lparr>blk_validator_signature := Some signature\<rparr>;
         needs_pq = (case fmlookup (cs_stakers state) (bp_validator plan) of
                       None \<Rightarrow> False | Some info \<Rightarrow> si_pq_public_key info \<noteq> []) in
     if needs_pq then
       bindR (map_err (\<lambda>e. ''Failed to sign block with the post-quantum key: '' @ e)
                (pq_sign_block_hash L (blk_hash b2) (lk_private_key key)))
         (\<lambda>pq_signature. Inr (b2\<lparr>blk_validator_pq_signature := Some pq_signature\<rparr>))
     else Inr b2))"

text \<open>Validate, commit and update finality, as every path that accepts a block does.\<close>

definition extend_chain :: "'x node_lib_scheme \<Rightarrow> world \<Rightarrow> u64 \<Rightarrow> block \<Rightarrow> (node, unit) exec" where
  "extend_chain L W finality_depth b =
     bindE (gets ns_chain) (\<lambda>chain.
     bindE (lift (validate_block_candidate L (w_now W) chain b)) (\<lambda>post_state.
     bindE (lift (commit_block L b post_state chain)) (\<lambda>chain1.
     bindE (lift (apply_finality finality_depth chain1)) (\<lambda>chain2.
     modify (\<lambda>s. s\<lparr>ns_chain := chain2\<rparr>)))))"

text \<open>
  The second section, on whatever chain the node holds once the block is mined: nothing happens
  when the tip has moved.
\<close>

definition finish_mining ::
  "'x node_lib_scheme \<Rightarrow> world \<Rightarrow> u64 \<Rightarrow> local_validator_key \<Rightarrow> block_plan \<Rightarrow> string \<Rightarrow> block
   \<Rightarrow> (node, mining_response) exec" where
  "finish_mining L W finality_depth key plan previous_hash built =
     bindE (gets ns_chain) (\<lambda>chain.
     if latest_hash chain \<noteq> previous_hash then ret (no_block ''info'' ''Chain tip moved while mining; retry'')
     else matchE (lift (seal_block L key plan (bc_state chain) built))
       (\<lambda>b. matchE (extend_chain L W finality_depth b)
          (\<lambda>_.
             bindE (gets (\<lambda>s. tip_index (ns_chain s))) (\<lambda>tip.
             bindE (lift tip) (\<lambda>block_index.
             bindE (modify (\<lambda>s. s\<lparr>ns_pending :=
                      filter (\<lambda>tx. tx_id tx \<notin> set (bp_included_ids plan)) (ns_pending s)\<rparr>)) (\<lambda>_.
             bindE (bump mt_blocks_mined mt_blocks_mined_update 1) (\<lambda>_.
             bindE (persist_state W) (\<lambda>_.
             bindE (spawn (GossipBlocks [b])) (\<lambda>_.
             ret \<lparr>mr_status = ''success'',
                  mr_message = ''Successfully mined block '' @ show_u64 block_index @ '' with ''
                    @ dec_string (length (bp_transactions plan)) @ '' transactions. Validator: '' @ lk_address key,
                  mr_block_index = block_index, mr_transactions_count = length (bp_transactions plan)\<rparr>)))))))
          (\<lambda>message. ret (no_block ''error'' (''Mined block failed validation: '' @ message))))
       (\<lambda>message. ret (no_block ''error'' message)))"

text \<open>
  The handler with nothing in between; \<open>mined_at\<close> is the time the block is stamped with. A panic of
  the mining task is an error of the join.
\<close>

definition mine :: "'x node_lib_scheme \<Rightarrow> world \<Rightarrow> int \<Rightarrow> (node, mining_response) exec" where
  "mine L W mined_at =
     bindE (gets (\<lambda>s. gc_finality_depth (ns_governance s))) (\<lambda>finality_depth.
     bindE (gets ns_validator_key) (\<lambda>validator_key.
     case validator_key of
       None \<Rightarrow> ret (no_block ''error''
         ''This node has no validator key (set VALIDATOR_PRIVATE_KEY). External validators can use POST /mine/propose and /mine/submit.'')
     | Some key \<Rightarrow>
         bindE (plan_mining L W key) (\<lambda>planned.
         case planned of
           Inl response \<Rightarrow> ret response
         | Inr (plan, index, previous_hash, difficulty) \<Rightarrow>
             (case build_block L mined_at plan index previous_hash difficulty of
                Inl _ \<Rightarrow> ret (no_block ''error'' ''Mining task failed'')
              | Inr built \<Rightarrow> finish_mining L W finality_depth key plan previous_hash built))))"

record propose_response =
  pp_status :: string
  pp_message :: string
  pp_selected_validator :: "string option"
  pp_block :: "block option"
  pp_block_hash :: "string option"
  pp_vrf_input :: "string option"

definition propose_block :: "'x node_lib_scheme \<Rightarrow> world \<Rightarrow> string option \<Rightarrow> (node, propose_response) exec" where
  "propose_block L W validator =
     bindE (gets ns_pending) (\<lambda>pending.
     bindE (gets ns_chain) (\<lambda>chain.
     matchE (lift (plan_block L W chain pending validator))
       (\<lambda>plan.
          bindE (lift (create_block L (w_now W) chain (bp_transactions plan) (Some (bp_validator plan))
                         (Some (bp_public_key plan)) (bp_state_root plan))) (\<lambda>b.
          ret \<lparr>pp_status = ''success'',
               pp_message = ''Block candidate created for validator '' @ bp_validator plan
                 @ ''. Sign block_hash with the validator'' @ [CHR 0x27]
                 @ ''s private key (hikma-wallet sign-block), compute the VRF proof over vrf_input (hikma-wallet vrf-prove), set validator_signature, vrf_output, and vrf_proof on the block, and POST it to /mine/submit.'',
               pp_selected_validator = Some (bp_validator plan), pp_block = Some b,
               pp_block_hash = Some (blk_hash b), pp_vrf_input = Some (bp_slot_input plan)\<rparr>))
       (\<lambda>message. ret \<lparr>pp_status = ''error'', pp_message = message, pp_selected_validator = None,
          pp_block = None, pp_block_hash = None, pp_vrf_input = None\<rparr>)))"

definition submit_block :: "'x node_lib_scheme \<Rightarrow> world \<Rightarrow> block \<Rightarrow> (node, mining_response) exec" where
  "submit_block L W b =
     bindE (gets (\<lambda>s. gc_finality_depth (ns_governance s))) (\<lambda>finality_depth.
     matchE (extend_chain L W finality_depth b)
       (\<lambda>_.
          bindE (gets (\<lambda>s. tip_index (ns_chain s))) (\<lambda>tip.
          bindE (lift tip) (\<lambda>block_index.
          bindE (prune_pending L [b]) (\<lambda>_.
          bindE (bump mt_blocks_mined mt_blocks_mined_update 1) (\<lambda>_.
          bindE (persist_state W) (\<lambda>_.
          bindE (spawn (GossipBlocks [b])) (\<lambda>_.
          ret \<lparr>mr_status = ''success'',
               mr_message = ''Signed block accepted at height '' @ show_u64 block_index @ ''. Validator: ''
                 @ (case blk_validator b of None \<Rightarrow> ''unknown'' | Some v \<Rightarrow> v),
               mr_block_index = block_index, mr_transactions_count = length (blk_transactions b)\<rparr>)))))))
       (\<lambda>message.
          bindE (bump mt_blocks_rejected mt_blocks_rejected_update 1) (\<lambda>_.
          ret (no_block ''error'' message))))"



section \<open>Blocks from peers\<close>

definition reject :: "string \<Rightarrow> (node, api_response) exec" where
  "reject message =
     bindE (bump mt_protocol_messages_rejected mt_protocol_messages_rejected_update 1) (\<lambda>_. ret (failed message))"

text \<open>The block's height; a block that does not extend the tip asks for a sync.\<close>

definition accept_peer_block :: "'x node_lib_scheme \<Rightarrow> world \<Rightarrow> u64 \<Rightarrow> block \<Rightarrow> (node, u64) exec" where
  "accept_peer_block L W finality_depth b =
     matchE (extend_chain L W finality_depth b)
       (\<lambda>_.
          bindE (gets (\<lambda>s. as_u64 (length (bc_blocks (ns_chain s))))) (\<lambda>len.
          bindE (lift (sub_u64 len 1)) (\<lambda>height.
          bindE (prune_pending L [b]) (\<lambda>_.
          ret height))))
       (\<lambda>message.
          bindE (if contains ''chain tip'' message then spawn SyncWithPeers else ret ()) (\<lambda>_.
          lift (Inl (Err message))))"

text \<open>The blocks are taken in order until one is refused; how many were taken.\<close>

fun accept_blocks :: "'x node_lib_scheme \<Rightarrow> world \<Rightarrow> u64 \<Rightarrow> block list \<Rightarrow> u64 \<Rightarrow> (node, u64) exec" where
  "accept_blocks L W finality_depth [] accepted = ret accepted"
| "accept_blocks L W finality_depth (b # bs) accepted =
     matchE (accept_peer_block L W finality_depth b)
       (\<lambda>_. bindE (lift (add_u64 accepted 1)) (accept_blocks L W finality_depth bs))
       (\<lambda>_. ret accepted)"

definition finality_depth_of :: "node \<Rightarrow> u64" where
  "finality_depth_of s = gc_finality_depth (ns_governance s)"

definition accept_batch :: "'x node_lib_scheme \<Rightarrow> world \<Rightarrow> block list \<Rightarrow> (node, api_response) exec" where
  "accept_batch L W blocks =
     bindE (gets finality_depth_of) (\<lambda>finality_depth.
     bindE (accept_blocks L W finality_depth blocks 0) (\<lambda>accepted.
     bindE (if 0 < accepted then
              bindE (bump mt_blocks_received mt_blocks_received_update accepted) (\<lambda>_. persist_state W)
            else ret ()) (\<lambda>_.
     ret (success (''Accepted '' @ show_u64 accepted @ '' blocks'')))))"

definition receive_block ::
  "'y auth_lib_scheme \<Rightarrow> 'x node_lib_scheme \<Rightarrow> world \<Rightarrow> string option \<Rightarrow> block \<Rightarrow> (node, api_response) exec" where
  "receive_block A L W supplied b =
     bindE (gets (\<lambda>s. authorize_p2p A (w_secs W) (ns_access s) supplied)) (\<lambda>authorized.
     if \<not> authorized then ret (failed ''Unauthorized peer request'')
     else
       bindE (gets finality_depth_of) (\<lambda>finality_depth.
       matchE (accept_peer_block L W finality_depth b)
         (\<lambda>_.
            bindE (bump mt_blocks_received mt_blocks_received_update 1) (\<lambda>_.
            bindE (persist_state W) (\<lambda>_.
            ret (success ''Block accepted''))))
         (\<lambda>message.
            bindE (bump mt_blocks_rejected mt_blocks_rejected_update 1) (\<lambda>_.
            ret (failed message)))))"

definition receive_blocks ::
  "'y auth_lib_scheme \<Rightarrow> 'x node_lib_scheme \<Rightarrow> world \<Rightarrow> string option \<Rightarrow> block list \<Rightarrow> (node, api_response) exec" where
  "receive_blocks A L W supplied blocks =
     bindE (gets (\<lambda>s. authorize_p2p A (w_secs W) (ns_access s) supplied)) (\<lambda>authorized.
     if \<not> authorized then ret (failed ''Unauthorized peer request'')
     else accept_batch L W blocks)"


section \<open>Fork-choice sync\<close>

text \<open>What the node does with a chain it fetched; a refused chain changes nothing.\<close>

definition consider_chain :: "'x node_lib_scheme \<Rightarrow> world \<Rightarrow> u64 \<Rightarrow> blockchain \<Rightarrow> (node, bool) exec" where
  "consider_chain L W finality_depth candidate =
     bindE (gets ns_chain) (\<lambda>chain.
     matchE (lift (try_adopt_chain L (w_now W) candidate chain))
       (\<lambda>(changed, chain1).
          if changed then
            bindE (lift (apply_finality finality_depth chain1)) (\<lambda>chain2.
            bindE (modify (\<lambda>s. s\<lparr>ns_chain := chain2\<rparr>)) (\<lambda>_.
            ret True))
          else ret False)
       (\<lambda>_. ret False))"

definition adopt_from :: "'x node_lib_scheme \<Rightarrow> world \<Rightarrow> u64 \<Rightarrow> blockchain option \<Rightarrow> (node, unit) exec" where
  "adopt_from L W finality_depth fetched =
     (case fetched of None \<Rightarrow> ret ()
      | Some candidate \<Rightarrow>
          bindE (consider_chain L W finality_depth candidate) (\<lambda>adopted.
          if adopted then
            bindE (bump mt_reorgs mt_reorgs_update 1) (\<lambda>_.
            bindE (prune_pending L []) (\<lambda>_.
            persist_state W))
          else ret ()))"

text \<open>\<open>fetch\<close> answers with each peer's chain, or with nothing.\<close>

definition sync_with_peers ::
  "'x node_lib_scheme \<Rightarrow> world \<Rightarrow> (string \<Rightarrow> blockchain option) \<Rightarrow> (node, unit) exec" where
  "sync_with_peers L W fetch =
     bindE (gets ns_peers) (\<lambda>peers.
     if peers = [] then ret ()
     else bindE (gets finality_depth_of) (\<lambda>finality_depth.
          forE peers (\<lambda>peer. adopt_from L W finality_depth (fetch peer))))"

end
