(* ===== verification/Messages.thy ===== *)
theory Messages
  imports Handlers
begin

text \<open>
  What a node does with an envelope from a peer (\<open>receive_protocol_message\<close> in
  \<open>src/src/api/routes.rs\<close>), peer registration, and the gossip it sends.
\<close>


section \<open>Peers make themselves known\<close>

definition remember_peer :: "world \<Rightarrow> string \<Rightarrow> (node, api_response) exec" where
  "remember_peer W address =
     bindE (gets ns_peers) (\<lambda>peers.
     bindE (if address \<notin> set peers then
              bindE (modify (\<lambda>s. s\<lparr>ns_peers := ns_peers s @ [address]\<rparr>)) (\<lambda>_.
              bump mt_peers_registered mt_peers_registered_update 1)
            else ret ()) (\<lambda>_.
     bindE (persist_state W) (\<lambda>_.
     ret (success (''Registered peer '' @ address)))))"

definition register_peer ::
  "'y auth_lib_scheme \<Rightarrow> world \<Rightarrow> string option \<Rightarrow> string \<Rightarrow> (node, api_response) exec" where
  "register_peer A W supplied address =
     bindE (gets (\<lambda>s. authorize_p2p A (w_secs W) (ns_access s) supplied)) (\<lambda>authorized.
     if \<not> authorized then ret (failed ''Unauthorized peer request'')
     else if blank address then ret (failed ''Peer address cannot be empty'')
     else remember_peer W address)"


section \<open>Payloads\<close>

definition take_announce :: "world \<Rightarrow> string \<Rightarrow> (node, api_response) exec" where
  "take_announce W address =
     (if blank address then reject ''Peer address cannot be empty'' else remember_peer W address)"

definition misbehaved :: "world \<Rightarrow> string \<Rightarrow> string \<Rightarrow> (node, api_response) exec" where
  "misbehaved W node_id message = bindE (penalize_peer W node_id) (\<lambda>_. reject message)"

text \<open>The section that holds the chain and the pool; whether the transaction applies on top of it.\<close>

definition admit_gossip :: "'x prims_scheme \<Rightarrow> transaction \<Rightarrow> (node, bool) exec" where
  "admit_gossip L tx =
     bindE (gets ns_chain) (\<lambda>chain.
     bindE (gets ns_pending) (\<lambda>pending.
     bindE (lift (next_index chain)) (\<lambda>next_height.
     bindE (lift (project_pending_state L (bc_state chain) pending next_height)) (\<lambda>projected.
     matchE (lift (fst (apply_verified L tx next_height projected)))
       (\<lambda>_. bindE (modify (\<lambda>s. s\<lparr>ns_pending := ns_pending s @ [tx]\<rparr>)) (\<lambda>_. ret True))
       (\<lambda>_. ret False)))))"

definition take_transaction ::
  "'x prims_scheme \<Rightarrow> world \<Rightarrow> string \<Rightarrow> transaction \<Rightarrow> (node, api_response) exec" where
  "take_transaction L W node_id tx =
     bindE (gets ns_pending) (\<lambda>pending.
     if list_ex (\<lambda>queued. tx_id queued = tx_id tx) pending then ret (success ''Transaction already queued'')
     else
       bindE (matchE (lift (verify_for_block L tx QUEUE_VALIDATOR)) (\<lambda>_. ret (tx_type tx \<noteq> Reward)) (\<lambda>_. ret False))
         (\<lambda>valid.
       if \<not> valid then misbehaved W node_id ''Invalid gossiped transaction''
       else
         bindE (admit_gossip L tx) (\<lambda>admitted.
         if \<not> admitted then misbehaved W node_id ''Gossiped transaction not applicable''
         else
           bindE (reward_peer node_id) (\<lambda>_.
           bindE (bump mt_transactions_received mt_transactions_received_update 1) (\<lambda>_.
           bindE (persist_state W) (\<lambda>_.
           ret (success ''Transaction queued'')))))))"

definition take_block ::
  "'x node_lib_scheme \<Rightarrow> world \<Rightarrow> string \<Rightarrow> block \<Rightarrow> (node, api_response) exec" where
  "take_block L W node_id b =
     bindE (gets finality_depth_of) (\<lambda>finality_depth.
     matchE (accept_peer_block L W finality_depth b)
       (\<lambda>_.
          bindE (reward_peer node_id) (\<lambda>_.
          bindE (bump mt_blocks_received mt_blocks_received_update 1) (\<lambda>_.
          bindE (persist_state W) (\<lambda>_.
          ret (success ''Block accepted'')))))
       (\<lambda>message.
          bindE (if contains ''chain tip'' message then ret () else penalize_peer W node_id) (\<lambda>_.
          bindE (bump mt_blocks_rejected mt_blocks_rejected_update 1) (\<lambda>_.
          reject message))))"

definition take_payload ::
  "'x node_lib_scheme \<Rightarrow> world \<Rightarrow> string \<Rightarrow> p2p_payload \<Rightarrow> (node, api_response) exec" where
  "take_payload L W node_id payload =
     (case payload of
        Ping \<Rightarrow> ret (success ''pong'')
      | PeerAnnounce address \<Rightarrow> take_announce W address
      | TransactionMsg tx \<Rightarrow> take_transaction L W node_id tx
      | BlockMsg b \<Rightarrow> take_block L W node_id b
      | BlockBatch blocks \<Rightarrow> accept_batch L W blocks)"


section \<open>The envelope\<close>

text \<open>The replay check: whether the message is new.\<close>

definition first_seen :: "string \<Rightarrow> (node, bool) exec" where
  "first_seen message_id =
     bindE (gets (\<lambda>s. seen_insert message_id (ns_seen s))) (\<lambda>(fresh, seen).
     bindE (modify (\<lambda>s. s\<lparr>ns_seen := seen\<rparr>)) (\<lambda>_.
     ret fresh))"

definition receive_protocol_message ::
  "'y auth_lib_scheme \<Rightarrow> 'x net_lib_scheme \<Rightarrow> world \<Rightarrow> string option \<Rightarrow> envelope \<Rightarrow> (node, api_response) exec" where
  "receive_protocol_message A L W supplied e =
     bindE (gets (\<lambda>s. authorize_p2p A (w_secs W) (ns_access s) supplied)) (\<lambda>authorized.
     if \<not> authorized then reject ''Unauthorized peer request''
     else
       bindE (gets (\<lambda>s. ac_p2p_require_identity (ns_access s))) (\<lambda>require_identity.
       matchE (lift (validate_with_identity L (w_now W) e 300 require_identity))
         (\<lambda>_.
            bindE (gets (\<lambda>s. is_accepted (w_secs W) (ns_book s) (en_node_id e))) (\<lambda>accepted.
            if \<not> accepted then reject ''Peer is banned or not permitted''
            else
              bindE (first_seen (en_message_id e)) (\<lambda>fresh.
              if \<not> fresh then reject ''Duplicate P2P message rejected''
              else
                bindE (bump mt_protocol_messages_received mt_protocol_messages_received_update 1) (\<lambda>_.
                take_payload L W (en_node_id e) (en_payload e)))))
         (\<lambda>message. misbehaved W (en_node_id e) message)))"


section \<open>Gossip\<close>

text \<open>The spawned tasks; \<open>sends\<close> tells whether an attempt to reach a peer succeeds.\<close>

definition count_gossip :: "u64 \<times> u64 \<Rightarrow> (node, unit) exec" where
  "count_gossip counts =
     bindE (bump mt_gossip_sent mt_gossip_sent_update (fst counts)) (\<lambda>_.
     bump mt_gossip_failed mt_gossip_failed_update (snd counts))"

fun gossip_counts ::
  "p2p_service \<Rightarrow> (block \<Rightarrow> string \<Rightarrow> nat \<Rightarrow> bool) \<Rightarrow> string list \<Rightarrow> block list \<Rightarrow> u64 \<times> u64 \<Rightarrow> (u64 \<times> u64) outcome" where
  "gossip_counts service sends targets [] counts = Inr counts"
| "gossip_counts service sends targets (b # bs) (sent, lost) =
     bindR (broadcast service (sends b) targets (0, 0)) (\<lambda>(ok, err).
     bindR (add_u64 sent ok) (\<lambda>sent'.
     bindR (add_u64 lost err) (\<lambda>lost'.
     gossip_counts service sends targets bs (sent', lost'))))"

definition gossip_blocks ::
  "p2p_service \<Rightarrow> (block \<Rightarrow> string \<Rightarrow> nat \<Rightarrow> bool) \<Rightarrow> block list \<Rightarrow> (node, unit) exec" where
  "gossip_blocks service sends blocks =
     bindE (gets ns_peers) (\<lambda>targets.
     bindE (lift (gossip_counts service sends targets blocks (0, 0))) count_gossip)"

definition gossip_transaction :: "p2p_service \<Rightarrow> (string \<Rightarrow> nat \<Rightarrow> bool) \<Rightarrow> (node, unit) exec" where
  "gossip_transaction service sends =
     bindE (gets ns_peers) (\<lambda>targets.
     if targets = [] then ret ()
     else bindE (lift (broadcast service sends targets (0, 0))) count_gossip)"

end
