(* ===== verification/Sync.thy ===== *)
theory Sync
  imports Messages
begin

text \<open>
  The background syncer (\<open>src/src/p2p/sync.rs\<close>): announcing and discovering peers, and catching up
  with the best of them. What the peers answer is a record of functions; the node reads them
  outside every section that holds its chain.
\<close>


section \<open>Configuration and outcomes\<close>

definition MAX_PEERS_PER_TICK :: nat where "MAX_PEERS_PER_TICK = 16"
definition MAX_LEARNED_PEERS_PER_TICK :: nat where "MAX_LEARNED_PEERS_PER_TICK = 8"
definition MAX_BATCHES_PER_PASS :: nat where "MAX_BATCHES_PER_PASS = 64"
definition DEFAULT_INTERVAL_SECONDS :: u64 where "DEFAULT_INTERVAL_SECONDS = 10"

record sync_config =
  sy_interval :: u64
  sy_batch :: nat
  sy_announce_address :: "string option"

text \<open>\<open>interval\<close> is an environment variable.\<close>

definition sync_config_from_env :: "string option \<Rightarrow> string option \<Rightarrow> sync_config" where
  "sync_config_from_env interval announce_address =
     \<lparr>sy_interval = (case Option.bind interval parse_u64 of
                      Some n \<Rightarrow> if 0 < n then n else DEFAULT_INTERVAL_SECONDS
                    | None \<Rightarrow> DEFAULT_INTERVAL_SECONDS),
      sy_batch = MAX_SYNC_BATCH, sy_announce_address = announce_address\<rparr>"

datatype sync_outcome = UpToDate | Advanced u64 | Reorganized | NoProgress

text \<open>The peers' answers: their address books, heads, blocks from a height, and chains.\<close>

record network =
  nw_peers :: "string \<Rightarrow> string list option"
  nw_head :: "string \<Rightarrow> chain_head option"
  nw_blocks :: "string \<Rightarrow> u64 \<Rightarrow> nat \<Rightarrow> block list option"
  nw_chain :: "string \<Rightarrow> blockchain option"


section \<open>Discovery\<close>

fun learn :: "sync_config \<Rightarrow> string list \<Rightarrow> string list \<Rightarrow> string list \<Rightarrow> string list" where
  "learn config peers [] learned = learned"
| "learn config peers (c # cs) learned =
     (let candidate = trim c in
      if candidate = [] \<or> Some candidate = sy_announce_address config
         \<or> candidate \<in> set peers \<or> candidate \<in> set learned
      then learn config peers cs learned
      else learn config peers cs (learned @ [candidate]))"

fun learn_from :: "network \<Rightarrow> sync_config \<Rightarrow> string list \<Rightarrow> string list \<Rightarrow> string list \<Rightarrow> string list" where
  "learn_from N config peers [] learned = learned"
| "learn_from N config peers (peer # asked) learned =
     learn_from N config peers asked
       (case nw_peers N peer of None \<Rightarrow> learned
        | Some theirs \<Rightarrow> learn config peers (take MAX_LEARNED_PEERS_PER_TICK theirs) learned)"

fun push_new :: "string list \<Rightarrow> string list \<Rightarrow> string list" where
  "push_new [] peers = peers"
| "push_new (c # cs) peers = push_new cs (if c \<in> set peers then peers else peers @ [c])"

definition announce_and_discover :: "network \<Rightarrow> sync_config \<Rightarrow> (node, unit) exec" where
  "announce_and_discover N config =
     bindE (gets ns_peers) (\<lambda>peers.
     let learned = learn_from N config peers (take MAX_PEERS_PER_TICK peers) [] in
     if learned = [] then ret ()
     else modify (\<lambda>s. s\<lparr>ns_peers := push_new learned (ns_peers s)\<rparr>))"


section \<open>Catching up\<close>

definition prune_and_persist :: "'x node_lib_scheme \<Rightarrow> world \<Rightarrow> block list \<Rightarrow> (node, unit) exec" where
  "prune_and_persist L W accepted = bindE (prune_pending L accepted) (\<lambda>_. persist_state W)"

text \<open>Blocks are appended while they validate; the blocks taken, and whether one did not.\<close>

fun apply_fetched ::
  "'x node_lib_scheme \<Rightarrow> world \<Rightarrow> block list \<Rightarrow> block list \<Rightarrow> (node, block list \<times> bool) exec" where
  "apply_fetched L W [] accepted = ret (accepted, False)"
| "apply_fetched L W (b # bs) accepted =
     bindE (gets ns_chain) (\<lambda>chain.
     matchE (lift (validate_block_candidate L (w_now W) chain b))
       (\<lambda>post_state.
          bindE (lift (commit_block L b post_state chain)) (\<lambda>chain1.
          bindE (modify (\<lambda>s. s\<lparr>ns_chain := chain1\<rparr>)) (\<lambda>_.
          apply_fetched L W bs (accepted @ [b]))))
       (\<lambda>_. ret (accepted, True)))"

text \<open>The section that holds the chain for one batch.\<close>

definition apply_batch ::
  "'x node_lib_scheme \<Rightarrow> world \<Rightarrow> u64 \<Rightarrow> block list \<Rightarrow> (node, block list \<times> bool) exec" where
  "apply_batch L W finality_depth blocks =
     bindE (apply_fetched L W blocks []) (\<lambda>(accepted, diverged).
     bindE (if accepted = [] then ret ()
            else bindE (gets ns_chain) (\<lambda>chain.
                 bindE (lift (apply_finality finality_depth chain)) (\<lambda>chain1.
                 modify (\<lambda>s. s\<lparr>ns_chain := chain1\<rparr>)))) (\<lambda>_.
     ret (accepted, diverged)))"

definition adopt_via_fork_choice ::
  "'x node_lib_scheme \<Rightarrow> world \<Rightarrow> u64 \<Rightarrow> blockchain option \<Rightarrow> (node, bool) exec" where
  "adopt_via_fork_choice L W finality_depth fetched =
     (case fetched of None \<Rightarrow> ret False
      | Some remote \<Rightarrow>
          bindE (consider_chain L W finality_depth remote) (\<lambda>adopted.
          bindE (if adopted then
                   bindE (bump mt_reorgs mt_reorgs_update 1) (\<lambda>_. prune_and_persist L W [])
                 else ret ()) (\<lambda>_.
          ret adopted)))"

definition progress :: "u64 \<Rightarrow> sync_outcome" where
  "progress applied = (if 0 < applied then Advanced applied else NoProgress)"

text \<open>The loop over batches; \<open>fuel\<close> is the number of batches still allowed in this pass.\<close>

fun download_batches ::
  "nat \<Rightarrow> 'x node_lib_scheme \<Rightarrow> world \<Rightarrow> network \<Rightarrow> string \<Rightarrow> nat \<Rightarrow> u64 \<Rightarrow> u64 \<Rightarrow> u64
   \<Rightarrow> (node, sync_outcome) exec" where
  "download_batches 0 L W N peer batch finality_depth target applied = ret (progress applied)"
| "download_batches (Suc fuel) L W N peer batch finality_depth target applied =
     bindE (gets (\<lambda>s. next_index (ns_chain s))) (\<lambda>from_index.
     bindE (lift from_index) (\<lambda>from.
     if target < from then ret (progress applied)
     else case nw_blocks N peer from batch of
       None \<Rightarrow> ret (progress applied)
     | Some blocks \<Rightarrow>
         if blocks = [] then ret (progress applied)
         else
           bindE (apply_batch L W finality_depth blocks) (\<lambda>(accepted, diverged).
           bindE (lift (add_u64 applied (as_u64 (length accepted)))) (\<lambda>applied'.
           bindE (if accepted = [] then ret () else prune_and_persist L W accepted) (\<lambda>_.
           if diverged then
             bindE (adopt_via_fork_choice L W finality_depth (nw_chain N peer)) (\<lambda>adopted.
             ret (if adopted then Reorganized else progress applied'))
           else download_batches fuel L W N peer batch finality_depth target applied')))))"

definition download_from ::
  "'x node_lib_scheme \<Rightarrow> world \<Rightarrow> network \<Rightarrow> string \<Rightarrow> sync_config \<Rightarrow> u64 \<Rightarrow> (node, sync_outcome) exec" where
  "download_from L W N peer config target =
     bindE (gets finality_depth_of) (\<lambda>finality_depth.
     download_batches MAX_BATCHES_PER_PASS L W N peer (sy_batch config) finality_depth target 0)"

definition on_network :: "chain_head \<Rightarrow> chain_head \<Rightarrow> bool" where
  "on_network ours theirs \<longleftrightarrow> ch_chain_id ours = ch_chain_id theirs
     \<and> ch_root_hash ours = ch_root_hash theirs \<and> ch_base_height ours = ch_base_height theirs"

text \<open>The best head offered on our network, the first of those at its height.\<close>

fun best_head ::
  "network \<Rightarrow> chain_head \<Rightarrow> string list \<Rightarrow> (string \<times> chain_head) option \<Rightarrow> (string \<times> chain_head) option" where
  "best_head N our_head [] best = best"
| "best_head N our_head (peer # peers) best =
     best_head N our_head peers
       (case nw_head N peer of None \<Rightarrow> best
        | Some head \<Rightarrow>
            if on_network our_head head
               \<and> (case best of None \<Rightarrow> True | Some (_, current) \<Rightarrow> ch_height current < ch_height head)
            then Some (peer, head) else best)"

definition catch_up :: "'x node_lib_scheme \<Rightarrow> world \<Rightarrow> network \<Rightarrow> sync_config \<Rightarrow> (node, sync_outcome) exec" where
  "catch_up L W N config =
     bindE (gets ns_peers) (\<lambda>peers.
     if peers = [] then ret NoProgress
     else
       bindE (gets (\<lambda>s. head_of (ns_chain s))) (\<lambda>ours.
       bindE (lift ours) (\<lambda>our_head.
       case best_head N our_head (take MAX_PEERS_PER_TICK peers) None of
         None \<Rightarrow> ret NoProgress
       | Some (peer, head) \<Rightarrow>
           if ch_height head \<le> ch_height our_head then ret UpToDate
           else download_from L W N peer config (ch_height head))))"

definition tick :: "'x node_lib_scheme \<Rightarrow> world \<Rightarrow> network \<Rightarrow> sync_config \<Rightarrow> (node, sync_outcome) exec" where
  "tick L W N config =
     bindE (announce_and_discover N config) (\<lambda>_. catch_up L W N config)"

end
