(* ===== verification/Operator.thy ===== *)
theory Operator
  imports Messages
begin

text \<open>
  The handlers an operator or an observer uses (\<open>src/src/api/routes.rs\<close>): governance, equivocation
  proofs, slashing diagnostics, certificates, and the validation endpoints.
\<close>


section \<open>Certificates kept off the chain\<close>

definition issue_certificate ::
  "'y auth_lib_scheme \<Rightarrow> world \<Rightarrow> string option \<Rightarrow> string \<Rightarrow> string \<Rightarrow> string \<Rightarrow> (node, api_response) exec" where
  "issue_certificate A W supplied cert_id issued_to description =
     bindE (gets (\<lambda>s. authorize_admin A (w_secs W) (ns_access s) supplied)) (\<lambda>authorized.
     if \<not> authorized then ret (failed ''Unauthorized: certificate issuance requires the admin token'')
     else
       bindE (modify (\<lambda>s. s\<lparr>ns_contracts := issue_cert cert_id issued_to description (ns_contracts s)\<rparr>)) (\<lambda>_.
       bindE (modify (\<lambda>s. s\<lparr>ns_pending := ns_pending s
                @ [new_transaction (w_uuid W) (w_now W) None issued_to 0 Certificate]\<rparr>)) (\<lambda>_.
       bindE (persist_state W) (\<lambda>_.
       ret (success (''Certificate '' @ cert_id @ '' issued to '' @ issued_to @ '' and added to pending transactions''))))))"

definition attest_certificate ::
  "'y auth_lib_scheme \<Rightarrow> world \<Rightarrow> string option \<Rightarrow> string \<Rightarrow> (node, api_response) exec" where
  "attest_certificate A W supplied cert_id =
     bindE (gets (\<lambda>s. authorize_admin A (w_secs W) (ns_access s) supplied)) (\<lambda>authorized.
     if \<not> authorized then ret (failed ''Unauthorized: certificate attestation requires the admin token'')
     else
       bindE (gets (\<lambda>s. verify_cert cert_id (ns_contracts s))) (\<lambda>(known, contracts).
       bindE (modify (\<lambda>s. s\<lparr>ns_contracts := contracts\<rparr>)) (\<lambda>_.
       bindE (persist_state W) (\<lambda>_.
       ret (if known then success (''Certificate '' @ cert_id @ '' attested'')
            else failed (''Certificate '' @ cert_id @ '' not found''))))))"

definition verify_certificate_request :: "string \<Rightarrow> (node, api_response) exec" where
  "verify_certificate_request cert_id =
     bindE (gets (\<lambda>s. fmlookup (ns_contracts s) cert_id)) (\<lambda>found.
     ret (case found of
            Some cert \<Rightarrow> success (''Certificate '' @ ce_id cert @ '' issued to '' @ ce_issued_to cert
              @ '' (attested: '' @ show_bool (ce_verified cert) @ '')'')
          | None \<Rightarrow> failed (''Certificate '' @ cert_id @ '' not found'')))"


section \<open>Governance\<close>

definition update_governance ::
  "'y auth_lib_scheme \<Rightarrow> world \<Rightarrow> string option \<Rightarrow> u64 \<Rightarrow> u64 \<Rightarrow> (node, api_response) exec" where
  "update_governance A W supplied slash_percent finality_depth =
     bindE (gets (\<lambda>s. authorize_admin A (w_secs W) (ns_access s) supplied)) (\<lambda>authorized.
     if \<not> authorized then ret (failed ''Unauthorized admin request'')
     else if slash_percent = 0 \<or> 100 < slash_percent then ret (failed ''slash_percent must be between 1 and 100'')
     else if finality_depth = 0 \<or> 10000 < finality_depth then
       ret (failed ''finality_depth must be between 1 and 10,000'')
     else
       bindE (modify (\<lambda>s. s\<lparr>ns_governance := \<lparr>gc_slash_percent = slash_percent,
                             gc_finality_depth = finality_depth\<rparr>\<rparr>)) (\<lambda>_.
       bindE (persist_state W) (\<lambda>_.
       ret (success (''Updated slash_percent to '' @ show_u64 slash_percent @ '' and finality_depth to ''
         @ show_u64 finality_depth)))))"

definition set_mining_difficulty ::
  "'y auth_lib_scheme \<Rightarrow> world \<Rightarrow> string option \<Rightarrow> u64 \<Rightarrow> (node, api_response) exec" where
  "set_mining_difficulty A W supplied difficulty =
     bindE (gets (\<lambda>s. authorize_admin A (w_secs W) (ns_access s) supplied)) (\<lambda>authorized.
     if \<not> authorized then ret (failed ''Unauthorized: this endpoint requires the admin token'')
     else bindE (gets (\<lambda>s. bc_current_difficulty (ns_chain s))) (\<lambda>current.
       ret (failed (''Difficulty is consensus-derived: it retargets every '' @ show_u64 RETARGET_INTERVAL
         @ '' blocks toward              '' @ show_int TARGET_BLOCK_SECONDS
         @ ''s block time and is currently '' @ show_u64 current @ ''. Operators can no longer set it.''))))"


section \<open>Slashing\<close>

definition submit_equivocation ::
  "'x prims_scheme \<Rightarrow> world \<Rightarrow> slash_proof \<Rightarrow> (node, api_response) exec" where
  "submit_equivocation L W proof =
     matchE (lift (verify_slash_proof L proof))
       (\<lambda>offender.
          let tx = (new_transaction (w_uuid W) (w_now W) None offender 0 Slash)\<lparr>tx_slash_proof := Some proof\<rparr> in
          matchE (queue_transaction L W tx)
            (\<lambda>_.
               bindE (bump mt_slashes_submitted mt_slashes_submitted_update 1) (\<lambda>_.
               ret (success (''Equivocation proof against '' @ offender @ '' queued; the slash executes when mined''))))
            (\<lambda>message. ret (failed message)))
       (\<lambda>message. ret (failed (''Invalid equivocation proof: '' @ message)))"

record slash_response =
  sr_status :: string
  sr_message :: string
  sr_slashed_amount :: u64

definition submit_slash_evidence ::
  "'y auth_lib_scheme \<Rightarrow> 'x node_lib_scheme \<Rightarrow> world \<Rightarrow> string option \<Rightarrow> u64 \<Rightarrow> string \<Rightarrow> (node, slash_response) exec" where
  "submit_slash_evidence A L W supplied block_index reporter =
     bindE (gets (\<lambda>s. authorize_admin A (w_secs W) (ns_access s) supplied)) (\<lambda>authorized.
     if \<not> authorized then
       ret \<lparr>sr_status = ''error'', sr_message = ''Unauthorized admin request'', sr_slashed_amount = 0\<rparr>
     else
       bindE (gets ns_chain) (\<lambda>chain.
       matchE (lift (evaluate_slash_evidence L (time_rfc3339 L (w_now W)) chain block_index))
         (\<lambda>evidence.
            bindE (modify (\<lambda>s. s\<lparr>ns_evidence := ns_evidence s @
                     [\<lparr>re_block_index = block_index, re_reason = ev_reason evidence, re_reporter = reporter,
                       re_timestamp = ev_timestamp evidence, re_slashed_amount = 0\<rparr>]\<rparr>)) (\<lambda>_.
            bindE (persist_state W) (\<lambda>_.
            ret \<lparr>sr_status = ''success'',
                 sr_message = ''Recorded evidence against validator '' @ ev_validator evidence @ '': ''
                   @ ev_reason evidence @ ''. Submit an equivocation proof to /slashing/equivocation to slash on-chain.'',
                 sr_slashed_amount = 0\<rparr>)))
         (\<lambda>message. ret \<lparr>sr_status = ''error'', sr_message = message, sr_slashed_amount = 0\<rparr>)))"


section \<open>Validation and checkpoints\<close>

record validation_response =
  vr_is_valid :: bool
  vr_message :: string
  vr_details :: "string option"

definition validate_blockchain :: "'x node_lib_scheme \<Rightarrow> (node, validation_response) exec" where
  "validate_blockchain L =
     bindE (gets (\<lambda>s. validate_report L (ns_chain s))) (\<lambda>report.
     bindE (lift report) (\<lambda>(valid, details).
     ret (if valid then
            \<lparr>vr_is_valid = True, vr_message = ''Blockchain is valid'',
             vr_details = Some ''All blocks properly linked with valid PoW, PoS, and state execution''\<rparr>
          else \<lparr>vr_is_valid = False, vr_message = ''Blockchain validation failed'', vr_details = details\<rparr>)))"

definition validate_block :: "'x node_lib_scheme \<Rightarrow> world \<Rightarrow> nat \<Rightarrow> (node, validation_response) exec" where
  "validate_block L W index =
     bindE (gets ns_chain) (\<lambda>chain.
     if length (bc_blocks chain) \<le> index then
       ret \<lparr>vr_is_valid = False, vr_message = ''Block not found'',
            vr_details = Some (''Block index '' @ dec_string index @ '' does not exist'')\<rparr>
     else if index = 0 then
       (let valid = has_valid_pow L (bc_blocks chain ! 0) in
        ret \<lparr>vr_is_valid = valid,
             vr_message = (if valid then ''Genesis block is valid'' else ''Genesis block is invalid''),
             vr_details = Some ''Genesis block PoW validation''\<rparr>)
     else
       matchE (lift (evaluate_slash_evidence L (time_rfc3339 L (w_now W)) chain (as_u64 index)))
         (\<lambda>evidence. ret \<lparr>vr_is_valid = False,
            vr_message = ''Block '' @ dec_string index @ '' validation failed'',
            vr_details = Some (ev_reason evidence)\<rparr>)
         (\<lambda>message.
            if contains ''does not contain slashable'' message then
              ret \<lparr>vr_is_valid = True, vr_message = ''Block '' @ dec_string index @ '' is valid'',
                   vr_details = Some ''Block is valid''\<rparr>
            else ret \<lparr>vr_is_valid = False, vr_message = ''Block '' @ dec_string index @ '' validation failed'',
                      vr_details = Some message\<rparr>))"

record checkpoint_response =
  cq_finalized_height :: u64
  cq_block_hash :: string
  cq_state_root :: string

definition get_checkpoint :: "(node, checkpoint_response) exec" where
  "get_checkpoint =
     bindE (gets ns_chain) (\<lambda>chain.
     let local = unat (sat_sub (bc_finalized_height chain) (bc_base_height chain)) in
     bindE (if local < length (bc_blocks chain) then ret (bc_blocks chain ! local)
            else if bc_blocks chain = [] then lift (Inl Panic) else ret (bc_blocks chain ! 0)) (\<lambda>b.
     ret \<lparr>cq_finalized_height = bc_finalized_height chain, cq_block_hash = blk_hash b,
          cq_state_root = blk_state_root b\<rparr>))"

text \<open>The blocks another node asks for: at most a batch, whatever the request says.\<close>

definition get_p2p_blocks_from ::
  "'y auth_lib_scheme \<Rightarrow> world \<Rightarrow> string option \<Rightarrow> u64 \<Rightarrow> nat option \<Rightarrow> (node, block list option) exec" where
  "get_p2p_blocks_from A W supplied from_height limit_param =
     bindE (gets (\<lambda>s. authorize_p2p A (w_secs W) (ns_access s) supplied)) (\<lambda>authorized.
     if \<not> authorized then ret None
     else let limit = max 1 (min MAX_SYNC_BATCH (case limit_param of None \<Rightarrow> MAX_SYNC_BATCH | Some n \<Rightarrow> n)) in
       bindE (gets (\<lambda>s. blocks_from (ns_chain s) from_height (as_u64 limit))) (\<lambda>blocks. ret (Some blocks)))"

definition get_p2p_head ::
  "'y auth_lib_scheme \<Rightarrow> world \<Rightarrow> string option \<Rightarrow> (node, chain_head option) exec" where
  "get_p2p_head A W supplied =
     bindE (gets (\<lambda>s. authorize_p2p A (w_secs W) (ns_access s) supplied)) (\<lambda>authorized.
     if \<not> authorized then ret None
     else bindE (gets (\<lambda>s. head_of (ns_chain s))) (\<lambda>h. bindE (lift h) (\<lambda>head. ret (Some head))))"

definition get_p2p_chain ::
  "'y auth_lib_scheme \<Rightarrow> world \<Rightarrow> string option \<Rightarrow> (node, blockchain option) exec" where
  "get_p2p_chain A W supplied =
     bindE (gets (\<lambda>s. authorize_p2p A (w_secs W) (ns_access s) supplied)) (\<lambda>authorized.
     if \<not> authorized then ret None else bindE (gets ns_chain) (\<lambda>chain. ret (Some chain)))"

end
