(* ===== verification/Requests.thy ===== *)
theory Requests
  imports Operator
begin

text \<open>
  The requests users send (\<open>src/src/api/routes.rs\<close>): each handler checks its request, builds a
  transaction from it and queues it. Queries that compute something are here too.
\<close>


section \<open>Signed requests\<close>

text \<open>The fields every signed request carries.\<close>

record signed_fields =
  sf_nonce :: u64
  sf_public_key :: "string option"
  sf_signature :: "string option"
  sf_pq_public_key :: "string option"
  sf_pq_signature :: "string option"

definition with_signature :: "'z signed_fields_scheme \<Rightarrow> transaction \<Rightarrow> transaction" where
  "with_signature r tx =
     tx\<lparr>tx_nonce := sf_nonce r, tx_public_key := sf_public_key r, tx_signature := sf_signature r,
        tx_pq_public_key := sf_pq_public_key r, tx_pq_signature := sf_pq_signature r\<rparr>"

definition queue_reply :: "'x prims_scheme \<Rightarrow> world \<Rightarrow> transaction \<Rightarrow> string \<Rightarrow> (node, api_response) exec" where
  "queue_reply L W tx message =
     matchE (queue_transaction L W tx) (\<lambda>_. ret (success message)) (\<lambda>e. ret (failed e))"

record transfer_request = signed_fields +
  rt_from :: string
  rt_to :: string
  rt_amount :: u64

definition transfer_tx :: "world \<Rightarrow> transfer_request \<Rightarrow> transaction" where
  "transfer_tx W r =
     with_signature r (new_transaction (w_uuid W) (w_now W) (Some (rt_from r)) (rt_to r) (rt_amount r) Transfer)"

definition transfer_tokens :: "'x prims_scheme \<Rightarrow> world \<Rightarrow> transfer_request \<Rightarrow> (node, api_response) exec" where
  "transfer_tokens L W r =
     (if rt_amount r = 0 \<or> blank (rt_to r) then ret (failed ''Transfer requires a recipient and a non-zero amount'')
      else queue_reply L W (transfer_tx W r)
        (''Transfer of '' @ show_u64 (rt_amount r) @ '' from '' @ rt_from r @ '' to '' @ rt_to r
         @ '' queued; it executes when mined into a block''))"

record vest_request = transfer_request +
  rv_cliff_blocks :: u64
  rv_duration_blocks :: u64

definition vest_tx :: "world \<Rightarrow> vest_request \<Rightarrow> transaction" where
  "vest_tx W r =
     (with_signature r (new_transaction (w_uuid W) (w_now W) (Some (rt_from r)) (rt_to r) (rt_amount r) Vest))
       \<lparr>tx_vesting_cliff_blocks := Some (rv_cliff_blocks r), tx_vesting_duration_blocks := Some (rv_duration_blocks r)\<rparr>"

definition vest_tokens :: "'x prims_scheme \<Rightarrow> world \<Rightarrow> vest_request \<Rightarrow> (node, api_response) exec" where
  "vest_tokens L W r =
     (if rt_amount r = 0 \<or> blank (rt_to r) then ret (failed ''Vest requires a recipient and a non-zero amount'')
      else queue_reply L W (vest_tx W r)
        (''Vest of '' @ show_u64 (rt_amount r) @ '' from '' @ rt_from r @ '' to '' @ rt_to r @ '' queued (cliff ''
         @ show_u64 (rv_cliff_blocks r) @ '' blocks, full vest '' @ show_u64 (rv_duration_blocks r)
         @ '' blocks); it locks when mined into a block''))"


section \<open>Staking requests\<close>

record stake_request = signed_fields +
  rs_address :: string
  rs_amount :: u64
  rs_vrf_public_key :: "string option"

record stake_response =
  so_status :: string
  so_message :: string
  so_total_stake :: u64

definition stake_reply :: "'x prims_scheme \<Rightarrow> world \<Rightarrow> transaction \<Rightarrow> string \<Rightarrow> (node, stake_response) exec" where
  "stake_reply L W tx message =
     matchE (queue_transaction L W tx)
       (\<lambda>_. bindE (gets (\<lambda>s. balance_of (bc_state (ns_chain s)) STAKING_POOL_ACCOUNT)) (\<lambda>total_stake.
            ret \<lparr>so_status = ''success'', so_message = message, so_total_stake = total_stake\<rparr>))
       (\<lambda>e. ret \<lparr>so_status = ''error'', so_message = e, so_total_stake = 0\<rparr>)"

definition stake_tx :: "world \<Rightarrow> stake_request \<Rightarrow> transaction" where
  "stake_tx W r =
     (with_signature r
       (new_transaction (w_uuid W) (w_now W) (Some (rs_address r)) STAKING_POOL_ACCOUNT (rs_amount r) Stake))
       \<lparr>tx_vrf_public_key := rs_vrf_public_key r\<rparr>"

definition stake_tokens :: "'x prims_scheme \<Rightarrow> world \<Rightarrow> stake_request \<Rightarrow> (node, stake_response) exec" where
  "stake_tokens L W r =
     (if rs_amount r = 0 then
        ret \<lparr>so_status = ''error'', so_message = ''Stake amount must be greater than zero'', so_total_stake = 0\<rparr>
      else stake_reply L W (stake_tx W r)
        (''Stake of '' @ show_u64 (rs_amount r) @ '' for '' @ rs_address r
         @ '' queued; the validator activates when the transaction is mined into a block''))"

text \<open>A withdrawal carries no public key: the staker's registered key verifies it.\<close>

definition withdraw_tx :: "world \<Rightarrow> stake_request \<Rightarrow> transaction" where
  "withdraw_tx W r =
     (new_transaction (w_uuid W) (w_now W) (Some (rs_address r)) (rs_address r) (rs_amount r) Withdraw)
       \<lparr>tx_nonce := sf_nonce r, tx_signature := sf_signature r,
        tx_pq_public_key := sf_pq_public_key r, tx_pq_signature := sf_pq_signature r\<rparr>"

definition withdraw_stake :: "'x prims_scheme \<Rightarrow> world \<Rightarrow> stake_request \<Rightarrow> (node, stake_response) exec" where
  "withdraw_stake L W r =
     (if rs_amount r = 0 then
        ret \<lparr>so_status = ''error'', so_message = ''Withdraw amount must be greater than zero'', so_total_stake = 0\<rparr>
      else stake_reply L W (withdraw_tx W r)
        (''Withdrawal of '' @ show_u64 (rs_amount r) @ '' for '' @ rs_address r @ '' queued; once mined it unbonds for ''
         @ show_u64 UNBONDING_BLOCKS
         @ '' blocks                      (still slashable) before releasing to the balance''))"


section \<open>Token requests\<close>

record token_create_request = signed_fields +
  rc_creator :: string
  rc_symbol :: string
  rc_name :: string
  rc_decimals :: "32 word"
  rc_initial_supply :: u64

definition token_create_tx :: "world \<Rightarrow> token_create_request \<Rightarrow> transaction" where
  "token_create_tx W r =
     (with_signature r
       (new_transaction (w_uuid W) (w_now W) (Some (rc_creator r)) [] (rc_initial_supply r) TokenCreate))
       \<lparr>tx_token := Some \<lparr>ta_token_id = [], ta_symbol = rc_symbol r, ta_name = rc_name r,
                         ta_decimals = rc_decimals r\<rparr>\<rparr>"

definition create_token :: "'x prims_scheme \<Rightarrow> world \<Rightarrow> token_create_request \<Rightarrow> (node, api_response) exec" where
  "create_token L W r =
     (if blank (rc_symbol r) \<or> rc_initial_supply r = 0 then
        ret (failed ''Token requires a symbol and a non-zero initial supply'')
      else queue_reply L W (token_create_tx W r)
        (''Token '' @ rc_symbol r @ '' ('' @ rc_name r @ '') with supply '' @ show_u64 (rc_initial_supply r)
         @ '' queued; it is created when mined. token_id='' @ derive_token_id L (rc_creator r) (rc_symbol r) (sf_nonce r)))"

definition token_move :: "string \<Rightarrow> token_action" where
  "token_move token_id = \<lparr>ta_token_id = token_id, ta_symbol = [], ta_name = [], ta_decimals = 0\<rparr>"

record token_send_request = transfer_request +
  rd_token_id :: string

definition token_send_tx :: "world \<Rightarrow> token_send_request \<Rightarrow> transaction" where
  "token_send_tx W r =
     (with_signature r (new_transaction (w_uuid W) (w_now W) (Some (rt_from r)) (rt_to r) (rt_amount r) TokenTransfer))
       \<lparr>tx_token := Some (token_move (rd_token_id r))\<rparr>"

definition send_token :: "'x prims_scheme \<Rightarrow> world \<Rightarrow> token_send_request \<Rightarrow> (node, api_response) exec" where
  "send_token L W r =
     (if rt_amount r = 0 \<or> blank (rt_to r) \<or> blank (rd_token_id r) then
        ret (failed ''Token transfer requires token_id, recipient, and a non-zero amount'')
      else queue_reply L W (token_send_tx W r)
        (''Transfer of '' @ show_u64 (rt_amount r) @ '' '' @ rd_token_id r @ '' from '' @ rt_from r @ '' to '' @ rt_to r
         @ '' queued''))"

record token_burn_request = signed_fields +
  rb_token_id :: string
  rb_from :: string
  rb_amount :: u64

definition token_burn_tx :: "world \<Rightarrow> token_burn_request \<Rightarrow> transaction" where
  "token_burn_tx W r =
     (with_signature r (new_transaction (w_uuid W) (w_now W) (Some (rb_from r)) [] (rb_amount r) TokenBurn))
       \<lparr>tx_token := Some (token_move (rb_token_id r))\<rparr>"

definition burn_token :: "'x prims_scheme \<Rightarrow> world \<Rightarrow> token_burn_request \<Rightarrow> (node, api_response) exec" where
  "burn_token L W r =
     (if rb_amount r = 0 \<or> blank (rb_token_id r) then ret (failed ''Token burn requires token_id and a non-zero amount'')
      else queue_reply L W (token_burn_tx W r)
        (''Burn of '' @ show_u64 (rb_amount r) @ '' '' @ rb_token_id r @ '' by '' @ rb_from r @ '' queued''))"


section \<open>Pool requests\<close>

definition amm_of :: "string \<Rightarrow> amm_action" where
  "amm_of token_id =
     \<lparr>aa_token_id = token_id, aa_amount_hkm = 0, aa_amount_token = 0, aa_shares = 0, aa_amount_in = 0,
      aa_hkm_to_token = False, aa_min_shares = 0, aa_min_hkm = 0, aa_min_token = 0, aa_min_out = 0\<rparr>"

record pool_request = signed_fields +
  rp_token_id :: string
  rp_account :: string

definition pool_request_tx :: "world \<Rightarrow> 'z pool_request_scheme \<Rightarrow> transaction_type \<Rightarrow> amm_action \<Rightarrow> transaction" where
  "pool_request_tx W r kind action =
     (with_signature r (new_transaction (w_uuid W) (w_now W) (Some (rp_account r)) [] 0 kind))\<lparr>tx_amm := Some action\<rparr>"

record add_liquidity_request = pool_request +
  ra_amount_hkm :: u64
  ra_amount_token :: u64
  ra_min_shares :: u64

definition add_liquidity :: "'x prims_scheme \<Rightarrow> world \<Rightarrow> add_liquidity_request \<Rightarrow> (node, api_response) exec" where
  "add_liquidity L W r =
     (if ra_amount_hkm r = 0 \<or> ra_amount_token r = 0 \<or> blank (rp_token_id r) then
        ret (failed ''AddLiquidity requires token_id and non-zero HKM + token amounts'')
      else queue_reply L W
        (pool_request_tx W r AddLiquidity ((amm_of (rp_token_id r))\<lparr>aa_amount_hkm := ra_amount_hkm r,
           aa_amount_token := ra_amount_token r, aa_min_shares := ra_min_shares r\<rparr>))
        (''Add-liquidity to '' @ rp_token_id r @ '' queued ('' @ show_u64 (ra_amount_hkm r) @ '' HKM + ''
         @ show_u64 (ra_amount_token r) @ '' token, min '' @ show_u64 (ra_min_shares r) @ '' shares)''))"

record remove_liquidity_request = pool_request +
  rr_shares :: u64
  rr_min_hkm :: u64
  rr_min_token :: u64

definition remove_liquidity :: "'x prims_scheme \<Rightarrow> world \<Rightarrow> remove_liquidity_request \<Rightarrow> (node, api_response) exec" where
  "remove_liquidity L W r =
     (if rr_shares r = 0 \<or> blank (rp_token_id r) then
        ret (failed ''RemoveLiquidity requires token_id and a non-zero share amount'')
      else queue_reply L W
        (pool_request_tx W r RemoveLiquidity ((amm_of (rp_token_id r))\<lparr>aa_shares := rr_shares r,
           aa_min_hkm := rr_min_hkm r, aa_min_token := rr_min_token r\<rparr>))
        (''Remove-liquidity from '' @ rp_token_id r @ '' queued ('' @ show_u64 (rr_shares r) @ '' shares)''))"

record swap_request = pool_request +
  rw_hkm_to_token :: bool
  rw_amount_in :: u64
  rw_min_out :: u64

definition swap_tx :: "world \<Rightarrow> swap_request \<Rightarrow> transaction" where
  "swap_tx W r = pool_request_tx W r Swap ((amm_of (rp_token_id r))\<lparr>aa_amount_in := rw_amount_in r,
     aa_hkm_to_token := rw_hkm_to_token r, aa_min_out := rw_min_out r\<rparr>)"

definition swap :: "'x prims_scheme \<Rightarrow> world \<Rightarrow> swap_request \<Rightarrow> (node, api_response) exec" where
  "swap L W r =
     (if rw_amount_in r = 0 \<or> blank (rp_token_id r) then
        ret (failed ''Swap requires token_id and a non-zero input amount'')
      else queue_reply L W (swap_tx W r)
        (''Swap on '' @ rp_token_id r @ '' queued ('' @ show_u64 (rw_amount_in r) @ '' in, ''
         @ (if rw_hkm_to_token r then ''HKM->token'' else ''token->HKM'') @ '', min ''
         @ show_u64 (rw_min_out r) @ '' out)''))"


section \<open>Credentials and the faucet\<close>

record credential_request = signed_fields +
  rq_id :: string
  rq_subject :: string
  rq_data_hash :: string
  rq_issuer :: string

record credential_response =
  cv_status :: string
  cv_message :: string
  cv_credential :: "credential_record option"

definition credential_tx :: "world \<Rightarrow> credential_request \<Rightarrow> bool \<Rightarrow> transaction" where
  "credential_tx W r revoke =
     (with_signature r (new_transaction (w_uuid W) (w_now W) (Some (rq_issuer r)) (rq_subject r) 0 Certificate))
       \<lparr>tx_credential := Some \<lparr>ca_id = rq_id r, ca_subject = rq_subject r, ca_data_hash = rq_data_hash r,
                              ca_revoke = revoke\<rparr>\<rparr>"

definition queue_credential_action ::
  "'x prims_scheme \<Rightarrow> world \<Rightarrow> credential_request \<Rightarrow> bool \<Rightarrow> (node, credential_response) exec" where
  "queue_credential_action L W r revoke =
     matchE (queue_transaction L W (credential_tx W r revoke))
       (\<lambda>_. ret \<lparr>cv_status = ''success'',
          cv_message = ''Credential '' @ rq_id r @ '' '' @ (if revoke then ''revocation'' else ''issuance'')
            @ '' queued; it takes effect when mined into a block'', cv_credential = None\<rparr>)
       (\<lambda>e. ret \<lparr>cv_status = ''error'', cv_message = e, cv_credential = None\<rparr>)"

definition issue_credential :: "'x prims_scheme \<Rightarrow> world \<Rightarrow> credential_request \<Rightarrow> (node, credential_response) exec" where
  "issue_credential L W r = queue_credential_action L W r False"

definition revoke_credential :: "'x prims_scheme \<Rightarrow> world \<Rightarrow> credential_request \<Rightarrow> (node, credential_response) exec" where
  "revoke_credential L W r = queue_credential_action L W r True"

definition get_credential :: "string \<Rightarrow> (node, credential_response) exec" where
  "get_credential cred =
     bindE (gets (\<lambda>s. fmlookup (cs_credentials (bc_state (ns_chain s))) cred)) (\<lambda>found.
     ret (case found of
            Some record \<Rightarrow> \<lparr>cv_status = ''success'',
              cv_message = ''Credential '' @ cred @ (if cr_revoked record then '' is REVOKED'' else '' is valid''),
              cv_credential = Some record\<rparr>
          | None \<Rightarrow> \<lparr>cv_status = ''error'', cv_message = ''Credential '' @ cred @ '' not found'',
                     cv_credential = None\<rparr>))"

text \<open>The next nonce of an account, behind everything that is queued.\<close>

definition next_nonce :: "'x prims_scheme \<Rightarrow> string \<Rightarrow> (node, u64) exec" where
  "next_nonce L account =
     bindE (gets ns_chain) (\<lambda>chain.
     bindE (gets ns_pending) (\<lambda>pending.
     bindE (lift (next_index chain)) (\<lambda>next_height.
     bindE (lift (project_pending_state L (bc_state chain) pending next_height)) (\<lambda>projected.
     lift (add_u64 (nonce_of projected account) 1)))))"

text \<open>An account's next nonce behind the pool, and the fee it has to pay.\<close>

record nonce_state =
  nt_account :: string
  nt_next_nonce :: u64
  nt_base_fee :: u64

definition get_account_nonce :: "'x prims_scheme \<Rightarrow> string \<Rightarrow> (node, nonce_state) exec" where
  "get_account_nonce L account =
     bindE (next_nonce L account) (\<lambda>nonce.
     bindE (gets (\<lambda>s. cs_base_fee (bc_state (ns_chain s)))) (\<lambda>base_fee.
     ret \<lparr>nt_account = account, nt_next_nonce = nonce, nt_base_fee = base_fee\<rparr>))"

definition faucet_tx :: "world \<Rightarrow> local_validator_key \<Rightarrow> u64 \<Rightarrow> string \<Rightarrow> string \<Rightarrow> u64 \<Rightarrow> transaction" where
  "faucet_tx W treasury nonce signature to amount =
     (new_transaction (w_uuid W) (w_now W) (Some (lk_address treasury)) to amount Transfer)
       \<lparr>tx_nonce := nonce, tx_public_key := Some (lk_public_key treasury), tx_signature := Some signature\<rparr>"

definition faucet_tokens ::
  "'y auth_lib_scheme \<Rightarrow> 'x prims_scheme \<Rightarrow> world \<Rightarrow> string option \<Rightarrow> string \<Rightarrow> u64 \<Rightarrow> (node, api_response) exec" where
  "faucet_tokens A L W supplied to amount =
     bindE (gets (\<lambda>s. authorize_admin A (w_secs W) (ns_access s) supplied)) (\<lambda>authorized.
     if \<not> authorized then ret (failed ''Unauthorized: faucet requires the admin token'')
     else if amount = 0 \<or> blank to then ret (failed ''Faucet requires a recipient and a non-zero amount'')
     else bindE (gets ns_treasury_key) (\<lambda>treasury_key.
       case treasury_key of
         None \<Rightarrow> ret (failed ''Faucet disabled: this node holds no treasury key (set TREASURY_PRIVATE_KEY on dev networks)'')
       | Some treasury \<Rightarrow>
           bindE (next_nonce L (lk_address treasury)) (\<lambda>nonce.
           bindE (gets (\<lambda>s. cs_chain_id (bc_state (ns_chain s)))) (\<lambda>chain_id.
           let message = scoped_signing_message chain_id (transfer_signing_message (lk_address treasury) to amount nonce) in
           matchE (lift (sign_message L message (lk_private_key treasury)))
             (\<lambda>signature. queue_reply L W (faucet_tx W treasury nonce signature to amount)
                (''Faucet transfer of '' @ show_u64 amount @ '' to '' @ to @ '' queued; it executes when mined''))
             (\<lambda>e. ret (failed (''Failed to sign faucet transfer: '' @ e)))))))"


section \<open>Quotes and balances\<close>

text \<open>A product of two 128-bit numbers, with its overflow check.\<close>

definition mul_u128 :: "nat \<Rightarrow> nat \<Rightarrow> nat outcome" where
  "mul_u128 a b = (if a * b < 2 ^ 128 then Inr (a * b) else Inl Panic)"

definition add_u128 :: "nat \<Rightarrow> nat \<Rightarrow> nat outcome" where
  "add_u128 a b = (if a + b < 2 ^ 128 then Inr (a + b) else Inl Panic)"

definition quote_output :: "u64 \<Rightarrow> u64 \<Rightarrow> u64 \<Rightarrow> u64 outcome" where
  "quote_output reserve_in reserve_out amount_in =
     (let fee_num = AMM_FEE_DENOM - SWAP_FEE_BPS in
      bindR (mul_u128 (unat amount_in) (unat fee_num)) (\<lambda>amount_in_with_fee.
      bindR (mul_u128 amount_in_with_fee (unat reserve_out)) (\<lambda>numerator.
      bindR (mul_u128 (unat reserve_in) (unat AMM_FEE_DENOM)) (\<lambda>scaled.
      bindR (add_u128 scaled amount_in_with_fee) (\<lambda>denominator.
      bindR (div_or_panic numerator denominator) (\<lambda>out.
      Inr (as_u64 out)))))))"

record quote_response =
  qr_token_id :: string
  qr_hkm_to_token :: bool
  qr_amount_in :: u64
  qr_amount_out :: u64
  qr_reserve_hkm :: u64
  qr_reserve_token :: u64

definition swap_quote :: "string \<Rightarrow> string \<Rightarrow> u64 \<Rightarrow> (node, quote_response option) exec" where
  "swap_quote token_id direction amount_in =
     bindE (gets (\<lambda>s. fmlookup (cs_pools (bc_state (ns_chain s))) token_id)) (\<lambda>found.
     case found of None \<Rightarrow> ret None
     | Some pool \<Rightarrow>
         if pl_reserve_hkm pool = 0 \<or> pl_reserve_token pool = 0 \<or> amount_in = 0 then ret None
         else
           let hkm_to_token = (direction = ''hkm_to_token'' \<or> direction = ''buy'');
               (reserve_in, reserve_out) =
                 (if hkm_to_token then (pl_reserve_hkm pool, pl_reserve_token pool)
                  else (pl_reserve_token pool, pl_reserve_hkm pool)) in
           bindE (lift (quote_output reserve_in reserve_out amount_in)) (\<lambda>amount_out.
           ret (Some \<lparr>qr_token_id = token_id, qr_hkm_to_token = hkm_to_token, qr_amount_in = amount_in,
                      qr_amount_out = amount_out, qr_reserve_hkm = pl_reserve_hkm pool,
                      qr_reserve_token = pl_reserve_token pool\<rparr>)))"

definition locked_total :: "vesting_entry list \<Rightarrow> u64 outcome" where
  "locked_total entries =
     fold (\<lambda>e acc. bindR acc (\<lambda>n. bindR (sub_u64 (ve_total e) (ve_released e)) (\<lambda>left. add_u64 n left)))
       entries (Inr 0)"

record vesting_response =
  vs_address :: string
  vs_total_locked :: u64
  vs_entries :: "vesting_entry list"
  vs_current_height :: u64

definition get_vesting :: "string \<Rightarrow> (node, vesting_response) exec" where
  "get_vesting address =
     bindE (gets ns_chain) (\<lambda>chain.
     let entries = fmfind [] (cs_vesting (bc_state chain)) address in
     bindE (lift (locked_total entries)) (\<lambda>total_locked.
     bindE (lift (tip_index chain)) (\<lambda>current_height.
     ret \<lparr>vs_address = address, vs_total_locked = total_locked, vs_entries = entries,
          vs_current_height = current_height\<rparr>)))"

record unbonding_response =
  us_address :: string
  us_total_unbonding :: u64
  us_entries :: "unbonding_entry list"
  us_current_height :: u64

definition get_unbonding :: "string \<Rightarrow> (node, unbonding_response) exec" where
  "get_unbonding address =
     bindE (gets ns_chain) (\<lambda>chain.
     bindE (lift (unbonding_total (bc_state chain) address)) (\<lambda>total_unbonding.
     bindE (lift (tip_index chain)) (\<lambda>current_height.
     ret \<lparr>us_address = address, us_total_unbonding = total_unbonding,
          us_entries = fmfind [] (cs_unbonding (bc_state chain)) address,
          us_current_height = current_height\<rparr>)))"

end
