(* ===== verification/Boot.thy ===== *)
theory Boot
  imports Sync Requests
begin

text \<open>
  How a node starts (\<open>src/src/main.rs\<close>): its chain from the saved state, a bundle or a fresh genesis,
  the rest of its state, and
  the settings of its server and its syncer. \<open>env\<close> looks up an environment variable.
\<close>


section \<open>Reading the environment\<close>

definition nonempty :: "string option \<Rightarrow> string option" where
  "nonempty value = (case value of None \<Rightarrow> None | Some v \<Rightarrow> if v = [] then None else Some v)"

fun split_all :: "char \<Rightarrow> string \<Rightarrow> string list" where
  "split_all c [] = [[]]"
| "split_all c (x # xs) =
     (if x = c then [] # split_all c xs
      else case split_all c xs of [] \<Rightarrow> [[x]] | p # ps \<Rightarrow> (x # p) # ps)"

text \<open>A comma-separated list, trimmed, without its empty entries.\<close>

definition listed :: "string option \<Rightarrow> string list" where
  "listed value =
     filter (\<lambda>entry. entry \<noteq> []) (map trim (split_all CHR '','' (case value of None \<Rightarrow> [] | Some v \<Rightarrow> v)))"

definition ascii_lower :: "char \<Rightarrow> char" where
  "ascii_lower c = (if CHR ''A'' \<le> c \<and> c \<le> CHR ''Z'' then char_of (of_char c + 32 :: nat) else c)"

definition switched_on :: "string option \<Rightarrow> bool" where
  "switched_on value =
     (case value of None \<Rightarrow> False | Some v \<Rightarrow> v = ''1'' \<or> map ascii_lower v = ''true'')"

definition load_token_list :: "(string \<Rightarrow> string option) \<Rightarrow> string \<Rightarrow> string \<Rightarrow> string \<Rightarrow> string list" where
  "load_token_list env legacy_var current_var previous_var =
     fold (\<lambda>var tokens. case env var of None \<Rightarrow> tokens
             | Some value \<Rightarrow> if value \<noteq> [] \<and> value \<notin> set tokens then tokens @ [value] else tokens)
       [current_var, legacy_var, previous_var] []"


text \<open>\<open>trim_end_matches('/')\<close>.\<close>

definition trim_slashes :: "string \<Rightarrow> string" where
  "trim_slashes s = rev (dropWhile (\<lambda>c. c = CHR ''/'') (rev s))"


section \<open>The chain a node starts from\<close>

definition fresh_chain :: "'x node_lib_scheme \<Rightarrow> (string \<Rightarrow> string option) \<Rightarrow> u64 \<Rightarrow> blockchain outcome" where
  "fresh_chain L env difficulty =
     (let supply = (case Option.bind (env ''GENESIS_SUPPLY'') parse_u64 of None \<Rightarrow> DEFAULT_GENESIS_SUPPLY | Some n \<Rightarrow> n);
          vrf_key = nonempty (env ''GENESIS_VALIDATOR_VRF_PUBLIC_KEY'');
          pq_key = nonempty (env ''GENESIS_VALIDATOR_PQ_PUBLIC_KEY'');
          chain_id = (case nonempty (env ''GENESIS_CHAIN_ID'') of None \<Rightarrow> DEFAULT_CHAIN_ID | Some v \<Rightarrow> v);
          allowlist = listed (env ''GENESIS_VALIDATOR_ALLOWLIST'');
          require_hybrid = switched_on (env ''GENESIS_REQUIRE_HYBRID'')
      in case (nonempty (env ''GENESIS_TREASURY_ADDRESS''), nonempty (env ''GENESIS_VALIDATOR_PUBLIC_KEY'')) of
           (Some treasury, validator_key) \<Rightarrow>
             new_with_genesis_on_chain L chain_id difficulty treasury validator_key vrf_key supply allowlist
               require_hybrid pq_key
         | (None, Some validator_key) \<Rightarrow>
             (case derive_address L validator_key of
                Inl Panic \<Rightarrow> Inl Panic
              | r \<Rightarrow> new_with_genesis_on_chain L chain_id difficulty (case r of Inr a \<Rightarrow> a | Inl _ \<Rightarrow> [])
                       (Some validator_key) vrf_key supply allowlist require_hybrid pq_key)
         | (None, None) \<Rightarrow> new_dev_on_chain L chain_id difficulty allowlist)"

text \<open>\<open>bundle\<close> is the file named by \<open>HIKMALAYER_CHECKPOINT\<close>, when it could be read and parsed.\<close>

definition checkpoint_chain :: "'x node_lib_scheme \<Rightarrow> checkpoint_bundle option \<Rightarrow> (string, blockchain option) result" where
  "checkpoint_chain L bundle =
     (case bundle of None \<Rightarrow> Inr None
      | Some b \<Rightarrow> (case from_bundle L b of
                     Inr chain \<Rightarrow> Inr (Some chain)
                   | Inl (Err _) \<Rightarrow> Inr None
                   | Inl Panic \<Rightarrow> Inl Panic))"

text \<open>
  A saved chain wins over a bundle, a bundle over a fresh genesis; a chain that does not replay
  is dropped for a fresh genesis.
\<close>

definition boot_chain ::
  "'x node_lib_scheme \<Rightarrow> (string \<Rightarrow> string option) \<Rightarrow> checkpoint_bundle option \<Rightarrow> app_snapshot option
   \<Rightarrow> u64 \<Rightarrow> blockchain outcome" where
  "boot_chain L env bundle saved difficulty =
     bindR (case saved of
              Some snap \<Rightarrow> Inr (as_chain snap)
            | None \<Rightarrow> bindR (checkpoint_chain L bundle) (\<lambda>found.
                        case found of Some chain \<Rightarrow> Inr chain | None \<Rightarrow> fresh_chain L env difficulty)) (\<lambda>loaded.
     case rebuild_state L loaded of
       Inr chain \<Rightarrow> Inr chain
     | Inl (Err _) \<Rightarrow> fresh_chain L env difficulty
     | Inl Panic \<Rightarrow> Inl Panic)"


section \<open>The node\<close>

definition boot_peers :: "string list \<Rightarrow> string option \<Rightarrow> string list" where
  "boot_peers known bootnodes =
     (case bootnodes of None \<Rightarrow> known
      | Some value \<Rightarrow>
          fold (\<lambda>entry peers. let bootnode = trim entry in
                  if bootnode \<noteq> [] \<and> bootnode \<notin> set peers then peers @ [bootnode] else peers)
            (split_all CHR '','' value) known)"

definition boot_book :: "string option \<Rightarrow> peer_book" where
  "boot_book allowlist =
     (case nonempty allowlist of None \<Rightarrow> new_peer_book
      | Some _ \<Rightarrow> with_allow_list (fset_of_list (listed allowlist)))"

definition boot_key :: "'x prims_scheme \<Rightarrow> string option \<Rightarrow> local_validator_key option outcome" where
  "boot_key L private_key =
     (case nonempty private_key of None \<Rightarrow> Inr None
      | Some key \<Rightarrow> (case from_private_key L key of
                       Inr k \<Rightarrow> Inr (Some k)
                     | Inl (Err _) \<Rightarrow> Inr None
                     | Inl Panic \<Rightarrow> Inl Panic))"

definition boot_access :: "'x prims_scheme \<Rightarrow> (string \<Rightarrow> string option) \<Rightarrow> access_config" where
  "boot_access L env =
     \<lparr>ac_p2p_tokens = load_token_list env ''P2P_TOKEN'' ''P2P_TOKEN_CURRENT'' ''P2P_TOKEN_PREVIOUS'',
      ac_admin_tokens = load_token_list env ''ADMIN_TOKEN'' ''ADMIN_TOKEN_CURRENT'' ''ADMIN_TOKEN_PREVIOUS'',
      ac_admin_signing_key = signing_key_from_env L (env ''ADMIN_TOKEN_SIGNING_KEY''),
      ac_p2p_signing_key = signing_key_from_env L (env ''P2P_TOKEN_SIGNING_KEY''),
      ac_p2p_require_identity = switched_on (env ''P2P_REQUIRE_IDENTITY'')\<rparr>"

definition no_metrics :: metrics where
  "no_metrics = \<lparr>mt_blocks_mined = 0, mt_blocks_received = 0, mt_blocks_rejected = 0, mt_reorgs = 0,
     mt_transactions_received = 0, mt_peers_registered = 0, mt_slashes_submitted = 0, mt_gossip_sent = 0,
     mt_gossip_failed = 0, mt_protocol_messages_received = 0, mt_protocol_messages_rejected = 0,
     mt_peers_banned = 0, mt_invalid_from_peers = 0\<rparr>"

text \<open>The service panics when the node's identity key does not derive.\<close>

definition boot_service :: "'x prims_scheme \<Rightarrow> (string \<Rightarrow> string option) \<Rightarrow> access_config \<Rightarrow> p2p_service outcome" where
  "boot_service L env access =
     (case with_identity L (case env ''NODE_ID'' of None \<Rightarrow> ''node-local'' | Some v \<Rightarrow> v)
             (case ac_p2p_tokens access of [] \<Rightarrow> None | t # _ \<Rightarrow> Some t)
             (case nonempty (env ''NODE_PRIVATE_KEY'') of
                Some k \<Rightarrow> Some k | None \<Rightarrow> nonempty (env ''VALIDATOR_PRIVATE_KEY'')) of
        Inr service \<Rightarrow> Inr service
      | Inl _ \<Rightarrow> Inl Panic)"

definition boot ::
  "'x node_lib_scheme \<Rightarrow> (string \<Rightarrow> string option) \<Rightarrow> checkpoint_bundle option \<Rightarrow> app_snapshot option
   \<Rightarrow> (node \<times> p2p_service) outcome" where
  "boot L env bundle saved =
     bindR (boot_chain L env bundle saved 2) (\<lambda>chain.
     bindR (boot_key L (env ''VALIDATOR_PRIVATE_KEY'')) (\<lambda>validator_key.
     bindR (boot_key L (env ''TREASURY_PRIVATE_KEY'')) (\<lambda>treasury_key.
     let access = boot_access L env;
         governance = (case saved of None \<Rightarrow> default_governance | Some s \<Rightarrow> as_governance s) in
     bindR (boot_service L env access) (\<lambda>service.
     bindR (apply_finality (gc_finality_depth governance) chain) (\<lambda>chain1.
     Inr (\<lparr>ns_chain = chain1,
           ns_contracts = (case saved of None \<Rightarrow> fmempty | Some s \<Rightarrow> as_contracts s),
           ns_pending = (case saved of None \<Rightarrow> [] | Some s \<Rightarrow> as_pending_transactions s),
           ns_auth = new_auth_manager,
           ns_peers = boot_peers (case saved of None \<Rightarrow> [] | Some s \<Rightarrow> as_peers s) (env ''BOOTNODES''),
           ns_governance = governance,
           ns_evidence = (case saved of None \<Rightarrow> [] | Some s \<Rightarrow> as_slash_evidence s),
           ns_metrics = no_metrics, ns_seen = new_seen_cache 8192,
           ns_book = boot_book (env ''P2P_ALLOWLIST''), ns_access = access,
           ns_validator_key = validator_key, ns_treasury_key = treasury_key, ns_saved = saved,
           ns_tasks = []\<rparr>, service))))))"



section \<open>Serving and syncing\<close>

text \<open>The origins a browser may call from; \<open>header_value\<close> is the parser of the \<open>http\<close> crate.\<close>

definition DEFAULT_ORIGINS :: "string list" where
  "DEFAULT_ORIGINS = [''http://localhost:5173'', ''http://127.0.0.1:5173'', ''http://localhost:4173'', ''http://127.0.0.1:4173'']"

definition cors_origins :: "(string \<Rightarrow> 'h option) \<Rightarrow> string option \<Rightarrow> 'h list" where
  "cors_origins header_value configured =
     List.map_filter header_value
       (case configured of
          Some value \<Rightarrow> if blank value then DEFAULT_ORIGINS else listed (Some value)
        | None \<Rightarrow> DEFAULT_ORIGINS)"

text \<open>The port, and the address the node announces.\<close>

definition boot_port :: "string option \<Rightarrow> nat" where
  "boot_port port =
     (case Option.bind port parse_u64 of Some n \<Rightarrow> if n < 2 ^ 16 then unat n else 3000 | None \<Rightarrow> 3000)"

definition has_whitespace :: "string \<Rightarrow> bool" where
  "has_whitespace s \<longleftrightarrow> list_ex (\<lambda>i. 0 < ws_prefix (drop i s)) [0..<length s]"

definition announce_address :: "(string \<Rightarrow> string option) \<Rightarrow> nat \<Rightarrow> string option" where
  "announce_address env port =
     (case nonempty (map_option (trim_slashes \<circ> trim) (env ''P2P_PUBLIC_URL'')) of
        Some url \<Rightarrow> Some url
      | None \<Rightarrow>
          Option.bind (map_option trim (env ''NODE_ID'')) (\<lambda>node_id.
          if node_id \<noteq> [] \<and> node_id \<noteq> ''node-local'' \<and> \<not> has_whitespace node_id \<and> \<not> contains ''://'' node_id
          then Some (''http://'' @ node_id @ '':'' @ dec_string port) else None))"

definition sync_disabled :: "(string \<Rightarrow> string option) \<Rightarrow> bool" where
  "sync_disabled env = switched_on (env ''P2P_SYNC_DISABLED'')"

text \<open>The syncer the node starts, if any.\<close>

definition boot_sync :: "(string \<Rightarrow> string option) \<Rightarrow> sync_config option" where
  "boot_sync env =
     (if sync_disabled env then None
      else Some (sync_config_from_env (env ''P2P_SYNC_INTERVAL_SECONDS'') (announce_address env (boot_port (env ''PORT'')))))"

end
