(* ===== verification/Effects.thy ===== *)
theory Effects
  imports Boot
begin

text \<open>
  What a computation may do to the state it runs on: a relation between the states before and
  after, whatever the result. The rules are proved once for every reflexive and transitive
  relation and used for how the chain moves and for what the peer tables keep.
\<close>


section \<open>Relations every run respects\<close>

definition obeys :: "('s \<Rightarrow> 's \<Rightarrow> bool) \<Rightarrow> ('s, 'a) exec \<Rightarrow> bool" where
  "obeys R m \<longleftrightarrow> (\<forall>s. after R m s)"

lemma obeys_iff: "obeys R m \<longleftrightarrow> (\<forall>s. R s (snd (m s)))"
  by (simp add: obeys_def after_def)

context frame
begin

lemma quiet: "obeys R (ret x)" "obeys R (lift r)" "obeys R (gets f)"
  by (simp_all add: obeys_def)

lemma updating: "(\<And>s. R s (f s)) \<Longrightarrow> obeys R (modify f)"
  by (simp add: obeys_def after_modify)

lemma sequence: "obeys R m \<Longrightarrow> (\<And>x. obeys R (f x)) \<Longrightarrow> obeys R (bindE m f)"
  by (auto simp: obeys_def intro: after_bind)

lemma handled:
  assumes "obeys R m" "\<And>x. obeys R (f x)" "\<And>e. obeys R (g e)"
  shows "obeys R (matchE m f g)"
  unfolding obeys_iff
proof
  fix s
  obtain r t where m: "m s = (r, t)" by force
  then have "R s t" using assms(1) unfolding obeys_iff by (metis snd_conv)
  moreover have "R t (snd (f x t))" "R t (snd (g e t))" for x e using assms(2,3) unfolding obeys_iff by blast+
  ultimately show "R s (snd (matchE m f g s))"
    using m by (auto simp: matchE_def split: sum.split failure.split intro: trans)
qed

lemma branches:
  "(b \<Longrightarrow> obeys R m) \<Longrightarrow> (\<not> b \<Longrightarrow> obeys R m') \<Longrightarrow> obeys R (if b then m else m')"
  "obeys R m \<Longrightarrow> (\<And>x. obeys R (f x)) \<Longrightarrow> obeys R (case_option m f v)"
  "(\<And>x y. obeys R (h x y)) \<Longrightarrow> obeys R (case_prod h p)"
  "(\<And>x. obeys R (k x)) \<Longrightarrow> (\<And>y. obeys R (l y)) \<Longrightarrow> obeys R (case_sum k l z)"
  by (simp_all add: split: option.split prod.split sum.split)

lemma each: "(\<And>x. obeys R (step x)) \<Longrightarrow> obeys R (forE xs step)"
  by (induction xs) (auto intro: quiet sequence)

lemmas run_rules = quiet sequence handled branches each

end


section \<open>Sections of the node\<close>

text \<open>
  A relation on nodes that the sections holding the chain, the peer book and the seen cache
  respect, and that looks at nothing else, is respected by every handler.
\<close>

locale node_order = frame R for R :: "node \<Rightarrow> node \<Rightarrow> bool" +
  fixes L :: "'x net_lib_scheme"
  assumes elsewhere:
      "ns_chain t = ns_chain s \<Longrightarrow> ns_book t = ns_book s \<Longrightarrow> ns_seen t = ns_seen s \<Longrightarrow> R s t"
    and on_extend: "obeys R (extend_chain L W d b)"
    and on_consider: "obeys R (consider_chain L W d c)"
    and on_batch: "obeys R (apply_batch L W d bs)"
    and on_penalty: "obeys R (penalize_peer W n)"
    and on_reward: "obeys R (reward_peer n)"
    and on_seen: "obeys R (first_seen m)"
begin

lemma field:
  "(\<And>s. ns_chain (f s) = ns_chain s) \<Longrightarrow> (\<And>s. ns_book (f s) = ns_book s) \<Longrightarrow> (\<And>s. ns_seen (f s) = ns_seen s)
   \<Longrightarrow> obeys R (modify f)"
  by (intro updating elsewhere) simp_all

lemma on_bump: "obeys R (bump get put n)"
  unfolding bump_def by (intro run_rules field) simp_all

lemma on_spawn: "obeys R (spawn t)"
  unfolding spawn_def by (intro field) simp_all

lemma on_persist: "obeys R (persist_state W)"
  unfolding persist_state_def by (intro field) simp_all

lemma on_prune: "obeys R (prune_pending K bs)"
  unfolding prune_pending_def Let_def by (intro field) simp_all

lemma on_admit: "obeys R (admit K tx)" "obeys R (admit_gossip K tx)"
  unfolding admit_def admit_gossip_def Let_def by (intro run_rules field; simp)+

lemmas sections = on_extend on_consider on_batch on_penalty on_reward on_seen on_bump on_spawn on_persist
  on_prune on_admit

lemma on_queue: "obeys R (queue_transaction K W tx)"
  unfolding queue_transaction_def Let_def by (intro run_rules sections)

lemma on_mining: "obeys R (plan_mining K W key)" "obeys R (finish_mining L W d key plan prev b)"
  unfolding plan_mining_def finish_mining_def by (intro run_rules sections field; simp)+

lemma on_mine: "obeys R (mine L W now)"
proof -
  have "obeys R (case planned of Inl response \<Rightarrow> ret response
      | Inr (plan, index, previous_hash, difficulty) \<Rightarrow>
          (case build_block L now plan index previous_hash difficulty of
             Inl _ \<Rightarrow> ret (no_block ''error'' ''Mining task failed'')
           | Inr built \<Rightarrow> finish_mining L W d key plan previous_hash built))" for planned d key
    by (intro run_rules on_mining)
  then show ?thesis unfolding mine_def by (intro run_rules on_mining)
qed

lemma on_propose: "obeys R (propose_block K W v)"
  unfolding propose_block_def by (intro run_rules sections)

lemma on_submit: "obeys R (submit_block L W b)"
  unfolding submit_block_def by (intro run_rules sections)

lemma on_accept: "obeys R (accept_peer_block L W d b)"
  unfolding accept_peer_block_def by (intro run_rules sections)

lemma on_accepts: "obeys R (accept_blocks L W d bs n)"
  by (induction bs arbitrary: n) (simp_all add: run_rules on_accept)

lemma on_accept_batch: "obeys R (accept_batch L W bs)"
  unfolding accept_batch_def by (intro run_rules sections on_accepts)

lemma on_receive: "obeys R (receive_block A L W tok b)" "obeys R (receive_blocks A L W tok bs)"
  unfolding receive_block_def receive_blocks_def by (intro run_rules sections on_accept on_accept_batch)+

lemma on_adopt: "obeys R (adopt_from L W d c)" "obeys R (adopt_via_fork_choice L W d c)"
  unfolding adopt_from_def adopt_via_fork_choice_def prune_and_persist_def by (intro run_rules sections)+

lemma on_sync: "obeys R (sync_with_peers L W fetch)"
  unfolding sync_with_peers_def by (intro run_rules on_adopt)

lemma on_register: "obeys R (remember_peer W addr)" "obeys R (register_peer A W tok addr)"
proof -
  show remember: "obeys R (remember_peer W addr)" for W addr
    unfolding remember_peer_def by (intro run_rules sections field; simp)
  show "obeys R (register_peer A W tok addr)"
    unfolding register_peer_def by (intro run_rules remember)
qed

lemma on_reject: "obeys R (reject e)" "obeys R (misbehaved W n e)"
  unfolding reject_def misbehaved_def by (intro run_rules sections)+

lemma on_take_transaction: "obeys R (take_transaction K W n tx)"
  unfolding take_transaction_def by (intro run_rules sections on_reject)

lemma on_take_block: "obeys R (take_block L W n b)"
  unfolding take_block_def by (intro run_rules sections on_reject on_accept)

lemma on_payload: "obeys R (take_payload L W n payload)"
  unfolding take_payload_def take_announce_def
  by (cases payload) (simp_all add: run_rules on_take_transaction on_take_block on_accept_batch on_reject on_register)

lemma on_message: "obeys R (receive_protocol_message A L W tok e)"
  unfolding receive_protocol_message_def by (intro run_rules sections on_reject on_payload)

lemma on_gossip: "obeys R (gossip_blocks service sends bs)" "obeys R (gossip_transaction service sends')"
  unfolding gossip_blocks_def gossip_transaction_def count_gossip_def by (intro run_rules sections)+

end

end
