(* ===== verification/Peer_Rules.thy ===== *)
theory Peer_Rules
  imports Peers
begin

text \<open>
  What the tables about peers keep: scores within their range, bans for ten minutes after enough
  misbehaviour, and a cache of seen messages that never exceeds its capacity and remembers every
  message until that many newer ones have come.
\<close>


section \<open>Scores\<close>

lemmas peer_consts = INITIAL_SCORE_def BAN_THRESHOLD_def GOOD_DELTA_def BAD_DELTA_def SCORE_MIN_def SCORE_MAX_def

definition score_ok :: "peer_record \<Rightarrow> bool" where
  "score_ok r \<longleftrightarrow> SCORE_MIN \<le> pr_score r \<and> pr_score r \<le> SCORE_MAX"

definition book_ok :: "peer_book \<Rightarrow> bool" where
  "book_ok book \<longleftrightarrow> (\<forall>k r. fmlookup (pb_peers book) k = Some r \<longrightarrow> score_ok r)"

lemma new_book_ok: "book_ok new_peer_book" "book_ok (with_allow_list al)"
  by (simp_all add: book_ok_def new_peer_book_def with_allow_list_def)

lemma entry_ok: "book_ok book \<Longrightarrow> score_ok (peer_entry book n)"
  by (auto simp: book_ok_def peer_entry_def fmfind_def score_ok_def peer_consts split: option.split)

lemma record_good_book:
  "record_good n book = (Inr book' :: ('e, peer_book) result) \<Longrightarrow> book_ok book \<Longrightarrow> book_ok book'"
  using entry_ok [of book n]
  by (auto simp: record_good_def Let_def exec_ok book_ok_def score_ok_def peer_consts split: if_splits)

lemma record_bad_book:
  "record_bad now now' n book = (Inr (banned, book') :: ('e, bool \<times> peer_book) result) \<Longrightarrow> book_ok book \<Longrightarrow> book_ok book'"
  using entry_ok [of book n]
  by (auto simp: record_bad_def Let_def exec_ok book_ok_def score_ok_def peer_consts split: if_splits)


section \<open>Strikes\<close>

text \<open>What one report of misbehaviour does to the record it finds.\<close>

definition struck :: "u64 \<Rightarrow> peer_record \<Rightarrow> peer_record" where
  "struck now r =
     (let score = max (pr_score r - 4) (-50) in
      if score \<le> -10 \<and> pr_banned_until r \<le> now
      then r\<lparr>pr_bad := pr_bad r + 1, pr_score := -5, pr_banned_until := now + BAN_SECONDS\<rparr>
      else r\<lparr>pr_bad := pr_bad r + 1, pr_score := score\<rparr>)"

lemma record_bad_struck:
  assumes "unat (pr_bad (peer_entry book n)) < 2 ^ 64 - 1" "unat now + 600 < 2 ^ 64"
  shows "\<exists>banned. record_bad now now n book =
    (Inr (banned, book\<lparr>pb_peers := fmupd n (struck now (peer_entry book n)) (pb_peers book)\<rparr>) :: ('e, _) result)"
proof -
  have "add_u64 (pr_bad (peer_entry book n)) 1 = (Inr (pr_bad (peer_entry book n) + 1) :: ('e, u64) result)"
    "add_u64 now BAN_SECONDS = (Inr (now + BAN_SECONDS) :: ('e, u64) result)"
    using assms by (auto simp: exec_ok BAN_SECONDS_def)
  then show ?thesis
    by (cases "peer_entry book n") (auto simp: record_bad_def struck_def Let_def peer_consts)
qed

lemma entry_upd [simp]: "peer_entry (book\<lparr>pb_peers := fmupd n r (pb_peers book)\<rparr>) n = r"
  by (simp add: peer_entry_def)


section \<open>Seen messages\<close>

definition seen_ok :: "seen_cache \<Rightarrow> bool" where
  "seen_ok c \<longleftrightarrow> sc_seen c = fset_of_list (sc_order c) \<and> distinct (sc_order c)
     \<and> length (sc_order c) \<le> sc_capacity c \<and> 0 < sc_capacity c"

lemma new_seen_ok: "seen_ok (new_seen_cache n)"
  by (simp add: seen_ok_def new_seen_cache_def)

text \<open>The cache is a bounded queue: a new message goes in at the back and pushes the oldest out.\<close>

definition queued :: "string \<Rightarrow> seen_cache \<Rightarrow> string list" where
  "queued m c = (if length (sc_order c) = sc_capacity c then tl (sc_order c) else sc_order c) @ [m]"

definition caching :: "seen_cache \<Rightarrow> string list \<Rightarrow> seen_cache" where
  "caching c ms = c\<lparr>sc_seen := fset_of_list ms, sc_order := ms\<rparr>"

lemma seen_insert_queue:
  assumes "seen_ok c"
  shows "seen_insert m c =
    (if m \<in> set (sc_order c) then (False, c) else (True, caching c (queued m c)))"
proof (cases "m \<in> set (sc_order c)")
  case True
  then show ?thesis using assms by (simp add: seen_insert_def seen_ok_def fset_of_list.rep_eq)
next
  case False
  have drop: "fset_of_list (x # xs) |-| {|x|} = fset_of_list xs" if "x \<notin> set xs" for x and xs :: "string list"
    using that by (auto simp: fset_of_list.rep_eq)
  have "finsert m (fset_of_list xs) = fset_of_list (xs @ [m])" for xs by simp
  then show ?thesis
    using assms False drop
    by (cases "sc_order c")
       (auto simp: seen_insert_def seen_ok_def fset_of_list.rep_eq queued_def caching_def Let_def)
qed

lemma seen_insert_ok:
  assumes "seen_ok c"
  shows "seen_ok (snd (seen_insert m c)) \<and> sc_capacity (snd (seen_insert m c)) = sc_capacity c"
  using assms unfolding seen_insert_queue [OF assms]
  by (cases "sc_order c") (auto simp: seen_ok_def queued_def caching_def)

lemma seen_insert_capacity [simp]: "sc_capacity (snd (seen_insert m c)) = sc_capacity c"
  by (auto simp: seen_insert_def Let_def split: list.split)

definition insert_all :: "string list \<Rightarrow> seen_cache \<Rightarrow> seen_cache" where
  "insert_all ms c = fold (\<lambda>m c. snd (seen_insert m c)) ms c"

lemma insert_all_ok:
  "seen_ok c \<Longrightarrow> seen_ok (insert_all ms c) \<and> sc_capacity (insert_all ms c) = sc_capacity c"
  unfolding insert_all_def by (induction ms arbitrary: c) (simp_all add: seen_insert_ok)

text \<open>A message stays until as many newer ones have come as the cache holds.\<close>

lemma seen_for_long:
  assumes "seen_ok c" "sc_order c = us @ m # vs" "length vs + length ms < sc_capacity c"
  shows "m \<in> set (sc_order (insert_all ms c))"
  using assms
proof (induction ms arbitrary: c us vs)
  case Nil
  then show ?case by (simp add: insert_all_def)
next
  case (Cons x ms)
  let ?c = "snd (seen_insert x c)"
  have ok: "seen_ok ?c" "sc_capacity ?c = sc_capacity c" using seen_insert_ok [OF Cons.prems(1)] by auto
  have "\<exists>us' vs'. sc_order ?c = us' @ m # vs' \<and> length vs' \<le> Suc (length vs)"
  proof (cases "x \<in> set (sc_order c)")
    case True
    then have "sc_order ?c = us @ m # vs" using Cons.prems(1,2) by (simp add: seen_insert_queue)
    then show ?thesis by (metis le_SucI order_refl)
  next
    case False
    then have ord: "sc_order ?c = queued x c" using Cons.prems(1) by (simp add: seen_insert_queue caching_def)
    show ?thesis
    proof (cases us)
      case Nil
      then have "length (sc_order c) \<noteq> sc_capacity c" using Cons.prems(2,3) by simp
      then show ?thesis using ord Cons.prems(2) Nil
        by (intro exI [of _ "[]"] exI [of _ "vs @ [x]"]) (simp add: queued_def)
    next
      case (Cons u us')
      then show ?thesis using ord Cons.prems(2)
        by (intro exI [of _ "if length (sc_order c) = sc_capacity c then us' else us"] exI [of _ "vs @ [x]"])
           (simp add: queued_def)
    qed
  qed
  then obtain us' vs' where "sc_order ?c = us' @ m # vs'" "length vs' \<le> Suc (length vs)" by blast
  then have "m \<in> set (sc_order (insert_all ms ?c))"
    using Cons.IH [OF ok(1)] Cons.prems(3) ok(2) by simp
  then show ?case by (simp add: insert_all_def)
qed

lemma accepted_at_back: "seen_ok c \<Longrightarrow> seen_insert m c = (True, c') \<Longrightarrow> \<exists>us. sc_order c' = us @ [m]"
  by (auto simp: seen_insert_queue queued_def caching_def split: if_splits)

end
