(* ===== verification/Node_Runs.thy ===== *)
theory Node_Runs
  imports Effects Peer_Rules
begin

text \<open>
  The life of a node: any sequence of requests, messages, mining rounds and sync passes, in any
  order. Every one of them moves the chain only by validated blocks, adopted chains and finality
  updates, and keeps the peers' scores and the cache of seen messages within their bounds.
\<close>


section \<open>The remaining handlers\<close>

context node_order
begin

lemma on_discover: "obeys R (announce_and_discover N cfg)"
  unfolding announce_and_discover_def Let_def by (intro run_rules field; simp)

lemma on_download: "obeys R (download_batches fuel L W N peer batch d target n)"
  by (induction fuel arbitrary: n)
     (auto intro!: run_rules sections on_adopt simp: prune_and_persist_def split del: if_split)

lemma on_tick: "obeys R (catch_up L W N cfg)" "obeys R (tick L W N cfg)"
proof -
  show up: "obeys R (catch_up L W N cfg)"
    unfolding catch_up_def download_from_def by (intro run_rules on_download)
  show "obeys R (tick L W N cfg)"
    unfolding tick_def by (intro run_rules on_discover up)
qed

lemma on_certificates:
  "obeys R (issue_certificate A W tok i to d)" "obeys R (attest_certificate A W tok i)"
  unfolding issue_certificate_def attest_certificate_def by (intro run_rules sections field; simp)+

lemma on_governance: "obeys R (update_governance A W tok p d)"
  unfolding update_governance_def by (intro run_rules sections field; simp)

lemma on_equivocation: "obeys R (submit_equivocation K W p)"
  unfolding submit_equivocation_def Let_def by (intro run_rules sections on_queue)

lemma on_evidence: "obeys R (submit_slash_evidence A K W tok i rep)"
  unfolding submit_slash_evidence_def by (intro run_rules sections field; simp)

lemma on_reply:
  "obeys R (queue_reply K W tx m)" "obeys R (stake_reply K W tx m)"
  "obeys R (queue_credential_action K W r b)" "obeys R (next_nonce K a)"
  unfolding queue_reply_def stake_reply_def queue_credential_action_def next_nonce_def
  by (intro run_rules on_queue)+

lemma on_faucet: "obeys R (faucet_tokens A K W tok to amount)"
  unfolding faucet_tokens_def Let_def by (intro run_rules on_reply)

end


section \<open>Requests, messages and background work as events\<close>

text \<open>
  A block is mined in two sections with the work in between: \<open>FinishMining\<close> is the second, for
  whatever plan and block the first one and the mining led to. \<open>Adopt\<close> and \<open>Download\<close> are the
  sections of the syncers that hold the chain. All the ways to queue a transaction are \<open>Queue\<close>.
\<close>

datatype event =
    MineBlock int
  | FinishMining u64 local_validator_key block_plan string block
  | Submit block
  | ReceiveBlock "string option" block
  | ReceiveBlocks "string option" "block list"
  | Receive "string option" envelope
  | Register "string option" string
  | Queue transaction
  | Equivocation slash_proof
  | Evidence "string option" u64 string
  | Govern "string option" u64 u64
  | Issue "string option" string string string
  | Attest "string option" string
  | Faucet "string option" string u64
  | SyncPeers "string \<Rightarrow> blockchain option"
  | Adopt u64 "blockchain option"
  | Download u64 "block list"
  | Tick network sync_config
  | Gossip p2p_service "block \<Rightarrow> string \<Rightarrow> nat \<Rightarrow> bool" "block list"

definition quietly :: "(node, 'a) exec \<Rightarrow> node \<Rightarrow> node" where
  "quietly m s = snd (m s)"

fun perform :: "'y auth_lib_scheme \<Rightarrow> 'x net_lib_scheme \<Rightarrow> world \<Rightarrow> event \<Rightarrow> node \<Rightarrow> node" where
  "perform A L W (MineBlock now) = quietly (mine L W now)"
| "perform A L W (FinishMining d key plan prev b) = quietly (finish_mining L W d key plan prev b)"
| "perform A L W (Submit b) = quietly (submit_block L W b)"
| "perform A L W (ReceiveBlock tok b) = quietly (receive_block A L W tok b)"
| "perform A L W (ReceiveBlocks tok bs) = quietly (receive_blocks A L W tok bs)"
| "perform A L W (Receive tok e) = quietly (receive_protocol_message A L W tok e)"
| "perform A L W (Register tok addr) = quietly (register_peer A W tok addr)"
| "perform A L W (Queue tx) = quietly (queue_transaction L W tx)"
| "perform A L W (Equivocation p) = quietly (submit_equivocation L W p)"
| "perform A L W (Evidence tok i rep) = quietly (submit_slash_evidence A L W tok i rep)"
| "perform A L W (Govern tok p d) = quietly (update_governance A W tok p d)"
| "perform A L W (Issue tok i to txt) = quietly (issue_certificate A W tok i to txt)"
| "perform A L W (Attest tok i) = quietly (attest_certificate A W tok i)"
| "perform A L W (Faucet tok to amount) = quietly (faucet_tokens A L W tok to amount)"
| "perform A L W (SyncPeers fetch) = quietly (sync_with_peers L W fetch)"
| "perform A L W (Adopt d c) = quietly (adopt_via_fork_choice L W d c)"
| "perform A L W (Download d bs) = quietly (apply_batch L W d bs)"
| "perform A L W (Tick N cfg) = quietly (tick L W N cfg)"
| "perform A L W (Gossip service sends bs) = quietly (gossip_blocks service sends bs)"

fun serve :: "'y auth_lib_scheme \<Rightarrow> 'x net_lib_scheme \<Rightarrow> (world \<times> event) list \<Rightarrow> node \<Rightarrow> node" where
  "serve A L [] s = s"
| "serve A L ((W, e) # es) s = serve A L es (perform A L W e s)"

context node_order
begin

lemma quiet_step: "obeys R m \<Longrightarrow> R s (quietly m s)"
  by (simp add: obeys_iff quietly_def)

lemma on_perform: "R s (perform A L W e s)"
  by (cases e)
     (simp_all add: quiet_step on_mine on_mining on_submit on_receive on_message on_register on_queue
        on_equivocation on_evidence on_governance on_certificates on_faucet on_sync on_adopt on_batch
        on_tick on_gossip)

lemma on_serve: "R s (serve A L es s)"
proof (induction es arbitrary: s)
  case Nil
  show ?case by (simp add: refl)
next
  case (Cons x xs)
  obtain W e where "x = (W, e)" by force
  then show ?case using trans [OF on_perform Cons.IH] by simp
qed

end


section \<open>How the chain moves\<close>

lemma runs_trans: "runs L b c \<Longrightarrow> runs L a b \<Longrightarrow> runs L a c"
  by (induction rule: runs.induct) (auto intro: runs.intros)

definition chain_moves :: "'x net_lib_scheme \<Rightarrow> node \<Rightarrow> node \<Rightarrow> bool" where
  "chain_moves L s t \<longleftrightarrow> runs L (ns_chain s) (ns_chain t)"

lemma chain_stays [simp]: "chain_moves L s s"
  by (simp add: chain_moves_def runs.born)

lemma chain_moves_trans: "chain_moves L s t \<Longrightarrow> chain_moves L t u \<Longrightarrow> chain_moves L s u"
  unfolding chain_moves_def by (rule runs_trans)

interpretation moving: frame "chain_moves L" for L
  by unfold_locales (auto intro: chain_moves_trans)

lemma finalized_runs: "runs L c0 c \<Longrightarrow> apply_finality d c = (Inr c' :: blockchain outcome) \<Longrightarrow> runs L c0 c'"
  by (rule runs.finalize)

lemma extend_chain_moves: "obeys (chain_moves L) (extend_chain L W d b)"
  unfolding extend_chain_def obeys_iff
  by (auto simp: bindE_def lift_def gets_def modify_def chain_moves_def runs.born split: sum.split prod.split
        intro: finalized_runs [OF runs.extend [OF runs.born]])

lemma consider_chain_moves: "obeys (chain_moves L) (consider_chain L W d c)"
  unfolding consider_chain_def obeys_iff
  by (auto simp: bindE_def matchE_def lift_def gets_def modify_def ret_def chain_moves_def runs.born
        split: sum.split prod.split failure.split intro: finalized_runs [OF runs.adopt [OF runs.born]])

lemma apply_fetched_moves: "obeys (chain_moves L) (apply_fetched L W bs accepted)"
proof (induction bs arbitrary: accepted)
  case Nil
  show ?case by (simp add: obeys_iff)
next
  case (Cons b bs)
  have "chain_moves L s (snd (apply_fetched L W bs (accepted @ [b]) (s\<lparr>ns_chain := c\<rparr>)))"
    if "validate_block_candidate L (w_now W) (ns_chain s) b = Inr post"
      "commit_block L b post (ns_chain s) = (Inr c :: blockchain outcome)" for s post c
  proof -
    have "chain_moves L s (s\<lparr>ns_chain := c\<rparr>)" using that by (auto simp: chain_moves_def intro: runs.intros)
    then show ?thesis using Cons.IH chain_moves_trans unfolding obeys_iff by blast
  qed
  then show ?case
    by (auto simp: obeys_iff bindE_def matchE_def lift_def gets_def modify_def ret_def
        split: sum.split prod.split failure.split)
qed

lemma apply_batch_moves: "obeys (chain_moves L) (apply_batch L W d bs)"
proof -
  have "obeys (chain_moves L) (bindE (gets ns_chain) (\<lambda>chain. bindE (lift (apply_finality d chain))
      (\<lambda>chain1. modify (\<lambda>s. s\<lparr>ns_chain := chain1\<rparr>))))"
    by (auto simp: obeys_iff bindE_def lift_def gets_def modify_def chain_moves_def split: sum.split prod.split
        intro: runs.intros)
  then have "obeys (chain_moves L) (case x of (accepted, diverged) \<Rightarrow>
      bindE (if accepted = [] then ret ()
             else bindE (gets ns_chain) (\<lambda>chain. bindE (lift (apply_finality d chain))
                    (\<lambda>chain1. modify (\<lambda>s. s\<lparr>ns_chain := chain1\<rparr>)))) (\<lambda>_.
      ret (accepted, diverged)))" for x :: "block list \<times> bool"
    by (cases x) (simp add: moving.sequence moving.quiet)
  then show ?thesis unfolding apply_batch_def by (rule moving.sequence [OF apply_fetched_moves])
qed

lemma tables_moves: "obeys (chain_moves L) (penalize_peer W n)" "obeys (chain_moves L) (reward_peer n)"
  "obeys (chain_moves L) (first_seen m)"
proof -
  have aside: "obeys (chain_moves L) (modify f)" if "\<And>s. ns_chain (f s) = ns_chain s" for f
    using that by (simp add: obeys_iff chain_moves_def runs.born)
  note defs = penalize_peer_def reward_peer_def first_seen_def bump_def
  show "obeys (chain_moves L) (penalize_peer W n)" unfolding defs by (intro moving.run_rules aside) simp_all
  show "obeys (chain_moves L) (reward_peer n)" unfolding defs by (intro moving.run_rules aside) simp_all
  show "obeys (chain_moves L) (first_seen m)" unfolding defs by (intro moving.run_rules aside) simp_all
qed

interpretation moving: node_order "chain_moves L" L for L
  by unfold_locales
     (simp_all add: extend_chain_moves consider_chain_moves apply_batch_moves tables_moves chain_moves_def runs.born)


section \<open>What the tables keep\<close>

definition tables_ok :: "node \<Rightarrow> bool" where
  "tables_ok s \<longleftrightarrow> book_ok (ns_book s) \<and> seen_ok (ns_seen s)"

definition keeps_tables :: "node \<Rightarrow> node \<Rightarrow> bool" where
  "keeps_tables s t \<longleftrightarrow> (tables_ok s \<longrightarrow> tables_ok t) \<and> sc_capacity (ns_seen t) = sc_capacity (ns_seen s)"

interpretation keeping: frame keeps_tables
  by unfold_locales (auto simp: keeps_tables_def)

lemma keeps_aside:
  "(\<And>s. ns_book (f s) = ns_book s) \<Longrightarrow> (\<And>s. ns_seen (f s) = ns_seen s) \<Longrightarrow> obeys keeps_tables (modify f)"
  by (simp add: obeys_iff keeps_tables_def tables_ok_def)

lemma keeps_chain: "obeys keeps_tables (modify (\<lambda>s. s\<lparr>ns_chain := c\<rparr>))"
  by (rule keeps_aside) simp_all

lemma keeps_extend: "obeys keeps_tables (extend_chain L W d b)"
  unfolding extend_chain_def by (intro keeping.run_rules keeps_chain)

lemma keeps_consider: "obeys keeps_tables (consider_chain L W d c)"
  unfolding consider_chain_def by (intro keeping.run_rules keeps_chain)

lemma keeps_fetched: "obeys keeps_tables (apply_fetched L W bs accepted)"
  by (induction bs arbitrary: accepted) (auto intro!: keeping.run_rules keeps_chain simp del: ret_run)

lemma keeps_batch: "obeys keeps_tables (apply_batch L W d bs)"
  unfolding apply_batch_def by (intro keeping.run_rules keeps_chain keeps_fetched)

lemma keeps_bump: "obeys keeps_tables (bump get put n)"
  unfolding bump_def by (intro keeping.run_rules keeps_aside) simp_all

lemma keeps_reward: "obeys keeps_tables (reward_peer n)"
proof -
  have "obeys keeps_tables (bindE (gets ns_book) (\<lambda>book. bindE (lift (record_good n book))
      (\<lambda>book'. modify (\<lambda>s. s\<lparr>ns_book := book'\<rparr>))))"
    by (auto simp: obeys_iff bindE_def lift_def gets_def modify_def keeps_tables_def tables_ok_def
        split: sum.split dest: record_good_book)
  then show ?thesis unfolding reward_peer_def by (intro keeping.branches keeping.quiet)
qed

text \<open>The write of the book that a report of misbehaviour begins with.\<close>

definition report_peer :: "world \<Rightarrow> string \<Rightarrow> (node, bool) exec" where
  "report_peer W n =
     bindE (gets ns_book) (\<lambda>book.
     bindE (lift (record_bad (w_secs W) (w_secs W) n book)) (\<lambda>(banned, book').
     bindE (modify (\<lambda>s. s\<lparr>ns_book := book'\<rparr>)) (\<lambda>_. ret banned)))"

lemma keeps_report: "obeys keeps_tables (report_peer W n)"
  by (auto simp: report_peer_def obeys_iff bindE_def lift_def gets_def modify_def ret_def keeps_tables_def
      tables_ok_def split: sum.split prod.split dest: record_bad_book)

lemma penalize_report:
  "penalize_peer W n = (if blank n then ret () else
     bindE (report_peer W n) (\<lambda>banned.
     bindE (bump mt_invalid_from_peers mt_invalid_from_peers_update 1) (\<lambda>_.
     if banned then bump mt_peers_banned mt_peers_banned_update 1 else ret ())))"
  by (auto simp: penalize_peer_def report_peer_def bindE_def lift_def gets_def modify_def ret_def fun_eq_iff
      split: sum.split prod.split)

lemma keeps_penalty: "obeys keeps_tables (penalize_peer W n)"
  unfolding penalize_report by (intro keeping.run_rules keeps_report keeps_bump)

lemma first_seen_run:
  "first_seen m s = (Inr (fst (seen_insert m (ns_seen s))), s\<lparr>ns_seen := snd (seen_insert m (ns_seen s))\<rparr>)"
  by (simp add: first_seen_def split_beta)

lemma keeps_seen: "obeys keeps_tables (first_seen m)"
  by (simp add: obeys_iff first_seen_run keeps_tables_def tables_ok_def)
     (simp add: seen_insert_ok)

interpretation keeping: node_order keeps_tables L for L :: "'x net_lib_scheme"
  by unfold_locales
     (simp_all add: keeps_extend keeps_consider keeps_batch keeps_penalty keeps_reward keeps_seen
        keeps_tables_def tables_ok_def)


section \<open>A whole run\<close>

lemma serve_runs: "runs L (ns_chain s) (ns_chain (serve A L es s))"
  by (rule moving.on_serve [unfolded chain_moves_def])

lemma serve_keeps:
  assumes "tables_ok s"
  shows "tables_ok (serve A L es s)"
proof -
  have "keeps_tables s (serve A L es s)" by (rule keeping.on_serve)
  with assms show ?thesis by (simp add: keeps_tables_def)
qed


section \<open>Starting\<close>

lemma fresh_in_sync:
  assumes "fresh_chain L env d = Inr c"
  shows "in_sync L c"
  using assms new_chain_in_sync
  by (auto simp: fresh_chain_def new_dev_on_chain_def Let_def split: option.splits sum.splits failure.splits)

lemma boot_chain_in_sync:
  assumes "boot_chain L env bundle saved d = Inr c"
  shows "in_sync L c"
proof -
  obtain loaded where "(case rebuild_state L loaded of
      Inr chain \<Rightarrow> Inr chain | Inl (Err _) \<Rightarrow> fresh_chain L env d | Inl Panic \<Rightarrow> Inl Panic) = Inr c"
    using assms unfolding boot_chain_def bindR_ok by blast
  then have "rebuild_state L loaded = Inr c \<or> fresh_chain L env d = Inr c"
    by (cases "rebuild_state L loaded") (auto split: failure.splits)
  then show ?thesis using rebuild_state_in_sync fresh_in_sync by blast
qed

lemma finality_in_sync: "apply_finality d c = (Inr c' :: ('e, blockchain) result) \<Longrightarrow> in_sync L c \<Longrightarrow> in_sync L c'"
  by (auto simp: apply_finality_ok in_sync_def split: if_splits)

lemma boot_starts:
  assumes "boot L env bundle saved = Inr (s, service)"
  shows "in_sync L (ns_chain s) \<and> tables_ok s \<and> sc_capacity (ns_seen s) = 8192"
proof -
  obtain c d c' where "boot_chain L env bundle saved 2 = Inr c"
    "apply_finality d c = (Inr c' :: blockchain outcome)" "ns_chain s = c'"
    using assms by (auto simp: boot_def exec_ok Let_def)
  then have "in_sync L (ns_chain s)" using boot_chain_in_sync finality_in_sync by blast
  moreover have "ns_book s = boot_book (env ''P2P_ALLOWLIST'')" "ns_seen s = new_seen_cache 8192"
    using assms by (auto simp: boot_def exec_ok Let_def)
  ultimately show ?thesis
    using new_seen_ok [of 8192] new_book_ok
    by (auto simp: tables_ok_def boot_book_def new_seen_cache_def split: option.split)
qed

end
