(* ===== verification/Message_Rules.thy ===== *)
theory Message_Rules
  imports Node_Runs
begin

text \<open>
  What the protocol handler does with an envelope that does not pass its checks: the peer named in
  it is held responsible, whoever sent it.
\<close>


section \<open>A forged envelope\<close>

text \<open>Room for \<open>k\<close> more on the counters such an envelope moves.\<close>

definition room_for :: "nat \<Rightarrow> node \<Rightarrow> bool" where
  "room_for k s \<longleftrightarrow> unat (mt_invalid_from_peers (ns_metrics s)) + k < 2 ^ 64
     \<and> unat (mt_peers_banned (ns_metrics s)) + k < 2 ^ 64
     \<and> unat (mt_protocol_messages_rejected (ns_metrics s)) + k < 2 ^ 64"

lemma room_for_book [simp]: "room_for k (s\<lparr>ns_book := b, ns_metrics := m\<rparr>) = room_for k (s\<lparr>ns_metrics := m\<rparr>)"
  by (simp add: room_for_def)

lemma add_one_ok: "unat v + k < 2 ^ 64 \<Longrightarrow> 0 < k \<Longrightarrow> add_u64 v 1 = (Inr (v + 1) :: ('e, u64) result)"
  by (auto simp: exec_ok)

lemma unat_next: "unat (v :: u64) + k < 2 ^ 64 \<Longrightarrow> 0 < k \<Longrightarrow> unat (v + 1) = unat v + 1"
  by (subst unat_plus) simp_all

text \<open>The node after the book has been given a strike against \<open>n\<close>.\<close>

definition strike :: "u64 \<Rightarrow> string \<Rightarrow> peer_book \<Rightarrow> peer_book" where
  "strike now n book = book\<lparr>pb_peers := fmupd n (struck now (peer_entry book n)) (pb_peers book)\<rparr>"

lemma penalty_runs:
  assumes "\<not> blank n" "room_for (Suc k) s" "unat (pr_bad (peer_entry (ns_book s) n)) < 2 ^ 64 - 1"
    and "unat (w_secs W) + 600 < 2 ^ 64"
  shows "\<exists>m. penalize_peer W n s = (Inr (), s\<lparr>ns_book := strike (w_secs W) n (ns_book s), ns_metrics := m\<rparr>)
    \<and> room_for k (s\<lparr>ns_book := b, ns_metrics := m\<rparr>)
    \<and> mt_protocol_messages_rejected m = mt_protocol_messages_rejected (ns_metrics s)"
proof -
  obtain banned where r: "record_bad (w_secs W) (w_secs W) n (ns_book s)
      = (Inr (banned, strike (w_secs W) n (ns_book s)) :: _ outcome)"
    using record_bad_struck [OF assms(3,4)] by (auto simp: strike_def)
  have inv: "add_u64 (mt_invalid_from_peers (ns_metrics s)) 1 = (Inr (mt_invalid_from_peers (ns_metrics s) + 1) :: _ outcome)"
    and ban: "add_u64 (mt_peers_banned (ns_metrics s)) 1 = (Inr (mt_peers_banned (ns_metrics s) + 1) :: _ outcome)"
    using assms(2) add_one_ok [of "mt_invalid_from_peers (ns_metrics s)" "Suc k"]
      add_one_ok [of "mt_peers_banned (ns_metrics s)" "Suc k"]
    unfolding room_for_def by blast+
  have up: "unat (mt_invalid_from_peers (ns_metrics s) + 1) = unat (mt_invalid_from_peers (ns_metrics s)) + 1"
    "unat (mt_peers_banned (ns_metrics s) + 1) = unat (mt_peers_banned (ns_metrics s)) + 1"
    using assms(2) unat_next [of "mt_invalid_from_peers (ns_metrics s)" "Suc k"]
      unat_next [of "mt_peers_banned (ns_metrics s)" "Suc k"]
    unfolding room_for_def by blast+
  show ?thesis
  proof (cases banned)
    case True
    then show ?thesis
      using assms(1,2) r inv ban up by (auto simp: penalize_peer_def bump_def room_for_def)
  next
    case False
    then show ?thesis
      using assms(1,2) r inv up by (auto simp: penalize_peer_def bump_def room_for_def)
  qed
qed

text \<open>An envelope that fails its checks: a strike against the peer it names, and a refusal.\<close>

definition forged :: "'x net_lib_scheme \<Rightarrow> world \<Rightarrow> access_config \<Rightarrow> envelope \<Rightarrow> bool" where
  "forged L W access e \<longleftrightarrow>
     (case validate_with_identity L (w_now W) e 300 (ac_p2p_require_identity access) of
        Inl (Err _) \<Rightarrow> True | _ \<Rightarrow> False)"

lemma forged_strikes:
  assumes "authorize_p2p A (w_secs W) (ns_access s) tok" "forged L W (ns_access s) e" "\<not> blank (en_node_id e)"
    and "room_for (Suc k) s" "unat (pr_bad (peer_entry (ns_book s) (en_node_id e))) < 2 ^ 64 - 1"
    and "unat (w_secs W) + 600 < 2 ^ 64"
  shows "\<exists>m. perform A L W (Receive tok e) s
      = s\<lparr>ns_book := strike (w_secs W) (en_node_id e) (ns_book s), ns_metrics := m\<rparr>
    \<and> room_for k (s\<lparr>ns_book := b, ns_metrics := m\<rparr>)"
proof -
  let ?book = "strike (w_secs W) (en_node_id e) (ns_book s)"
  obtain m where p: "penalize_peer W (en_node_id e) s = (Inr (), s\<lparr>ns_book := ?book, ns_metrics := m\<rparr>)"
    and room: "room_for k (s\<lparr>ns_book := b, ns_metrics := m\<rparr>)"
    and rej: "mt_protocol_messages_rejected m = mt_protocol_messages_rejected (ns_metrics s)"
    using penalty_runs [OF assms(3-6), of b] by blast
  obtain msg where v: "validate_with_identity L (w_now W) e 300 (ac_p2p_require_identity (ns_access s)) = Inl (Err msg)"
    using assms(2) by (auto simp: forged_def split: sum.splits failure.splits)
  have up: "add_u64 (mt_protocol_messages_rejected m) 1 = (Inr (mt_protocol_messages_rejected m + 1) :: _ outcome)"
    "unat (mt_protocol_messages_rejected m + 1) = unat (mt_protocol_messages_rejected m) + 1"
    using assms(4) add_one_ok [of "mt_protocol_messages_rejected m" "Suc k"]
      unat_next [of "mt_protocol_messages_rejected m" "Suc k"] unfolding room_for_def rej by blast+
  let ?m = "m\<lparr>mt_protocol_messages_rejected := mt_protocol_messages_rejected m + 1\<rparr>"
  have "perform A L W (Receive tok e) s = s\<lparr>ns_book := ?book, ns_metrics := ?m\<rparr>"
    using assms(1) v p up(1)
    by (simp add: quietly_def receive_protocol_message_def matchE_def misbehaved_def reject_def bump_def)
  moreover have "room_for k (s\<lparr>ns_book := b, ns_metrics := ?m\<rparr>)"
    using room assms(4) up(2) rej by (simp add: room_for_def)
  ultimately show ?thesis by blast
qed


section \<open>Strikes add up\<close>

definition strikes :: "u64 list \<Rightarrow> string \<Rightarrow> peer_book \<Rightarrow> peer_book" where
  "strikes ts n book = fold (\<lambda>t. strike t n) ts book"

lemma strikes_simps [simp]:
  "strikes [] n book = book" "strikes (t # ts) n book = strikes ts n (strike t n book)"
  by (simp_all add: strikes_def)

lemma strike_entry [simp]: "peer_entry (strike now n book) n = struck now (peer_entry book n)"
  by (simp add: strike_def)

lemma strikes_entry: "peer_entry (strikes ts n book) n = fold struck ts (peer_entry book n)"
  by (induction ts arbitrary: book) simp_all

text \<open>
  Once banned, a peer stays so for ten minutes whatever is still reported of it; and a peer that is not
  banned is after enough strikes: four points each, down to ten below zero.
\<close>

lemma stays_banned:
  "until < pr_banned_until r \<Longrightarrow> \<forall>t\<in>set ts. until < t + BAN_SECONDS \<Longrightarrow> until < pr_banned_until (fold struck ts r)"
proof (induction ts arbitrary: r)
  case (Cons t ts)
  then have "until < pr_banned_until (struck t r)" by (simp add: struck_def Let_def)
  with Cons show ?case by simp
qed simp

lemma enough_strikes:
  assumes "\<forall>t\<in>set ts. pr_banned_until r \<le> t \<and> until < t + BAN_SECONDS"
    and "ts \<noteq> []" "pr_score r + 10 \<le> 4 * int (length ts)"
  shows "until < pr_banned_until (fold struck ts r)"
  using assms
proof (induction ts arbitrary: r)
  case (Cons t ts)
  show ?case
  proof (cases "pr_score r - 4 \<le> -10")
    case True
    then have "until < pr_banned_until (struck t r)" using Cons.prems(1) by (simp add: struck_def Let_def)
    then show ?thesis using Cons.prems(1) by (simp add: stays_banned)
  next
    case False
    then have "pr_banned_until (struck t r) = pr_banned_until r" "pr_score (struck t r) = pr_score r - 4"
      by (simp_all add: struck_def Let_def)
    moreover have "ts \<noteq> []" using False Cons.prems(3) by auto
    ultimately show ?thesis using Cons.IH [of "struck t r"] Cons.prems by simp
  qed
qed simp

lemma banned_after_strikes:
  assumes "\<forall>t\<in>set ts. pr_banned_until (peer_entry book n) \<le> t \<and> until < t + BAN_SECONDS"
    and "ts \<noteq> []" "pr_score (peer_entry book n) + 10 \<le> 4 * int (length ts)"
  shows "\<not> is_accepted until (strikes ts n book) n"
proof
  assume "is_accepted until (strikes ts n book) n"
  then have "pr_banned_until (peer_entry (strikes ts n book) n) \<le> until"
    by (auto simp: is_accepted_def peer_entry_def fmfind_def split: if_splits option.splits)
  then show False using enough_strikes [OF assms] by (simp add: strikes_entry)
qed

lemma pr_bad_struck: "unat (pr_bad r) + k < 2 ^ 64 \<Longrightarrow> 0 < k \<Longrightarrow> unat (pr_bad (struck now r)) = unat (pr_bad r) + 1"
  using unat_next [of "pr_bad r" k] by (simp add: struck_def Let_def)

text \<open>Forged envelopes, one after the other, whoever delivers them.\<close>

definition forges ::
  "'y auth_lib_scheme \<Rightarrow> 'x net_lib_scheme \<Rightarrow> access_config \<Rightarrow> string \<Rightarrow> world \<times> string option \<times> envelope \<Rightarrow> bool" where
  "forges A L access peer f \<longleftrightarrow>
     (case f of (W, tok, e) \<Rightarrow> authorize_p2p A (w_secs W) access tok \<and> forged L W access e \<and> en_node_id e = peer
        \<and> unat (w_secs W) + 600 < 2 ^ 64)"

definition delivered :: "world \<times> string option \<times> envelope \<Rightarrow> world \<times> event" where
  "delivered f = (case f of (W, tok, e) \<Rightarrow> (W, Receive tok e))"

lemma delivered_pair: "delivered (W, tok, e) = (W, Receive tok e)"
  by (simp add: delivered_def)

lemma forgeries_strike:
  assumes "list_all (forges A L (ns_access s) n) fs" "\<not> blank n" "room_for (length fs + k) s"
    and "unat (pr_bad (peer_entry (ns_book s) n)) + length fs < 2 ^ 64"
  shows "\<exists>m. serve A L (map delivered fs) s
      = s\<lparr>ns_book := strikes (map (\<lambda>f. w_secs (fst f)) fs) n (ns_book s), ns_metrics := m\<rparr>
    \<and> room_for k (s\<lparr>ns_metrics := m\<rparr>)"
  using assms
proof (induction fs arbitrary: s)
  case Nil
  then show ?case by (intro exI [of _ "ns_metrics s"]) simp
next
  case (Cons f fs)
  obtain W tok e where f: "f = (W, tok, e)" by (cases f)
  let ?book = "strike (w_secs W) n (ns_book s)"
  obtain m where run: "perform A L W (Receive tok e) s = s\<lparr>ns_book := ?book, ns_metrics := m\<rparr>"
    and room: "room_for (length fs + k) (s\<lparr>ns_book := ?book, ns_metrics := m\<rparr>)"
    using forged_strikes [of A W s tok L e "length fs + k" ?book] Cons.prems by (auto simp: f forges_def)
  let ?s = "s\<lparr>ns_book := ?book, ns_metrics := m\<rparr>"
  have "unat (pr_bad (peer_entry (ns_book ?s) n)) + length fs < 2 ^ 64"
    using Cons.prems(4) pr_bad_struck [of "peer_entry (ns_book s) n" "length (f # fs)" "w_secs W"] by simp
  then have later: "\<exists>m'. serve A L (map delivered fs) ?s
      = ?s\<lparr>ns_book := strikes (map (\<lambda>f. w_secs (fst f)) fs) n (ns_book ?s), ns_metrics := m'\<rparr>
    \<and> room_for k (?s\<lparr>ns_metrics := m'\<rparr>)"
    by (intro Cons.IH) (use Cons.prems(1,2) room in simp_all)
  have now: "serve A L (map delivered (f # fs)) s = serve A L (map delivered fs) ?s"
    by (simp add: f delivered_pair run del: perform.simps)
  show ?case unfolding now using later by (simp add: f)
qed

end
