(* ===== verification/Catchup.thy ===== *)
theory Catchup
  imports Node_Runs Operator Bundle
begin

text \<open>
  That the syncer works: a node that is behind a peer on the same history takes all of the peer's
  blocks, and its chain is then the peer's.
\<close>


section \<open>The next block of a valid chain\<close>

lemma same_network_trans: "same_network b c \<Longrightarrow> same_network b d \<Longrightarrow> same_network c d"
  by (simp add: same_network_def)

lemma same_network_validates:
  assumes "same_network c d"
  shows "validate_full L (c\<lparr>bc_blocks := bs\<rparr>) = validate_full L (d\<lparr>bc_blocks := bs\<rparr>)"
  using assms by (cases bs) (simp_all add: same_network_def validate_full_def replay_root_def genesis_state_def cong: option.case_cong)

text \<open>Two chains of one network that are in step: what the shorter one lacks validates on it.\<close>

lemma next_block_follows:
  assumes c: "in_sync L c" and d: "in_sync L d" and net: "same_network c d"
    and blocks: "bc_blocks d = bc_blocks c @ b # later"
    and recent: "blk_timestamp b \<le> now + seconds MAX_TIMESTAMP_SKEW_SECONDS"
    and room: "unat (bc_base_height d) + length (bc_blocks d) < 2 ^ 64" "length (bc_blocks d) < 2 ^ 63"
  shows "\<exists>t c'. validate_block_candidate L now c b = Inr t \<and> commit_block L b t c = (Inr c' :: blockchain outcome)
    \<and> bc_blocks c' = bc_blocks c @ [b] \<and> in_sync L c' \<and> same_network c' d"
proof -
  let ?base = "bc_base_height c" and ?n = "length (bc_blocks c)"
  have base: "bc_base_height d = ?base" using net by (simp add: same_network_def)
  obtain anchor rest root where ours: "bc_blocks c = anchor # rest" "replay_root L c anchor = Inr root"
    and r: "replay_blocks L ?base [anchor] root rest = Inr (bc_state c, bc_randomness c, bc_current_difficulty c)"
    using c by (auto simp: in_sync_def validate_full_ok)
  have "validate_full L (c\<lparr>bc_blocks := bc_blocks d\<rparr>) = Inr (bc_state d, bc_randomness d, bc_current_difficulty d)"
    using d same_network_validates [OF net, of L "bc_blocks d"] by (simp add: in_sync_def)
  then have "replay_blocks L ?base [anchor] root (rest @ b # later) = Inr (bc_state d, bc_randomness d, bc_current_difficulty d)"
    using ours blocks by (auto simp: validate_full_ok)
  then have "replay_blocks L ?base (bc_blocks c) (bc_state c, bc_randomness c, bc_current_difficulty c) (b # later)
      = Inr (bc_state d, bc_randomness d, bc_current_difficulty d)"
    using r ours(1) by (simp add: replay_blocks_append)
  then obtain t df where fits: "unat ?base + unat (as_u64 ?n) < 2 ^ 64"
    and valid: "validate_block_at L b (?base + as_u64 ?n) (blk_hash (last (bc_blocks c))) (bc_state c) (bc_randomness c)
      (blk_timestamp (last (bc_blocks c))) (bc_current_difficulty c) = Inr t"
    and rt: "retarget (bc_blocks c @ [b]) (?base + as_u64 ?n) ?base (bc_current_difficulty c)
      = (Inr df :: (nat \<times> block_error, u64) result)"
    unfolding replay_blocks_cons_ok by blast
  have ne: "bc_blocks c \<noteq> []" using ours by simp
  have v: "validate_block_candidate L now c b = Inr t"
    using recent ne fits valid by (auto simp: validate_block_candidate_ok next_index_def add_u64_ok latest_hash_def)
  let ?c1 = "c\<lparr>bc_blocks := bc_blocks c @ [b]\<rparr>"
  have len: "length (bc_blocks ?c1) < 2 ^ 63" "unat ?base + length (bc_blocks ?c1) < 2 ^ 64"
    using room blocks base by simp_all
  have n: "unat (as_u64 ?n) = ?n" using len(1) by (intro unat_as_u64_small) simp
  have "unat (?base + as_u64 ?n) = unat ?base + length (bc_blocks ?c1) - 1"
    using fits n by (simp add: unat_plus)
  then have tip: "tip_index ?c1 = (Inr (?base + as_u64 ?n) :: u64 outcome)"
    using len by (subst tip_index_ok) simp_all
  obtain c' where c': "commit_block L b t c = (Inr c' :: blockchain outcome)" "bc_blocks c' = bc_blocks c @ [b]"
    using tip retarget_cast [OF rt, where 'f = string] by (auto simp: commit_block_ok)
  have "in_sync L c'" using commit_in_sync [OF c v c'(1)] len(1) by simp
  moreover have "same_network c' d"
    using same_network_trans [OF runs_same_network [OF runs.extend [OF runs.born v c'(1)]] net] .
  ultimately show ?thesis using v c' by blast
qed


section \<open>One batch\<close>

lemma fetched_blocks_apply:
  assumes "in_sync L (ns_chain s)" "in_sync L d" "same_network (ns_chain s) d"
    and "bc_blocks d = bc_blocks (ns_chain s) @ bs @ later"
    and "\<forall>b\<in>set bs. blk_timestamp b \<le> w_now W + seconds MAX_TIMESTAMP_SKEW_SECONDS"
    and "unat (bc_base_height d) + length (bc_blocks d) < 2 ^ 64" "length (bc_blocks d) < 2 ^ 63"
  shows "\<exists>c'. apply_fetched L W bs acc s = (Inr (acc @ bs, False), s\<lparr>ns_chain := c'\<rparr>)
    \<and> bc_blocks c' = bc_blocks (ns_chain s) @ bs \<and> in_sync L c' \<and> same_network c' d"
  using assms
proof (induction bs arbitrary: s acc)
  case Nil
  then show ?case by (intro exI [of _ "ns_chain s"]) (simp add: ret_def)
next
  case (Cons b bs)
  obtain t c1 where b: "validate_block_candidate L (w_now W) (ns_chain s) b = Inr t"
    "commit_block L b t (ns_chain s) = (Inr c1 :: blockchain outcome)"
    "bc_blocks c1 = bc_blocks (ns_chain s) @ [b]" "in_sync L c1" "same_network c1 d"
    using next_block_follows [OF Cons.prems(1-3), of b "bs @ later" "w_now W"] Cons.prems(4-7) by auto
  obtain c' where "apply_fetched L W bs (acc @ [b]) (s\<lparr>ns_chain := c1\<rparr>)
      = (Inr ((acc @ [b]) @ bs, False), s\<lparr>ns_chain := c1\<rparr>\<lparr>ns_chain := c'\<rparr>)"
    "bc_blocks c' = bc_blocks c1 @ bs" "in_sync L c'" "same_network c' d"
    using Cons.IH [of "s\<lparr>ns_chain := c1\<rparr>" "acc @ [b]"] b(3-5) Cons.prems by auto
  with b show ?case by (intro exI [of _ c']) (simp add: matchE_def bindE_def lift_def gets_def modify_def)
qed

lemma finality_sets_height:
  "apply_finality depth c = (Inr c' :: ('e, blockchain) result) \<Longrightarrow> c' = c\<lparr>bc_finalized_height := bc_finalized_height c'\<rparr>"
  by (auto simp: apply_finality_ok split: if_splits)

lemma finality_moves:
  assumes "bc_blocks c \<noteq> []" "unat (bc_base_height c) + length (bc_blocks c) < 2 ^ 64" "length (bc_blocks c) < 2 ^ 63"
  shows "\<exists>c'. apply_finality depth c = (Inr c' :: blockchain outcome) \<and> bc_blocks c' = bc_blocks c"
proof -
  let ?t = "as_u64 (unat (bc_base_height c) + length (bc_blocks c) - 1)"
  have "unat ?t = unat (bc_base_height c) + length (bc_blocks c) - 1"
    using assms(2) by (intro unat_as_u64_small) simp
  then have "tip_index c = (Inr ?t :: u64 outcome)" using assms by (subst tip_index_ok) simp_all
  then show ?thesis using assms(1) by (auto simp: apply_finality_ok)
qed

lemma batch_applies:
  assumes "in_sync L (ns_chain s)" "in_sync L d" "same_network (ns_chain s) d"
    and "bc_blocks d = bc_blocks (ns_chain s) @ bs @ later"
    and "\<forall>b\<in>set bs. blk_timestamp b \<le> w_now W + seconds MAX_TIMESTAMP_SKEW_SECONDS"
    and room: "unat (bc_base_height d) + length (bc_blocks d) < 2 ^ 64" "length (bc_blocks d) < 2 ^ 63"
  shows "\<exists>c'. apply_batch L W depth bs s = (Inr (bs, False), s\<lparr>ns_chain := c'\<rparr>)
    \<and> bc_blocks c' = bc_blocks (ns_chain s) @ bs \<and> in_sync L c' \<and> same_network c' d"
proof -
  obtain c1 where c1: "apply_fetched L W bs [] s = (Inr (bs, False), s\<lparr>ns_chain := c1\<rparr>)"
    "bc_blocks c1 = bc_blocks (ns_chain s) @ bs" "in_sync L c1" "same_network c1 d"
    using fetched_blocks_apply [OF assms, of "[]"] by auto
  have "bc_base_height c1 = bc_base_height d" "bc_blocks c1 \<noteq> []"
    using c1(3,4) by (auto simp: same_network_def in_sync_def validate_full_ok)
  then obtain c' where c': "apply_finality depth c1 = (Inr c' :: blockchain outcome)" "bc_blocks c' = bc_blocks c1"
    using finality_moves [of c1 depth] c1(2) assms(4) room by auto
  have "same_network c' d"
    using same_network_trans [OF runs_same_network [OF runs.finalize [OF runs.born c'(1)]] c1(4)] .
  moreover have "in_sync L c'" by (rule finality_in_sync [OF c'(1) c1(3)])
  ultimately show ?thesis
  proof (cases "bs = []")
    case True
    then show ?thesis using c1 by (intro exI [of _ c1]) (simp add: apply_batch_def bindE_def ret_def)
  qed (use c1 c' in \<open>auto simp: apply_batch_def bindE_def ret_def lift_def gets_def modify_def\<close>)
qed

lemma prune_and_persist_run:
  "\<exists>s'. prune_and_persist L W bs s = (Inr (), s') \<and> ns_chain s' = ns_chain s"
  by (simp add: prune_and_persist_def prune_pending_def persist_state_def bindE_def modify_def Let_def)


section \<open>A pass\<close>

text \<open>What a peer that runs the same program and lets us in answers about its blocks and its head.\<close>

definition answers :: "'y auth_lib_scheme \<Rightarrow> world \<Rightarrow> string option \<Rightarrow> node \<Rightarrow> network \<Rightarrow> string \<Rightarrow> bool" where
  "answers A W token p N peer \<longleftrightarrow>
     (\<forall>from limit. fst (get_p2p_blocks_from A W token from (Some limit) p) = Inr (nw_blocks N peer from limit))
     \<and> fst (get_p2p_head A W token p) = Inr (nw_head N peer)"

definition served :: "nat \<Rightarrow> nat" where
  "served batch = max 1 (min MAX_SYNC_BATCH batch)"

lemma served_pos: "0 < served batch" "served batch \<le> 256"
  by (simp_all add: served_def MAX_SYNC_BATCH_def)

lemma answered_blocks:
  assumes "answers A W token p N peer" "nw_head N peer \<noteq> None"
  shows "nw_blocks N peer from limit = Some (blocks_from (ns_chain p) from (as_u64 (served limit)))"
proof -
  have "authorize_p2p A (w_secs W) (ns_access p) token"
    using assms by (auto simp: answers_def get_p2p_head_def bindE_def gets_def ret_def split: if_splits)
  moreover have "fst (get_p2p_blocks_from A W token from (Some limit) p) = Inr (nw_blocks N peer from limit)"
    using assms(1) by (simp add: answers_def)
  ultimately show ?thesis
    by (simp add: get_p2p_blocks_from_def served_def bindE_def gets_def ret_def Let_def)
qed

lemma answered_head:
  assumes "answers A W token p N peer" "nw_head N peer = Some head"
  shows "head_of (ns_chain p) = (Inr head :: chain_head outcome)"
  using assms
  by (auto simp: answers_def get_p2p_head_def bindE_def gets_def ret_def lift_def split: if_splits sum.splits)

lemma blocks_from_next:
  assumes "bc_blocks d = done_blocks @ rest" "unat (bc_base_height d) + length (bc_blocks d) < 2 ^ 64" "k \<le> 256"
  shows "blocks_from d (bc_base_height d + as_u64 (length done_blocks)) (as_u64 k) = take k rest"
proof -
  have n: "unat (as_u64 (length done_blocks)) = length done_blocks" "unat (as_u64 k) = k"
    using assms by (auto intro!: unat_as_u64_small)
  have le: "bc_base_height d \<le> bc_base_height d + as_u64 (length done_blocks)"
    using assms(1,2) n by (simp add: word_le_nat_alt unat_plus)
  then show ?thesis using assms(1) n by (auto simp: blocks_from_def dest: leD)
qed

text \<open>
  What the syncer relies on in whoever serves it the blocks of \<open>d\<close>: asked for the height after a prefix
  of them, it hands out the next ones, a fixed number at a time.
\<close>

locale block_source =
  fixes fetch :: "u64 \<Rightarrow> block list option" and d :: blockchain and chunk :: nat
  assumes chunk_pos: "0 < chunk"
    and serves: "bc_blocks d = before @ rest \<Longrightarrow> unat (bc_base_height d) + length (bc_blocks d) < 2 ^ 64
      \<Longrightarrow> fetch (bc_base_height d + as_u64 (length before)) = Some (take chunk rest)"
begin

lemma downloads_everything:
  assumes asks: "\<And>h. nw_blocks N peer h batch = fetch h"
    and d: "in_sync L d"
    and room: "unat (bc_base_height d) + length (bc_blocks d) < 2 ^ 64" "length (bc_blocks d) < 2 ^ 63"
    and target: "unat target = unat (bc_base_height d) + length (bc_blocks d) - 1"
    and "in_sync L (ns_chain s)" "same_network (ns_chain s) d" "bc_blocks d = bc_blocks (ns_chain s) @ rest"
    and "\<forall>b\<in>set rest. blk_timestamp b \<le> w_now W + seconds MAX_TIMESTAMP_SKEW_SECONDS"
    and "length rest \<le> fuel * chunk" "unat applied + length rest < 2 ^ 64"
  shows "\<exists>s'. download_batches fuel L W N peer batch depth target applied s
      = (Inr (progress (applied + as_u64 (length rest))), s')
    \<and> bc_blocks (ns_chain s') = bc_blocks d \<and> in_sync L (ns_chain s') \<and> same_network (ns_chain s') d"
  using assms(6-)
proof (induction fuel arbitrary: s rest applied)
  case 0
  then show ?case by (simp add: ret_def as_u64_def)
next
  case (Suc fuel)
  let ?c = "ns_chain s" let ?from = "bc_base_height d + as_u64 (length (bc_blocks ?c))"
  have base: "bc_base_height ?c = bc_base_height d" using Suc.prems(2) by (simp add: same_network_def)
  have n: "unat (as_u64 (length (bc_blocks ?c))) = length (bc_blocks ?c)"
    using Suc.prems(3) room by (intro unat_as_u64_small) simp
  have fits: "unat (bc_base_height d) + length (bc_blocks ?c) < 2 ^ 64" using room(1) Suc.prems(3) by simp
  then have start: "unat ?from = unat (bc_base_height d) + length (bc_blocks ?c)" by (simp add: unat_plus n)
  have nx: "next_index ?c = (Inr ?from :: u64 outcome)" using fits n base by (simp add: next_index_def add_u64_ok)
  have pos: "1 \<le> length (bc_blocks d)"
    using d by (cases "bc_blocks d") (simp_all add: in_sync_def validate_full_ok)
  show ?case
  proof (cases "rest = []")
    case True
    then have "target < ?from" using start target pos Suc.prems(3) by (simp add: word_less_nat_alt)
    then show ?thesis using True nx Suc.prems by (simp add: as_u64_def ret_def bindE_def gets_def lift_def)
  next
    case False
    let ?now = "take (chunk) rest" and ?later = "drop (chunk) rest"
    have below: "\<not> target < ?from" using start target False Suc.prems(3) by (cases rest) (simp_all add: word_less_nat_alt)
    have blocks: "nw_blocks N peer ?from batch = Some ?now"
      using asks serves [OF Suc.prems(3) room(1)] by simp
    have some: "?now \<noteq> []" using False chunk_pos by simp
    obtain c' where c': "apply_batch L W depth ?now s = (Inr (?now, False), s\<lparr>ns_chain := c'\<rparr>)"
      "bc_blocks c' = bc_blocks ?c @ ?now" "in_sync L c'" "same_network c' d"
      using batch_applies [OF Suc.prems(1) d Suc.prems(2), of ?now ?later W depth] Suc.prems(3,4) room
      by (auto dest: in_set_takeD)
    obtain s1 where s1: "prune_and_persist L W ?now (s\<lparr>ns_chain := c'\<rparr>) = (Inr (), s1)" "ns_chain s1 = c'"
      using prune_and_persist_run [of L W ?now "s\<lparr>ns_chain := c'\<rparr>"] by auto
    have taken: "length ?now + length ?later = length rest" by simp
    then have m: "unat (as_u64 (length ?now)) = length ?now" using Suc.prems(6) by (intro unat_as_u64_small) linarith
    then have sum: "unat (applied + as_u64 (length ?now)) = unat applied + length ?now"
      using taken Suc.prems(6) by (simp add: unat_plus)
    have added: "add_u64 applied (as_u64 (length ?now)) = (Inr (applied + as_u64 (length ?now)) :: u64 outcome)"
      using m taken Suc.prems(6) by (simp add: add_u64_ok)
    have "length ?later \<le> fuel * chunk" "unat (applied + as_u64 (length ?now)) + length ?later < 2 ^ 64"
      using Suc.prems(5,6) sum taken by simp_all
    moreover have "\<forall>b\<in>set ?later. blk_timestamp b \<le> w_now W + seconds MAX_TIMESTAMP_SKEW_SECONDS"
      using Suc.prems(4) by (auto dest: in_set_dropD)
    moreover have "bc_blocks d = bc_blocks (ns_chain s1) @ ?later" using s1(2) c'(2) Suc.prems(3) by simp
    ultimately obtain s' where s': "download_batches fuel L W N peer batch depth target (applied + as_u64 (length ?now)) s1
        = (Inr (progress (applied + as_u64 (length ?now) + as_u64 (length ?later))), s')"
      "bc_blocks (ns_chain s') = bc_blocks d" "in_sync L (ns_chain s')" "same_network (ns_chain s') d"
      using Suc.IH [of s1 ?later "applied + as_u64 (length ?now)"] c'(3,4) s1(2) by blast
    have total: "applied + as_u64 (length ?now) + as_u64 (length ?later) = applied + as_u64 (length rest)"
      unfolding taken [symmetric] by (simp add: as_u64_def)
    show ?thesis
      using nx below blocks some c'(1) s1(1) added s'(1) [unfolded total] s'(2-)
      by (intro exI [of _ s']) (simp add: bindE_def gets_def lift_def)
  qed
qed

end

text \<open>The node's own endpoint is such a source.\<close>

interpretation endpoint: block_source "\<lambda>h. Some (blocks_from d h (as_u64 (served n)))" d "served n" for d n
  by unfold_locales (simp_all add: served_pos blocks_from_next)

lemma best_head_offered:
  "best_head N ours peers best = Some (peer, head) \<Longrightarrow> best = Some (peer, head) \<or> nw_head N peer = Some head"
proof (induction peers arbitrary: best)
  case (Cons p peers)
  let ?best = "case nw_head N p of None \<Rightarrow> best
     | Some h \<Rightarrow> if on_network ours h \<and> (case best of None \<Rightarrow> True | Some (_, current) \<Rightarrow> ch_height current < ch_height h)
                 then Some (p, h) else best"
  have "best_head N ours peers ?best = Some (peer, head)" using Cons.prems by simp
  then have "?best = Some (peer, head) \<or> nw_head N peer = Some head" by (rule Cons.IH)
  then show ?case by (auto split: option.splits if_splits)
qed simp

lemma head_height:
  assumes "head_of c = (Inr head :: ('e, _) result)" "bc_blocks c \<noteq> []" "length (bc_blocks c) < 2 ^ 63"
  shows "unat (bc_base_height c) + length (bc_blocks c) < 2 ^ 64
    \<and> unat (ch_height head) = unat (bc_base_height c) + length (bc_blocks c) - 1"
proof -
  obtain t where "tip_index c = (Inr t :: ('e, _) result)" "ch_height head = t"
    using assms(1) unfolding head_of_def bindR_ok by auto
  then show ?thesis using tip_index_ok [OF assms(2,3), where 'e = 'e] by simp
qed

end
