(* ===== verification/Production.thy ===== *)
theory Production
  imports Handlers
begin

text \<open>
  Block production against block validation: what \<open>plan_block\<close>, the mining task and the seals put
  together is what \<open>validate_block_candidate\<close> accepts, as long as no transaction of the pool fails
  half way through (\<open>Poison\<close> has what happens when one does).
\<close>


section \<open>The pool\<close>

text \<open>
  Every transaction of the pool either does not verify, or applies, or fails without having written
  anything; rewards are not among those that apply.
\<close>

fun settles :: "'x prims_scheme \<Rightarrow> string \<Rightarrow> u64 \<Rightarrow> transaction list \<Rightarrow> chain_state \<Rightarrow> bool" where
  "settles L validator height [] s = True"
| "settles L validator height (tx # pending) s =
     (case verify_for_block L tx validator of
        Inl _ \<Rightarrow> settles L validator height pending s
      | Inr _ \<Rightarrow>
          (case apply_verified L tx height s of
             (Inl _, t) \<Rightarrow> t = s \<and> settles L validator height pending s
           | (Inr _, t) \<Rightarrow> tx_type tx \<noteq> Reward \<and> settles L validator height pending t))"

definition readable :: "'x node_lib_scheme \<Rightarrow> transaction \<Rightarrow> bool" where
  "readable L tx \<longleftrightarrow> tx_parse L (tx_print L tx) = Some tx"

lemma execute_transactions_append:
  "execute_transactions L v h (xs @ ys) st
   = bindR (execute_transactions L v h xs st) (execute_transactions L v h ys)"
proof (induction xs arbitrary: st)
  case (Cons x xs)
  have "execute_transactions L v h (xs @ ys)
      = (\<lambda>st. bindR (execute_transactions L v h xs st) (execute_transactions L v h ys))"
    by (rule ext) (rule Cons.IH)
  then show ?case by (simp add: bindR_assoc)
qed simp

lemma include_pending_executes:
  assumes "include_pending L v h pending (s, txs, ids) = (Inr (t, txs', ids') :: ('e, _) result)"
    and "settles L v h pending s" and "list_all (readable L) pending"
  shows "\<exists>more. txs' = txs @ more \<and> execute_transactions L v h more (s, k) = Inr (t, k)"
  using assms
proof (induction pending arbitrary: s txs ids)
  case Nil
  then show ?case by simp
next
  case (Cons tx pending)
  note IH = Cons.IH
  consider (full) "MAX_BLOCK_TXS \<le> length ids" | (refused) e where "\<not> MAX_BLOCK_TXS \<le> length ids" "verify_for_block L tx v = Inl e"
    | (runs) r u where "\<not> MAX_BLOCK_TXS \<le> length ids" "verify_for_block L tx v = Inr ()" "apply_verified L tx h s = (r, u)"
    by (cases "verify_for_block L tx v"; cases "apply_verified L tx h s") auto
  then show ?case
  proof cases
    case full
    with Cons.prems show ?thesis by simp
  next
    case refused
    with Cons.prems have "include_pending L v h pending (s, txs, ids) = (Inr (t, txs', ids') :: ('e, _) result)"
      by (cases e) auto
    with IH Cons.prems refused show ?thesis by auto
  next
    case runs
    show ?thesis
    proof (cases r)
      case (Inl e)
      with runs Cons.prems have "include_pending L v h pending (u, txs, ids) = (Inr (t, txs', ids') :: ('e, _) result)" "u = s"
        "settles L v h pending s"
        by (cases e; auto)+
      with IH Cons.prems(3) show ?thesis by auto
    next
      case (Inr x)
      with runs Cons.prems have "include_pending L v h pending (u, txs @ [tx_print L tx], ids @ [tx_id tx])
          = (Inr (t, txs', ids') :: ('e, _) result)" "tx_type tx \<noteq> Reward" "settles L v h pending u"
        by auto
      with IH Cons.prems(3) obtain more where more: "txs' = (txs @ [tx_print L tx]) @ more"
        "execute_transactions L v h more (u, k) = Inr (t, k)" by (metis list.pred_inject(2))
      moreover have "execute_transaction L v h (tx_print L tx) (s, k) = Inr (u, k)"
        using runs Inr Cons.prems(3) \<open>tx_type tx \<noteq> Reward\<close> by (simp add: execute_transaction_ok readable_def)
      ultimately show ?thesis by auto
    qed
  qed
qed


section \<open>The plan\<close>

lemma plan_block_ok:
  "plan_block L W chain pending producer = Inr plan \<longleftrightarrow>
     (\<exists>h v input key s1 txs ids s2 s3. next_index chain = (Inr h :: u64 outcome)
        \<and> plan_slot L (w_now W) chain producer = Inr (v, input)
        \<and> map_option si_public_key (fmlookup (cs_stakers (bc_state chain)) v) = Some key
        \<and> include_pending L v h pending (bc_state chain, [], []) = (Inr (s1, txs, ids) :: _ outcome)
        \<and> apply_verified L (new_reward (w_uuid W) (w_now W) v h) h s1 = (Inr (), s2)
        \<and> end_block h v s2 = (Inr (), s3)
        \<and> plan = \<lparr>bp_validator = v, bp_public_key = key, bp_slot_input = input,
             bp_transactions = txs @ [tx_print L (new_reward (w_uuid W) (w_now W) v h)],
             bp_state_root = state_root L s3, bp_included_ids = ids\<rparr>)"
  unfolding plan_block_def Let_def bindR_ok ok_or_ok
  by (auto simp: exec_ok split_beta prod_eq_iff)

lemma plan_blockE:
  assumes "plan_block L W chain pending producer = Inr plan" and "next_index chain = (Inr h :: u64 outcome)"
  obtains s1 txs ids s2 s3 where
    "include_pending L (bp_validator plan) h pending (bc_state chain, [], []) = (Inr (s1, txs, ids) :: _ outcome)"
    "apply_verified L (new_reward (w_uuid W) (w_now W) (bp_validator plan) h) h s1 = (Inr (), s2)"
    "end_block h (bp_validator plan) s2 = (Inr (), s3)"
    "bp_transactions plan = txs @ [tx_print L (new_reward (w_uuid W) (w_now W) (bp_validator plan) h)]"
    "bp_state_root plan = state_root L s3"
    "map_option si_public_key (fmlookup (cs_stakers (bc_state chain)) (bp_validator plan)) = Some (bp_public_key plan)"
    "plan_slot L (w_now W) chain producer = Inr (bp_validator plan, bp_slot_input plan)"
proof -
  obtain v input key s1 txs ids s2 s3 where
    "plan_slot L (w_now W) chain producer = Inr (v, input)"
    "map_option si_public_key (fmlookup (cs_stakers (bc_state chain)) v) = Some key"
    "include_pending L v h pending (bc_state chain, [], []) = (Inr (s1, txs, ids) :: _ outcome)"
    "apply_verified L (new_reward (w_uuid W) (w_now W) v h) h s1 = (Inr (), s2)"
    "end_block h v s2 = (Inr (), s3)"
    "plan = \<lparr>bp_validator = v, bp_public_key = key, bp_slot_input = input,
             bp_transactions = txs @ [tx_print L (new_reward (w_uuid W) (w_now W) v h)],
             bp_state_root = state_root L s3, bp_included_ids = ids\<rparr>"
    using assms unfolding plan_block_ok by auto
  then show thesis by (intro that [of s1 txs ids s2 s3]) simp_all
qed

lemma first_leader_open:
  assumes "first_leader L now chain = Inr (v, input)"
  shows "\<exists>r. eligible_slot_for L now chain v = (Inr (Some (r, input)) :: _ outcome)"
proof -
  obtain ls where ls: "open_leaders L now chain = (Inr ls :: _ outcome)"
    "(case ls of [] \<Rightarrow> None | (_, leader, input) # _ \<Rightarrow> Some (leader, input)) = Some (v, input)"
    using assms unfolding first_leader_def bindR_ok ok_or_ok by blast
  from ls(2) have "\<exists>r. (r, v, input) \<in> set ls" by (cases ls) auto
  with open_leaders_set [OF ls(1)] show ?thesis by blast
qed

lemma plan_slot_eligible:
  assumes "plan_slot L now chain producer = Inr (v, input)"
  shows "\<exists>r. eligible_slot_for L now chain v = (Inr (Some (r, input)) :: _ outcome)"
  using assms first_leader_open [of L now chain v input]
  by (auto simp: plan_slot_def exec_ok split: option.splits)

lemma reward_executes:
  assumes "readable L (new_reward uuid now v h)"
    and "apply_verified L (new_reward uuid now v h) h s = (Inr (), t)"
  shows "execute_transaction L v h (tx_print L (new_reward uuid now v h)) (s, 0) = Inr (t, 1)"
  using assms
  by (auto simp: execute_transaction_ok readable_def new_reward_def new_transaction_def verify_for_block_def
      verify_reward_def exec_ok)

lemma plan_executes:
  assumes plan: "plan_block L W chain pending producer = Inr plan"
    and h: "next_index chain = (Inr h :: u64 outcome)"
    and pool: "settles L (bp_validator plan) h pending (bc_state chain)"
    and rd: "list_all (readable L) (new_reward (w_uuid W) (w_now W) (bp_validator plan) h # pending)"
    and b: "blk_transactions b = bp_transactions plan" "blk_state_root b = bp_state_root plan" "blk_index b = h"
  shows "\<exists>t. execute_block L b (bp_validator plan) (bc_state chain) = Inr t"
proof -
  let ?v = "bp_validator plan" let ?reward = "new_reward (w_uuid W) (w_now W) ?v h"
  obtain s1 txs ids s2 s3 where
    inc: "include_pending L ?v h pending (bc_state chain, [], []) = (Inr (s1, txs, ids) :: _ outcome)"
    and rew: "apply_verified L ?reward h s1 = (Inr (), s2)" and fin: "end_block h ?v s2 = (Inr (), s3)"
    and p: "bp_transactions plan = txs @ [tx_print L ?reward]" "bp_state_root plan = state_root L s3"
    by (rule plan_blockE [OF plan h])
  obtain more where "txs = more" "execute_transactions L ?v h more (bc_state chain, 0) = Inr (s1, 0)"
    using include_pending_executes [OF inc pool, of 0] rd by auto
  then have "execute_transactions L ?v h (bp_transactions plan) (bc_state chain, 0) = Inr (s2, 1)"
    using reward_executes [OF _ rew] rd p(1) by (simp add: execute_transactions_append)
  then show ?thesis using fin p(2) b by (auto simp: execute_block_ok)
qed


section \<open>The rounds that are open\<close>

lemma find_slot_append:
  "find_slot L rnd h vs v rs = (Inr (Some x) :: ('e, _) result)
   \<Longrightarrow> find_slot L rnd h vs v (rs @ rs') = (Inr (Some x) :: ('e, _) result)"
  by (induction rs) (auto simp: Let_def bindR_ok split: if_splits)

lemma rounds_upto_prefix:
  assumes "q \<le> r"
  shows "\<exists>more. rounds_upto r = rounds_upto q @ more"
proof -
  have "[0..<unat r + 1] = [0..<unat q + 1] @ [unat q + 1..<unat r + 1]"
    using assms upt_add_eq_append [of 0 "unat q + 1" "unat r - unat q"] by (simp add: word_le_nat_alt)
  then show ?thesis by (simp add: rounds_upto_def del: upt_Suc)
qed

lemma num_seconds_nonneg: "0 \<le> n \<Longrightarrow> num_seconds n = n div 1000000000"
  by (simp add: num_seconds_def trunc_div_def)

text \<open>More rounds open as time passes; times within 10^28 nanoseconds cover every date the code has.\<close>

lemma open_rounds_mono:
  assumes "t \<le> t'" "t' - p < 10 ^ 28"
  shows "open_rounds p t \<le> open_rounds p t'"
proof (cases "num_seconds (t - p) \<le> 0")
  case True
  then show ?thesis by (simp add: open_rounds_def Let_def)
next
  case False
  then have pos: "0 \<le> t - p"
    by (cases "t - p \<ge> 0") (auto simp: num_seconds_def trunc_div_def split: if_splits)
  let ?e = "(t - p) div 1000000000" and ?f = "(t' - p) div 1000000000"
  have ef: "?e \<le> ?f" using zdiv_mono1 [of "t - p" "t' - p" 1000000000] assms(1) by linarith
  have e: "num_seconds (t - p) = ?e" "num_seconds (t' - p) = ?f"
    using pos assms(1) by (simp_all add: num_seconds_nonneg)
  have "?f < 10 ^ 20" using assms(2) by simp
  then have "?f div 30 < 2 ^ 64" by simp
  moreover have "?e div 30 \<le> ?f div 30" using zdiv_mono1 [OF ef, of 30] by simp
  moreover have "0 \<le> ?e div 30" using pos by (simp add: pos_imp_zdiv_nonneg_iff)
  ultimately have "(word_of_int (?e div 30) :: u64) \<le> word_of_int (?f div 30)"
    by (simp add: word_le_def uint_word_of_int)
  moreover have "0 < ?e" "0 < ?f" using False e(1) ef by simp_all
  ultimately show ?thesis
    unfolding open_rounds_def e Let_def SLOT_TIMEOUT_SECONDS_def by (auto simp: min_def)
qed

lemma eligible_later:
  assumes "eligible_slot_for L now c v = (Inr (Some (r, input)) :: ('e, _) result)"
    and "now \<le> blk_timestamp b" "blk_timestamp b - blk_timestamp (last (bc_blocks c)) < 10 ^ 28"
    and "next_index c = (Inr h :: u64 outcome)" "blk_index b = h"
  shows "check_slot L b v (bc_state c) (bc_randomness c) (blk_timestamp (last (bc_blocks c))) = Inr input"
proof -
  let ?p = "blk_timestamp (last (bc_blocks c))"
  have "find_slot L (bc_randomness c) h (validator_set (bc_state c)) v (rounds_upto (open_rounds ?p now))
      = (Inr (Some (r, input)) :: ('e, _) result)"
    using assms(1,4) by (auto simp: eligible_slot_for_ok next_index_def exec_ok)
  moreover obtain more where "rounds_upto (open_rounds ?p (blk_timestamp b)) = rounds_upto (open_rounds ?p now) @ more"
    using rounds_upto_prefix [OF open_rounds_mono [OF assms(2,3)]] by blast
  ultimately show ?thesis
    unfolding check_slot_find [where 'e = 'e] using find_slot_append assms(5) by metis
qed


section \<open>The sealed block\<close>

text \<open>What sealing adds to a block.\<close>

definition with_seals :: "block \<Rightarrow> string \<Rightarrow> string \<Rightarrow> string \<Rightarrow> string option \<Rightarrow> block" where
  "with_seals built out prf sg pq = built\<lparr>blk_vrf_output := Some out, blk_vrf_proof := Some prf,
     blk_validator_signature := Some sg,
     blk_validator_pq_signature := (case pq of None \<Rightarrow> blk_validator_pq_signature built | Some q \<Rightarrow> Some q)\<rparr>"

lemma with_seals_keeps [simp]:
  "blk_index (with_seals b out prf sg pq) = blk_index b" "blk_timestamp (with_seals b out prf sg pq) = blk_timestamp b"
  "blk_difficulty (with_seals b out prf sg pq) = blk_difficulty b"
  "blk_transactions (with_seals b out prf sg pq) = blk_transactions b"
  "blk_state_root (with_seals b out prf sg pq) = blk_state_root b"
  "blk_previous_hash (with_seals b out prf sg pq) = blk_previous_hash b"
  "blk_hash (with_seals b out prf sg pq) = blk_hash b" "blk_validator (with_seals b out prf sg pq) = blk_validator b"
  "blk_validator_public_key (with_seals b out prf sg pq) = blk_validator_public_key b"
  "blk_validator_signature (with_seals b out prf sg pq) = Some sg"
  "blk_merkle_root (with_seals b out prf sg pq) = blk_merkle_root b"
  "blk_nonce (with_seals b out prf sg pq) = blk_nonce b"
  "blk_vrf_output (with_seals b out prf sg pq) = Some out" "blk_vrf_proof (with_seals b out prf sg pq) = Some prf"
  "blk_validator_pq_signature (with_seals b out prf sg pq)
     = (case pq of None \<Rightarrow> blk_validator_pq_signature b | Some q \<Rightarrow> Some q)"
  by (simp_all add: with_seals_def)

lemma with_seals_valid [simp]:
  "has_valid_pow L (with_seals b out prf sg pq) = has_valid_pow L b"
  "has_valid_merkle_root L (with_seals b out prf sg pq) = has_valid_merkle_root L b"
  by (simp_all add: has_valid_pow_def has_valid_merkle_root_def calculate_hash_def)

definition needs_pq :: "chain_state \<Rightarrow> string \<Rightarrow> bool" where
  "needs_pq s v = (case fmlookup (cs_stakers s) v of None \<Rightarrow> False | Some i \<Rightarrow> si_pq_public_key i \<noteq> [])"

lemma seal_blockE:
  assumes "seal_block L key plan s built = Inr b"
  obtains out pr sg pq where "vrf_prove L (bp_slot_input plan) (lk_private_key key) = Inr (out, pr)"
    "sign_block_hash L (blk_hash built) (lk_private_key key) = Inr sg"
    "if needs_pq s (bp_validator plan)
     then \<exists>q. pq_sign_block_hash L (blk_hash built) (lk_private_key key) = Inr q \<and> pq = Some q else pq = None"
    "b = with_seals built out pr sg pq"
proof -
  obtain out pr sg where v: "vrf_prove L (bp_slot_input plan) (lk_private_key key) = Inr (out, pr)"
      "sign_block_hash L (blk_hash built) (lk_private_key key) = Inr sg"
    using assms unfolding seal_block_def bindR_ok map_err_ok Let_def split_paired_Ex prod.case
    by (auto simp: bindR_ok)
  show thesis
  proof (cases "needs_pq s (bp_validator plan)")
    case True
    then obtain q where "pq_sign_block_hash L (blk_hash built) (lk_private_key key) = Inr q"
      "b = with_seals built out pr sg (Some q)"
      using assms v by (auto simp: seal_block_def Let_def needs_pq_def with_seals_def bindR_ok map_err_ok)
    with that [OF v, of "Some q"] True show thesis by auto
  next
    case False
    then have "b = with_seals built out pr sg None"
      using assms v by (cases built) (auto simp: seal_block_def Let_def needs_pq_def with_seals_def)
    with that [OF v, of None] False show thesis by auto
  qed
qed

text \<open>
  The keys of a validator belong together: what its private key signs verifies under the keys it
  has registered. This is what the signature libraries promise, at one block hash and one slot.
\<close>

definition keys_match :: "'x prims_scheme \<Rightarrow> string \<Rightarrow> stake_info \<Rightarrow> string \<Rightarrow> string \<Rightarrow> bool" where
  "keys_match L private_key info hash slot \<longleftrightarrow>
     (case sign_block_hash L hash private_key of
        Inr sg \<Rightarrow> verify_block_signature L hash (si_public_key info) sg | Inl _ \<Rightarrow> True)
     \<and> (case vrf_prove L slot private_key of
          Inr (out, proof) \<Rightarrow> vrf_verify L slot (si_vrf_public_key info) out proof | Inl _ \<Rightarrow> True)
     \<and> (case pq_sign_block_hash L hash private_key of
          Inr sg \<Rightarrow> si_pq_public_key info \<noteq> [] \<longrightarrow> pq_verify_block_signature L hash (si_pq_public_key info) sg
        | Inl _ \<Rightarrow> True)"

lemma sealed_block_checks:
  assumes seal: "seal_block L key plan s built = Inr b"
    and st: "fmlookup (cs_stakers s) (bp_validator plan) = Some info" "si_public_key info = bp_public_key plan"
      "si_vrf_public_key info \<noteq> []"
    and keys: "keys_match L (lk_private_key key) info (blk_hash built) (bp_slot_input plan)"
    and built: "blk_validator_public_key built = Some (bp_public_key plan)" "blk_validator_pq_signature built = None"
  shows "check_seal L b (bp_validator plan) s (bp_slot_input plan) = Inr ()"
proof -
  obtain out pr sg pq where v: "vrf_prove L (bp_slot_input plan) (lk_private_key key) = Inr (out, pr)"
    and g: "sign_block_hash L (blk_hash built) (lk_private_key key) = Inr sg"
    and q: "if needs_pq s (bp_validator plan)
     then \<exists>q. pq_sign_block_hash L (blk_hash built) (lk_private_key key) = Inr q \<and> pq = Some q else pq = None"
    and b: "b = with_seals built out pr sg pq"
    using seal_blockE [OF seal] .
  have n: "needs_pq s (bp_validator plan) \<longleftrightarrow> si_pq_public_key info \<noteq> []" using st(1) by (simp add: needs_pq_def)
  show ?thesis
    unfolding check_seal_ok b using st keys built v g q unfolding n by (auto simp: keys_match_def)
qed


section \<open>Nonces at the end of a block\<close>

text \<open>A block's end spends no nonces, and neither does a reward.\<close>

definition same_nonces :: "chain_state \<Rightarrow> chain_state \<Rightarrow> bool" where
  "same_nonces s t \<longleftrightarrow> cs_nonces t = cs_nonces s"

interpretation calm: frame same_nonces
  by unfold_locales (simp_all add: same_nonces_def)

lemma calm_credits [intro!]: "after same_nonces (debit a n) s" "after same_nonces (credit a n) s"
  "after same_nonces (pay_from_pool p a n) s"
proof -
  show d: "after same_nonces (debit a n) s" for a n s
    by (auto simp: debit_def same_nonces_def intro!: calm.after_bind calm.after_modify)
  show c: "after same_nonces (credit a n) s" for a n s
    by (auto simp: credit_def try_credit_def same_nonces_def intro!: calm.after_bind calm.after_modify)
  show "after same_nonces (pay_from_pool p a n) s"
    by (auto simp: pay_from_pool_def intro!: calm.after_bind calm.after_ignoring d c)
qed

lemma calm_releases [intro!]: "after same_nonces (release_unbonding h a) s" "after same_nonces (release_vested h a) s"
proof -
  have "after same_nonces (drop_matured h a) s" for s
    by (auto simp: drop_matured_def same_nonces_def Let_def intro!: calm.after_bind calm.after_modify split: option.split)
  moreover have "after same_nonces (accrue_account h a) s" for s
    by (auto simp: accrue_account_def same_nonces_def Let_def intro!: calm.after_bind calm.after_modify
        split: option.split prod.split)
  moreover have "after same_nonces (modify (remove_exited a)) s" for s
    by (rule calm.after_modify) (simp add: same_nonces_def remove_exited_def)
  ultimately show "after same_nonces (release_unbonding h a) s" "after same_nonces (release_vested h a) s"
    unfolding release_unbonding_def release_vested_def by (auto intro!: calm.after_bind)
qed

lemma end_block_nonces:
  assumes "end_block h v s = (r, t)"
  shows "cs_nonces t = cs_nonces s"
proof -
  have "after same_nonces (modify move_base_fee) s" for s
    by (rule calm.after_modify) (simp add: same_nonces_def move_base_fee_def Let_def)
  moreover have "after same_nonces (modify (\<lambda>s. s\<lparr>cs_fee_pot := 0\<rparr>)) s" for s
    by (rule calm.after_modify) (simp add: same_nonces_def)
  ultimately have "after same_nonces (end_block h v) s"
    unfolding end_block_def pay_fees_def by (auto intro!: calm.after_bind calm.after_forE)
  with assms show ?thesis by (simp add: after_def same_nonces_def)
qed

lemma reward_nonces:
  "apply_verified L (new_reward uuid now v h) h s = (Inr (), t) \<Longrightarrow> cs_nonces t = cs_nonces s"
  by (auto simp: apply_verified_def new_reward_def new_transaction_def exec_ok apply_reward_ok)


section \<open>What mining amounts to\<close>

text \<open>A block the node builds and seals from its plan.\<close>

definition mined_from :: "'x prims_scheme \<Rightarrow> int \<Rightarrow> local_validator_key \<Rightarrow> block_plan \<Rightarrow> blockchain \<Rightarrow> block \<Rightarrow> bool" where
  "mined_from L mined_at key plan chain b \<longleftrightarrow>
     (\<exists>h built. next_index chain = (Inr h :: u64 outcome)
        \<and> build_block L mined_at plan h (latest_hash chain) (bc_current_difficulty chain) = Inr built
        \<and> seal_block L key plan (bc_state chain) built = Inr b)"

lemma mined_fields:
  assumes "mined_from L mined_at key plan chain b" "next_index chain = (Inr h :: u64 outcome)"
  shows "blk_transactions b = bp_transactions plan" "blk_state_root b = bp_state_root plan" "blk_index b = h"
    "blk_timestamp b = mined_at" "blk_validator b = Some (bp_validator plan)" "blk_previous_hash b = latest_hash chain"
    "blk_validator_public_key b = Some (bp_public_key plan)"
    "blk_difficulty b = clamp_difficulty (bc_current_difficulty chain)"
    "has_valid_pow L b" "has_valid_merkle_root L b"
proof -
  obtain built out pr sg pq where n: "build_block L mined_at plan h (latest_hash chain) (bc_current_difficulty chain) = Inr built"
    and b: "b = with_seals built out pr sg pq"
    using assms seal_blockE unfolding mined_from_def by (metis sum.inject(2))
  note f = new_at_fields [OF n [unfolded build_block_def]] and v = new_at_valid [OF n [unfolded build_block_def]]
  show "blk_transactions b = bp_transactions plan" "blk_state_root b = bp_state_root plan" "blk_index b = h"
    "blk_timestamp b = mined_at" "blk_validator b = Some (bp_validator plan)" "blk_previous_hash b = latest_hash chain"
    "blk_validator_public_key b = Some (bp_public_key plan)"
    "blk_difficulty b = clamp_difficulty (bc_current_difficulty chain)"
    "has_valid_pow L b" "has_valid_merkle_root L b"
    unfolding b using f v by simp_all
qed

lemma sealed_plan_validates:
  assumes plan: "plan_block L W chain pending producer = Inr plan"
    and mined: "mined_from L mined_at key plan chain b"
    and h: "next_index chain = (Inr h :: u64 outcome)"
    and pool: "settles L (bp_validator plan) h pending (bc_state chain)"
    and texts: "list_all (readable L) (new_reward (w_uuid W) (w_now W) (bp_validator plan) h # pending)"
    and staker: "fmlookup (cs_stakers (bc_state chain)) (bp_validator plan) = Some info" "si_vrf_public_key info \<noteq> []"
    and keys: "keys_match L (lk_private_key key) info (blk_hash b) (bp_slot_input plan)"
    and difficulty: "is_difficulty_in_bounds (bc_current_difficulty chain)"
    and clock: "blk_timestamp (last (bc_blocks chain)) \<le> w_now W" "w_now W \<le> mined_at"
      "mined_at \<le> now + 120 * 10 ^ 9" "mined_at - blk_timestamp (last (bc_blocks chain)) < 10 ^ 28"
  shows "is_ok (validate_block_candidate L now chain b)"
proof -
  let ?v = "bp_validator plan" let ?parent = "blk_timestamp (last (bc_blocks chain))"
  note f = mined_fields [OF mined h]
  obtain t where t: "execute_block L b ?v (bc_state chain) = Inr t"
    using plan_executes [OF plan h pool texts f(1-3)] by blast
  obtain built where built: "build_block L mined_at plan h (latest_hash chain) (bc_current_difficulty chain) = Inr built"
    and seal: "seal_block L key plan (bc_state chain) built = Inr b"
    using mined h by (auto simp: mined_from_def)
  have hash: "blk_hash b = blk_hash built" by (rule seal_blockE [OF seal]) simp
  have pk: "si_public_key info = bp_public_key plan"
    and slot: "plan_slot L (w_now W) chain producer = Inr (?v, bp_slot_input plan)"
    by (rule plan_blockE [OF plan h]; simp add: staker(1))+
  obtain r where e: "eligible_slot_for L (w_now W) chain ?v = (Inr (Some (r, bp_slot_input plan)) :: _ outcome)"
    using plan_slot_eligible [OF slot] by blast
  have ne: "bc_blocks chain \<noteq> []" using e by (simp add: eligible_slot_for_ok)
  have checked: "check_slot L b ?v (bc_state chain) (bc_randomness chain) ?parent = Inr (bp_slot_input plan)"
    using clock f(4) by (intro eligible_later [OF e _ _ h f(3)]) simp_all
  have fields: "blk_validator_public_key built = Some (bp_public_key plan)" "blk_validator_pq_signature built = None"
    using built by (auto simp: build_block_def new_at_def Let_def exec_ok)
  have sealed: "check_seal L b ?v (bc_state chain) (bp_slot_input plan) = Inr ()"
    by (rule sealed_block_checks [OF seal staker(1) pk staker(2) keys [unfolded hash] fields])
  have sg: "blk_validator_signature b \<noteq> None" by (rule seal_blockE [OF seal]) simp
  have "clamp_difficulty (bc_current_difficulty chain) = bc_current_difficulty chain"
    using difficulty by (auto simp: clamp_difficulty_def is_difficulty_in_bounds_def clampW_def)
  then have header: "check_header b h (latest_hash chain) ?parent (bc_current_difficulty chain) = Inr ()"
    using f sg clock difficulty by (simp add: check_header_ok)
  have "validate_block_candidate L now chain b = Inr t"
    using ne h header checked sealed f t clock
    by (auto simp: validate_block_candidate_ok validate_block_at_ok seconds_def MAX_TIMESTAMP_SKEW_SECONDS_def)
  then show ?thesis by simp
qed

text \<open>A node none of whose mined blocks validates stays as it is.\<close>

lemma mine_stuck:
  assumes "\<And>key plan b. ns_validator_key s = Some key
      \<Longrightarrow> plan_block L W (ns_chain s) (ns_pending s) (Some (lk_address key)) = Inr plan
      \<Longrightarrow> mined_from L mined_at key plan (ns_chain s) b
      \<Longrightarrow> \<not> is_ok (validate_block_candidate L (w_now W) (ns_chain s) b)"
  shows "snd (mine L W mined_at s) = s"
proof (cases "ns_validator_key s")
  case None
  then show ?thesis by (simp add: mine_def)
next
  case (Some key)
  let ?c = "ns_chain s"
  have plan: "snd (plan_mining L W key s) = s"
    by (auto simp: plan_mining_def matchE_def bindE_def ret_def lift_def gets_def split: sum.split failure.split)
  have finish: "snd (finish_mining L W d key p prev built s) = s"
    if p: "plan_block L W ?c (ns_pending s) (Some (lk_address key)) = Inr p"
      and h: "next_index ?c = (Inr h :: u64 outcome)"
      and b: "build_block L mined_at p h prev (bc_current_difficulty ?c) = Inr built" and prev: "prev = latest_hash ?c"
    for d p prev built h
  proof -
    have "\<not> is_ok (validate_block_candidate L (w_now W) ?c b)"
      if "seal_block L key p (bc_state ?c) built = Inr b" for b
      using assms [OF Some p] that h b prev unfolding mined_from_def by blast
    then have "\<exists>e. extend_chain L W d b s = (Inl e, s)"
      if "seal_block L key p (bc_state ?c) built = Inr b" for b
      using that by (cases "validate_block_candidate L (w_now W) ?c b") (force simp: extend_chain_def)+
    then show ?thesis
      unfolding finish_mining_def using prev
      by (auto simp: matchE_def split: sum.split failure.split prod.split)
  qed
  show ?thesis
  proof (cases "plan_mining L W key s")
    case (Pair r u)
    then have u: "u = s" using plan by simp
    show ?thesis
    proof (cases r)
      case (Inl e)
      then show ?thesis using Pair Some u by (simp add: mine_def)
    next
      case (Inr planned)
      have "planned = Inr (p, h, prev, diff) \<Longrightarrow>
          plan_block L W ?c (ns_pending s) (Some (lk_address key)) = Inr p
          \<and> next_index ?c = (Inr h :: u64 outcome) \<and> prev = latest_hash ?c \<and> diff = bc_current_difficulty ?c" for p h prev diff
        using Pair Inr
        by (auto simp: plan_mining_def matchE_def bindE_def ret_def lift_def gets_def split: sum.splits failure.splits if_splits)
      then show ?thesis
        using Pair Inr Some u finish
        by (cases planned) (auto simp: mine_def split: sum.split)
    qed
  qed
qed

end
