(* ===== verification/Progress.thy ===== *)
theory Progress
  imports Production Election History
begin

text \<open>
  That block production never gets stuck: as long as somebody has stake, somebody is an open leader,
  its plan succeeds, and the block it mines and seals is one the chain accepts.
\<close>


section \<open>Somebody is selected\<close>

lemma some_stakes_le: "int (sum_list (map (\<lambda>a. unat (f a :: u64)) (filter P as))) \<le> sum_list (map (\<lambda>a. uint (f a)) as)"
  by (induction as) (auto intro: add_increasing)

lemma staked_bound: "int (stakes (validator_set s)) \<le> bonded_total s"
proof -
  let ?f = "\<lambda>a. si_stake (fmfind default_stake_info (cs_stakers s) a)"
  have "bonded_total s = sum_list (map (\<lambda>a. uint (?f a)) (keys_of (cs_stakers s)))"
    unfolding bonded_total_def fmsum_keys
    by (rule arg_cong [where f = sum_list], rule map_cong [OF refl]) (auto simp: fmfind_def fmlookup_dom'_iff)
  then show ?thesis
    using some_stakes_le [of ?f "\<lambda>a. 0 < ?f a" "keys_of (cs_stakers s)"]
    by (simp add: stakes_def validator_set_def o_def Let_def)
qed

lemma sound_stakes:
  assumes "sound s"
  shows "stakes (validator_set s) < 2 ^ 64"
proof -
  have "0 \<le> unbonding_sum s" unfolding unbonding_sum_def by (rule fmsum_nonneg) (rule unbonding_units_nonneg)
  then have "int (stakes (validator_set s)) \<le> uint (balance_of s STAKING_POOL_ACCOUNT)"
    using staked_bound [of s] assms by (simp add: sound_def staking_inv_def)
  also have "\<dots> < 2 ^ 64" using uint_bounded [of "balance_of s STAKING_POOL_ACCOUNT"] by simp
  finally show ?thesis by simp
qed

lemma validators_staked:
  assumes "validator_set s \<noteq> []"
  shows "0 < stakes (validator_set s)"
proof -
  obtain x xs where x: "validator_set s = x # xs" using assms by (cases "validator_set s") auto
  then have "x \<in> set (validator_set s)" by simp
  then have "0 < st_stake x" by (auto simp: validator_set_def Let_def)
  then show ?thesis by (simp add: x word_less_nat_alt)
qed

lemma validator_registered:
  assumes "x \<in> set (validator_set s)"
  shows "\<exists>info. fmlookup (cs_stakers s) (st_address x) = Some info"
  using assms by (auto simp: validator_set_def Let_def fmlookup_dom'_iff)

lemma somebody_selected:
  assumes "sound s" "validator_set s \<noteq> []"
  shows "\<exists>v info. select_staker_with_seed L seed (validator_set s) = (Inr (Some v) :: ('e, _) result)
    \<and> fmlookup (cs_stakers s) v = Some info"
proof -
  let ?n = "stakes (validator_set s)" let ?p = "unat (seed_to_u64 L seed) mod ?n"
  have n: "?n < 2 ^ 64" "0 < ?n" using sound_stakes [OF assms(1)] validators_staked [OF assms(2)] by simp_all
  then obtain v where v: "walk ?p (validator_set s) = Some v"
    using walk_total [of ?p "validator_set s"] by auto
  moreover obtain info where "fmlookup (cs_stakers s) v = Some info"
    using walk_member [OF v] validator_registered by metis
  ultimately show ?thesis using n by (auto simp: select_staker_with_seed_ok)
qed

lemma rounds_start: "\<exists>rs. rounds_upto r = 0 # rs"
  by (simp add: rounds_upto_def upt_rec del: upt_Suc)

text \<open>The leader of the first round is eligible at every time.\<close>

lemma somebody_eligible:
  assumes "sound (bc_state c)" "validator_set (bc_state c) \<noteq> []" "bc_blocks c \<noteq> []"
    and h: "next_index c = (Inr h :: ('e, u64) result)"
  shows "\<exists>v info input. eligible_slot_for L now c v = (Inr (Some (0, input)) :: ('e, _) result)
    \<and> fmlookup (cs_stakers (bc_state c)) v = Some info"
proof -
  let ?input = "slot_input_at_round (bc_randomness c) h 0"
  obtain v info where v: "select_staker_with_seed L ?input (validator_set (bc_state c)) = (Inr (Some v) :: ('e, _) result)"
    "fmlookup (cs_stakers (bc_state c)) v = Some info"
    using somebody_selected [OF assms(1,2)] by blast
  obtain rs where "rounds_upto (open_rounds (blk_timestamp (last (bc_blocks c))) now) = 0 # rs"
    using rounds_start by blast
  then have "eligible_slot_for L now c v = (Inr (Some (0, ?input)) :: ('e, _) result)"
    using v(1) assms(3) h by (simp add: eligible_slot_for_ok Let_def)
  with v(2) show ?thesis by blast
qed


section \<open>The difficulty stays mineable\<close>

lemma retarget_in_bounds:
  assumes "retarget bs p b d = (Inr d' :: ('e, u64) result)" "is_difficulty_in_bounds d"
  shows "is_difficulty_in_bounds d'"
proof -
  consider "d' = d" | w where "adjusted_difficulty d w = (Inr d' :: ('e, u64) result)"
    using assms(1) by (auto simp: retarget_def bindR_ok Let_def split: if_splits)
  then show ?thesis
  proof cases
    case (2 w)
    then show ?thesis using adjusted_difficulty_ok [OF assms(2), of w, where 'e = 'e] by auto
  qed (use assms(2) in simp)
qed

lemma replay_in_bounds:
  "replay_blocks L base pre (s, r, d) bs = Inr (t, r', d') \<Longrightarrow> is_difficulty_in_bounds d \<Longrightarrow> is_difficulty_in_bounds d'"
proof (induction bs arbitrary: pre s r d)
  case (Cons b bs)
  from Cons.prems(1) obtain s' r1 d1 where
    "retarget (pre @ [b]) (base + as_u64 (length pre)) base d = (Inr d1 :: (nat \<times> block_error, u64) result)"
    "replay_blocks L base (pre @ [b]) (s', r1, d1) bs = Inr (t, r', d')"
    unfolding replay_blocks_cons_ok by blast
  with Cons.IH Cons.prems(2) retarget_in_bounds show ?case by blast
qed simp

lemma in_sync_in_bounds:
  assumes "in_sync L c" "bc_checkpoint c = None" "is_difficulty_in_bounds (bc_difficulty c)"
  shows "is_difficulty_in_bounds (bc_current_difficulty c)"
proof -
  obtain anchor rest root where "replay_root L c anchor = Inr root"
    and bs: "replay_blocks L (bc_base_height c) [anchor] root rest = Inr (bc_state c, bc_randomness c, bc_current_difficulty c)"
    using assms(1) by (auto simp: in_sync_def validate_full_ok)
  then obtain g r where "root = (g, r, bc_difficulty c)"
    using assms(2) by (auto simp: replay_root_def exec_ok)
  with bs assms(3) replay_in_bounds show ?thesis by blast
qed


section \<open>The plan of an eligible validator succeeds\<close>

text \<open>The pool goes through: nothing panics, and nothing that fails has written anything.\<close>

definition drains :: "'x node_lib_scheme \<Rightarrow> string \<Rightarrow> u64 \<Rightarrow> transaction list \<Rightarrow> chain_state \<Rightarrow> bool" where
  "drains L v h pending s \<longleftrightarrow> settles L v h pending s \<and> list_all (readable L) pending
     \<and> is_ok (include_pending L v h pending (s, [], []) :: (chain_state \<times> string list \<times> string list) outcome)"

lemma drains_empty [simp]: "drains L v h [] s"
  by (simp add: drains_def)

lemma reward_applies:
  assumes "sound s" "\<not> internal_account v" "uint (cs_total_supply s) + uint (block_reward h) < 2 ^ 64"
  shows "\<exists>t. apply_verified L (new_reward uuid now v h) h s = (Inr (), t) \<and> sound t"
proof -
  let ?tx = "new_reward uuid now v h"
  obtain t where t: "apply_verified L ?tx h s = (Inr (), t)"
    by (simp add: apply_verified_def verify_chain_scope_ok verify_signature_policy_ok new_reward_def
        new_transaction_def apply_reward_ok exec_ok)
  moreover have "admissible_tx ?tx s"
    using assms(2,3) by (simp add: admissible_tx_def new_reward_def new_transaction_def)
  ultimately show ?thesis using apply_verified_sound assms(1) by blast
qed

lemma block_reward_le: "uint (block_reward h) \<le> 3700000000"
proof -
  have "3700000000 div 2 ^ k \<le> (3700000000 :: nat)" for k by (rule div_le_dividend)
  then have "reward_nat (unat h) \<le> 3700000000" by (simp add: reward_nat_def)
  then show ?thesis by (simp add: uint_block_reward)
qed

lemma plan_succeeds:
  assumes s: "sound (bc_state c)" and h: "next_index c = (Inr h :: u64 outcome)"
    and slot: "eligible_slot_for L (w_now W) c v = (Inr (Some (r, input)) :: _ outcome)"
    and st: "fmlookup (cs_stakers (bc_state c)) v = Some info"
    and pool: "drains L v h pending (bc_state c)"
    and room: "uint (cs_total_supply (bc_state c)) + uint (block_reward h) < 2 ^ 64"
  shows "\<exists>plan. plan_block L W c pending (Some v) = Inr plan \<and> bp_validator plan = v \<and> bp_slot_input plan = input"
proof -
  obtain s1 txs ids where
    inc: "include_pending L v h pending (bc_state c, [], []) = (Inr (s1, txs, ids) :: _ outcome)"
    using pool by (fastforce simp: drains_def is_ok_def split: sum.splits)
  have v: "\<not> internal_account v" using s st by (auto simp: sound_def keys_inv_def fmhas_def)
  obtain more where run: "execute_transactions L v h more (bc_state c, 0) = Inr (s1, 0)"
    using include_pending_executes [OF inc, of 0] pool by (auto simp: drains_def)
  have s1: "sound s1 \<and> uint (cs_total_supply s1) \<le> uint (cs_total_supply (bc_state c)) + int 0 * uint (block_reward h)"
    by (rule execute_transactions_sound [OF run _ s v]) (use room in simp_all)
  then obtain s2 where s2: "apply_verified L (new_reward (w_uuid W) (w_now W) v h) h s1 = (Inr (), s2)" "sound s2"
    using reward_applies [of s1 v h L "w_uuid W" "w_now W"] v room by auto
  obtain s3 where s3: "end_block h v s2 = (Inr (), s3)" using end_block_books [OF s2(2) v] by blast
  have "plan_slot L (w_now W) c (Some v) = Inr (v, input)" using slot by (simp add: plan_slot_def)
  then show ?thesis using h st inc s2(1) s3 by (auto simp: plan_block_ok)
qed


section \<open>And so does mining and sealing it\<close>

text \<open>What a validator needs: keys that sign block hashes and slots, and that are those it registered.\<close>

definition can_produce :: "'x prims_scheme \<Rightarrow> local_validator_key \<Rightarrow> stake_info \<Rightarrow> bool" where
  "can_produce L key info \<longleftrightarrow> si_vrf_public_key info \<noteq> [] \<and>
     (\<forall>text slot. let hash = sha256_hex L text in
        is_ok (sign_block_hash L hash (lk_private_key key)) \<and> is_ok (vrf_prove L slot (lk_private_key key))
        \<and> (si_pq_public_key info \<noteq> [] \<longrightarrow> is_ok (pq_sign_block_hash L hash (lk_private_key key)))
        \<and> keys_match L (lk_private_key key) info hash slot)"

text \<open>Every text has a nonce whose hash meets the difficulty.\<close>

definition mineable :: "'x prims_scheme \<Rightarrow> u64 \<Rightarrow> bool" where
  "mineable L difficulty \<longleftrightarrow> (\<forall>data. \<exists>nonce. leading_zeros (clamp_difficulty difficulty) (candidate_hash L data nonce))"

lemma mineable_builds:
  assumes "mineable L d"
  shows "\<exists>built text. build_block L now plan h prev d = Inr built \<and> blk_hash built = sha256_hex L text"
proof -
  have "\<exists>m text. mine_block L data (clamp_difficulty d) = Inr (m, sha256_hex L text)" for data
  proof (cases "mine_block L data (clamp_difficulty d)")
    case (Inl e)
    then show ?thesis using assms by (auto simp: mine_block_def mine_from_fails mineable_def)
  next
    case (Inr r)
    then show ?thesis by (cases r) (auto simp: mine_block_def mine_from_ok candidate_hash_def sha256_hex_def)
  qed
  then obtain m x where "mine_block L (hash_payload L h (compute_merkle_root L (bp_transactions plan))
      (bp_state_root plan) now (Some (bp_validator plan)) (Some (bp_public_key plan)) prev) (clamp_difficulty d)
      = Inr (m, sha256_hex L x)" by blast
  then show ?thesis by (auto simp: build_block_def new_at_def Let_def)
qed

lemma is_okE:
  assumes "is_ok r"
  obtains x where "r = Inr x"
  using assms by (auto simp: is_ok_def split: sum.splits)

lemma producer_seals:
  assumes "can_produce L key info" "fmlookup (cs_stakers s) (bp_validator plan) = Some info"
    and "blk_hash built = sha256_hex L text"
  shows "\<exists>b. seal_block L key plan s built = Inr b \<and> blk_hash b = blk_hash built"
proof -
  let ?k = "lk_private_key key"
  have ok: "is_ok (sign_block_hash L (blk_hash built) ?k)" "is_ok (vrf_prove L (bp_slot_input plan) ?k)"
    "si_pq_public_key info \<noteq> [] \<longrightarrow> is_ok (pq_sign_block_hash L (blk_hash built) ?k)"
    using assms(1,3) by (simp_all add: can_produce_def Let_def)
  obtain sg where sg: "sign_block_hash L (blk_hash built) ?k = Inr sg" by (rule is_okE [OF ok(1)])
  obtain out pr where vrf: "vrf_prove L (bp_slot_input plan) ?k = Inr (out, pr)" by (rule is_okE [OF ok(2)]) auto
  show ?thesis
  proof (cases "si_pq_public_key info = []")
    case True
    then show ?thesis using sg vrf assms(2) by (simp add: seal_block_def Let_def)
  next
    case False
    then obtain q where "pq_sign_block_hash L (blk_hash built) ?k = Inr q" using ok(3) is_okE by blast
    then show ?thesis using False sg vrf assms(2) by (simp add: seal_block_def Let_def)
  qed
qed


lemma mining_succeeds:
  assumes "mineable L (bc_current_difficulty c)" "next_index c = (Inr h :: u64 outcome)"
    and "bp_validator plan = v" "fmlookup (cs_stakers (bc_state c)) v = Some info" "can_produce L key info"
  shows "\<exists>b. mined_from L mined_at key plan c b \<and> (\<exists>x. blk_hash b = sha256_hex L x)"
proof -
  obtain built x where built: "build_block L mined_at plan h (latest_hash c) (bc_current_difficulty c) = Inr built"
    "blk_hash built = sha256_hex L x"
    using mineable_builds [OF assms(1)] by blast
  obtain b where "seal_block L key plan (bc_state c) built = Inr b" "blk_hash b = blk_hash built"
    using producer_seals [OF assms(5) _ built(2)] assms(3,4) by blast
  with assms(2) built show ?thesis unfolding mined_from_def by auto
qed

section \<open>Committing it\<close>

lemma commit_succeeds:
  assumes "is_difficulty_in_bounds (bc_current_difficulty c)"
    and room: "unat (bc_base_height c) + length (bc_blocks c) < 2 ^ 62"
  shows "\<exists>c'. commit_block L b t c = (Inr c' :: blockchain outcome) \<and> bc_blocks c' = bc_blocks c @ [b]"
proof -
  let ?blocks = "bc_blocks c @ [b]"
  let ?next = "bc_base_height c + as_u64 (length ?blocks)"
  have n: "unat (as_u64 (length ?blocks)) = length ?blocks" using room by (intro unat_as_u64_small) simp
  then have fits: "unat (bc_base_height c) + unat (as_u64 (length ?blocks)) < 2 ^ 64" using room by simp
  then have tip: "tip_index (c\<lparr>bc_blocks := ?blocks\<rparr>) = (Inr (sat_sub ?next 1) :: u64 outcome)"
    by (simp add: tip_index_def next_index_def add_u64_def checked_add_def)
  have "unat (sat_sub ?next 1) + 1 < 2 ^ 64"
    using n fits room by (simp add: unat_sat_sub unat_plus)
  moreover have "\<exists>d. adjusted_difficulty (bc_current_difficulty c) (drop k ?blocks) = (Inr d :: u64 outcome)" for k
    using adjusted_difficulty_ok [OF assms(1)] by blast
  ultimately have "\<exists>d. retarget ?blocks (sat_sub ?next 1) (bc_base_height c) (bc_current_difficulty c)
      = (Inr d :: u64 outcome)"
    by (auto simp: retarget_def bindR_ok add_u64_ok Let_def RETARGET_INTERVAL_def)
  with tip show ?thesis by (auto simp: commit_block_ok)
qed

end
