(* ===== verification/Gossip.thy ===== *)
theory Gossip
  imports Catchup Progress
begin

text \<open>
  A block on its way through the network: the node that mines it puts it on its own chain and
  queues it for its peers, and a peer with the same history that is handed the block takes it.
\<close>


section \<open>Taking a block\<close>

lemma bump_run:
  assumes "unat (get (ns_metrics s)) + unat n < 2 ^ 64"
  shows "bump get put n s = (Inr (), s\<lparr>ns_metrics := put (\<lambda>_. get (ns_metrics s) + n) (ns_metrics s)\<rparr>)"
proof -
  have "add_u64 (get (ns_metrics s)) n = (Inr (get (ns_metrics s) + n) :: u64 outcome)" using assms by (simp add: add_u64_ok)
  then show ?thesis by (simp add: bump_def bindE_def gets_def lift_def modify_def)
qed

text \<open>A chain that is in step and one block longer extends ours by that block.\<close>

lemma extend_follows:
  assumes "in_sync L (ns_chain s)" "in_sync L d" "same_network (ns_chain s) d"
    and "bc_blocks d = bc_blocks (ns_chain s) @ [b]"
    and "blk_timestamp b \<le> w_now W + seconds MAX_TIMESTAMP_SKEW_SECONDS"
    and room: "unat (bc_base_height d) + length (bc_blocks d) < 2 ^ 64" "length (bc_blocks d) < 2 ^ 63"
  shows "\<exists>c'. extend_chain L W depth b s = (Inr (), s\<lparr>ns_chain := c'\<rparr>)
    \<and> bc_blocks c' = bc_blocks d \<and> in_sync L c' \<and> same_network c' d"
proof -
  obtain t c1 where b: "validate_block_candidate L (w_now W) (ns_chain s) b = Inr t"
    "commit_block L b t (ns_chain s) = (Inr c1 :: blockchain outcome)"
    "bc_blocks c1 = bc_blocks d" "in_sync L c1" "same_network c1 d"
    using next_block_follows [OF assms(1-3), of b "[]" "w_now W"] assms(4-) by auto
  then obtain c' where c': "apply_finality depth c1 = (Inr c' :: blockchain outcome)"
    using finality_moves [of c1 depth] room assms(4) by (auto simp: same_network_def)
  have "bc_blocks c' = bc_blocks c1" by (subst finality_sets_height [OF c']) simp
  moreover have "in_sync L c'" by (rule finality_in_sync [OF c' b(4)])
  moreover have "same_network c' d"
    using same_network_trans [OF runs_same_network [OF runs.finalize [OF runs.born c']] b(5)] .
  ultimately show ?thesis using b c'
    by (intro exI [of _ c']) (simp add: extend_chain_def bindE_def lift_def gets_def modify_def)
qed

text \<open>Two chains in step with the same blocks are in the same state.\<close>

lemma in_step_agree:
  assumes "in_sync L c" "in_sync L d" "same_network c d" "bc_blocks c = bc_blocks d"
  shows "bc_state c = bc_state d \<and> bc_randomness c = bc_randomness d \<and> bc_current_difficulty c = bc_current_difficulty d"
proof -
  have "c\<lparr>bc_blocks := bc_blocks d\<rparr> = c" using assms(4) by simp
  then show ?thesis
    using assms(1,2) same_network_validates [OF assms(3), of L "bc_blocks d"] by (simp add: in_sync_def)
qed


definition included_ids :: "'x node_lib_scheme \<Rightarrow> block \<Rightarrow> string set" where
  "included_ids L b = tx_id ` set (List.map_filter (tx_parse L) (blk_transactions b))"

lemma prune_pending_run:
  "\<exists>s'. prune_pending L [b] s = (Inr (), s') \<and> ns_chain s' = ns_chain s \<and> ns_metrics s' = ns_metrics s
     \<and> (\<forall>tx\<in>set (ns_pending s'). tx_id tx \<notin> included_ids L b)"
  by (auto simp: prune_pending_def modify_def Let_def included_ids_def)

lemma peer_takes_block:
  assumes d: "in_sync L (ns_chain s)" "in_sync L d" "same_network (ns_chain s) d"
    and blocks: "bc_blocks d = bc_blocks (ns_chain s) @ [b]"
    and recent: "blk_timestamp b \<le> w_now W + seconds MAX_TIMESTAMP_SKEW_SECONDS"
    and room: "unat (bc_base_height d) + length (bc_blocks d) < 2 ^ 64" "length (bc_blocks d) < 2 ^ 63"
    and peer: "authorize_p2p A (w_secs W) (ns_access s) token"
    and counter: "unat (mt_blocks_received (ns_metrics s)) + 1 < 2 ^ 64"
  shows "\<exists>s'. receive_block A L W token b s = (Inr (success ''Block accepted''), s')
    \<and> bc_blocks (ns_chain s') = bc_blocks d \<and> bc_state (ns_chain s') = bc_state d
    \<and> bc_randomness (ns_chain s') = bc_randomness d \<and> bc_current_difficulty (ns_chain s') = bc_current_difficulty d
    \<and> (\<forall>tx\<in>set (ns_pending s'). tx_id tx \<notin> included_ids L b)"
proof -
  obtain c' where c': "extend_chain L W (finality_depth_of s) b s = (Inr (), s\<lparr>ns_chain := c'\<rparr>)"
    "bc_blocks c' = bc_blocks d" "in_sync L c'" "same_network c' d"
    using extend_follows [OF d blocks recent room] by blast
  let ?s1 = "s\<lparr>ns_chain := c'\<rparr>"
  obtain s2 where s2: "prune_pending L [b] ?s1 = (Inr (), s2)" "ns_chain s2 = c'" "ns_metrics s2 = ns_metrics s"
    "\<forall>tx\<in>set (ns_pending s2). tx_id tx \<notin> included_ids L b"
    using prune_pending_run [of L b ?s1] by auto
  have "1 \<le> as_u64 (length (bc_blocks d))"
    using unat_as_u64_small [of "length (bc_blocks d)"] room(2) blocks by (simp add: word_le_nat_alt)
  then obtain h where h: "sub_u64 (as_u64 (length (bc_blocks c'))) 1 = (Inr h :: u64 outcome)"
    using c'(2) by (auto simp: sub_u64_def)
  have accept: "accept_peer_block L W (finality_depth_of s) b s = (Inr h, s2)"
    by (simp add: accept_peer_block_def matchE_def c'(1) bindE_def gets_def lift_def ret_def h s2(1))
  have "bump mt_blocks_received mt_blocks_received_update 1 s2
      = (Inr (), s2\<lparr>ns_metrics := (ns_metrics s2)\<lparr>mt_blocks_received := mt_blocks_received (ns_metrics s2) + 1\<rparr>\<rparr>)"
    using counter by (subst bump_run) (simp_all add: s2(3))
  then show ?thesis
    using peer accept s2 in_step_agree [OF c'(3) d(2) c'(4) c'(2)] c'(2)
    by (simp add: receive_block_def bindE_def gets_def matchE_def ret_def persist_state_def modify_def)
qed


section \<open>Mining one\<close>

lemma mine_extends:
  assumes key: "ns_validator_key s = Some key"
    and plan: "plan_block L W (ns_chain s) (ns_pending s) (Some (lk_address key)) = Inr plan"
    and own: "bp_public_key plan = lk_public_key key"
    and mined: "mined_from L mined_at key plan (ns_chain s) b"
    and extends: "extend_chain L W (finality_depth_of s) b s = (Inr (), s\<lparr>ns_chain := c'\<rparr>)"
    and tip: "tip_index c' = (Inr h :: u64 outcome)"
    and counter: "unat (mt_blocks_mined (ns_metrics s)) + 1 < 2 ^ 64"
  shows "\<exists>r s'. mine L W mined_at s = (Inr r, s') \<and> mr_status r = ''success'' \<and> mr_block_index r = h
    \<and> ns_chain s' = c' \<and> ns_tasks s' = ns_tasks s @ [GossipBlocks [b]]"
proof -
  obtain n built where n: "next_index (ns_chain s) = (Inr n :: u64 outcome)"
    and built: "build_block L mined_at plan n (latest_hash (ns_chain s)) (bc_current_difficulty (ns_chain s)) = Inr built"
    and seal: "seal_block L key plan (bc_state (ns_chain s)) built = Inr b"
    using mined by (auto simp: mined_from_def)
  have planned: "plan_mining L W key s
      = (Inr (Inr (plan, n, latest_hash (ns_chain s), bc_current_difficulty (ns_chain s))), s)"
    by (simp add: plan_mining_def bindE_def gets_def matchE_def lift_def ret_def plan own n)
  have bumped: "bump mt_blocks_mined mt_blocks_mined_update 1 t
      = (Inr (), t\<lparr>ns_metrics := (ns_metrics t)\<lparr>mt_blocks_mined := mt_blocks_mined (ns_metrics t) + 1\<rparr>\<rparr>)"
    if "ns_metrics t = ns_metrics s" for t
    using counter by (subst bump_run) (simp_all add: that)
  have ext: "extend_chain L W (gc_finality_depth (ns_governance s)) b s = (Inr (), s\<lparr>ns_chain := c'\<rparr>)"
    using extends by (simp add: finality_depth_of_def)
  show ?thesis
    unfolding mine_def finish_mining_def
    by (simp add: bindE_def gets_def key planned built seal lift_def matchE_def ext tip modify_def bumped ret_def
        persist_state_def spawn_def)
qed


lemma valid_block_extends:
  assumes sync: "in_sync L (ns_chain s)" and valid: "is_ok (validate_block_candidate L (w_now W) (ns_chain s) b)"
    and difficulty: "is_difficulty_in_bounds (bc_current_difficulty (ns_chain s))"
    and room: "unat (bc_base_height (ns_chain s)) + length (bc_blocks (ns_chain s)) < 2 ^ 62"
  shows "\<exists>c' h. extend_chain L W depth b s = (Inr (), s\<lparr>ns_chain := c'\<rparr>)
    \<and> bc_blocks c' = bc_blocks (ns_chain s) @ [b] \<and> in_sync L c' \<and> same_network (ns_chain s) c'
    \<and> tip_index c' = (Inr h :: u64 outcome)"
proof -
  let ?c = "ns_chain s"
  obtain t where t: "validate_block_candidate L (w_now W) ?c b = Inr t" using valid by (rule is_okE)
  obtain c1 where c1: "commit_block L b t ?c = (Inr c1 :: blockchain outcome)" "bc_blocks c1 = bc_blocks ?c @ [b]"
    using commit_succeeds [OF difficulty room] by blast
  have sync1: "in_sync L c1" using commit_in_sync [OF sync t c1(1)] room by simp
  have r1: "runs L ?c c1" by (rule runs.extend [OF runs.born t c1(1)])
  have base: "bc_base_height c1 = bc_base_height ?c" using runs_same_network [OF r1] by (simp add: same_network_def)
  obtain c' where c': "apply_finality depth c1 = (Inr c' :: blockchain outcome)"
    using finality_moves [of c1 depth] room c1(2) base by auto
  have blocks: "bc_blocks c' = bc_blocks ?c @ [b]" using c1(2) by (subst finality_sets_height [OF c']) simp
  have net: "same_network ?c c'" by (rule runs_same_network [OF runs.finalize [OF r1 c']])
  have "\<exists>h. tip_index c' = (Inr h :: u64 outcome)"
    using blocks net room by (auto simp: tip_index_def next_index_def same_network_def add_u64_def checked_add_def
        unat_as_u64_small)
  with t c1 c' blocks net finality_in_sync [OF c' sync1] show ?thesis
    by (auto simp: extend_chain_def bindE_def lift_def gets_def modify_def)
qed

end
