(* ===== verification/Wallet.thy ===== *)
theory Wallet
  imports Boot
begin

text \<open>
  The command-line programs (\<open>src/src/bin/\<close>): \<open>hikma-wallet\<close>, which derives identities and signs
  blocks and transactions, and \<open>mint_token\<close>, which issues bearer tokens. A command is a computation
  over the lines printed so far, which stay printed when it fails later.
\<close>


section \<open>The wallet\<close>

definition println :: "string \<Rightarrow> (string list, unit) exec" where
  "println line = modify (\<lambda>out. out @ [line])"

text \<open>\<open>args.get(i).ok_or(usage)?\<close> and the parsed arguments.\<close>

definition join_lines :: "string list \<Rightarrow> string" where
  "join_lines ls = (case ls of [] \<Rightarrow> [] | x # xs \<Rightarrow> x @ concat (map ((#) (CHR 0x0A)) xs))"

definition WALLET_USAGE :: string where
  "WALLET_USAGE = join_lines
     [''Commands:'',
      ''  keygen'',
      ''  address <public_key_hex>'',
      ''  identity <private_key_hex>'',
      ''  sign-block <block_hash_hex> <private_key_hex>'',
      ''  vrf-prove <slot_input> <private_key_hex>'',
      ''  sign-transfer <from> <to> <amount> <nonce> <private_key_hex>'',
      ''  sign-stake <address> <amount> <nonce> <private_key_hex>'',
      ''  sign-withdraw <address> <amount> <nonce> <private_key_hex>'',
      ''  sign-vest <from> <to> <amount> <cliff_blocks> <duration_blocks> <nonce> <private_key_hex>'',
      ''  sign-token-create <symbol> <name> <decimals> <initial_supply> <nonce> <private_key_hex>'',
      ''  sign-token-transfer <token_id> <to> <amount> <nonce> <private_key_hex>'',
      ''  sign-token-burn <token_id> <amount> <nonce> <private_key_hex>'',
      ''  sign-amm-add <token_id> <amount_hkm> <amount_token> <min_shares> <nonce> <private_key_hex>'',
      ''  sign-amm-remove <token_id> <shares> <min_hkm> <min_token> <nonce> <private_key_hex>'',
      ''  sign-amm-swap <token_id> <hkm_to_token> <amount_in> <min_out> <nonce> <private_key_hex>'',
      ''  sign-credential <id> <subject> <data_hash> <revoke> <nonce> <private_key_hex>'']"

definition arg :: "nat \<Rightarrow> string list \<Rightarrow> ('s, string) exec" where
  "arg i args = need (if i < length args then Some (args ! i) else None) WALLET_USAGE"

definition num_arg :: "nat \<Rightarrow> string \<Rightarrow> string list \<Rightarrow> ('s, u64) exec" where
  "num_arg i name args = bindE (arg i args) (\<lambda>text. need (parse_u64 text) (name @ '' must be a number''))"

text \<open>\<open>str::parse::<u32>\<close>.\<close>

definition parse_u32 :: "string \<Rightarrow> 32 word option" where
  "parse_u32 s = (case parse_u64 s of None \<Rightarrow> None | Some n \<Rightarrow> if n < 2 ^ 32 then Some (ucast n) else None)"

definition u32_arg :: "nat \<Rightarrow> string \<Rightarrow> string list \<Rightarrow> ('s, 32 word) exec" where
  "u32_arg i name args = bindE (arg i args) (\<lambda>text. need (parse_u32 text) (name @ '' must be a number''))"

definition parse_bool :: "string \<Rightarrow> bool option" where
  "parse_bool s = (if s = ''true'' then Some True else if s = ''false'' then Some False else None)"

definition bool_arg :: "nat \<Rightarrow> string \<Rightarrow> string list \<Rightarrow> ('s, bool) exec" where
  "bool_arg i name args = bindE (arg i args) (\<lambda>text. need (parse_bool text) (name @ '' must be true or false''))"

text \<open>
  The loop draws 32 random bytes until they are a secret key; \<open>draws\<close> are the first draws, and
  \<open>None\<close> means that the loop goes on past them.
\<close>

definition generate_private_key :: "'x prims_scheme \<Rightarrow> string list \<Rightarrow> string option" where
  "generate_private_key L draws =
     map_option (hex_encode L) (find (\<lambda>bytes. case secp_secret L bytes of Inr _ \<Rightarrow> True | Inl _ \<Rightarrow> False) draws)"

definition keygen :: "'x prims_scheme \<Rightarrow> string \<Rightarrow> (string list, unit) exec" where
  "keygen L private_key =
     bindE (lift (derive_public_key L private_key)) (\<lambda>public_key.
     bindE (lift (derive_address L public_key)) (\<lambda>address.
     bindE (lift (derive_vrf_public_key L private_key)) (\<lambda>vrf_public_key.
     bindE (lift (derive_identity L private_key)) (\<lambda>identity.
     forE
       [''private_key:     '' @ private_key,
        ''public_key:      '' @ public_key,
        ''vrf_public_key:  '' @ vrf_public_key,
        ''address:         '' @ address,
        [],
        ''Quantum-ready (hybrid) identity from the SAME private key:'',
        ''pq_public_key:   '' @ hi_pq_public_key identity,
        ''hybrid_address:  '' @ hi_address identity,
        [],
        ''Keep the private key offline. Only the public keys and addresses are shared.'',
        ''The hkq address requires BOTH signatures, so an attacker must break'',
        ''secp256k1 AND ML-DSA-65 to spend from it. Sign for it with HIKMALAYER_HYBRID=1.'']
       println))))"

definition show_identity :: "'x prims_scheme \<Rightarrow> string \<Rightarrow> (string list, unit) exec" where
  "show_identity L private_key =
     bindE (lift (derive_public_key L private_key)) (\<lambda>public_key.
     bindE (lift (derive_identity L private_key)) (\<lambda>identity.
     bindE (println (''public_key:      '' @ public_key)) (\<lambda>_.
     bindE (lift (derive_vrf_public_key L private_key)) (\<lambda>vrf_public_key.
     bindE (println (''vrf_public_key:  '' @ vrf_public_key)) (\<lambda>_.
     bindE (lift (derive_address L public_key)) (\<lambda>address.
     bindE (println (''address:         '' @ address)) (\<lambda>_.
     bindE (println (''pq_public_key:   '' @ hi_pq_public_key identity)) (\<lambda>_.
     println (''hybrid_address:  '' @ hi_address identity)))))))))"

definition hybrid_output :: "(string \<Rightarrow> string option) \<Rightarrow> bool" where
  "hybrid_output env \<longleftrightarrow> env ''HIKMALAYER_HYBRID'' = Some ''1''"

definition wallet_chain_id :: "(string \<Rightarrow> string option) \<Rightarrow> string" where
  "wallet_chain_id env = (case nonempty (env ''HIKMALAYER_CHAIN_ID'') of None \<Rightarrow> DEFAULT_CHAIN_ID | Some v \<Rightarrow> v)"

definition sign_and_print ::
  "'x prims_scheme \<Rightarrow> (string \<Rightarrow> string option) \<Rightarrow> string \<Rightarrow> string \<Rightarrow> (string list, unit) exec" where
  "sign_and_print L env message0 private_key =
     (let chain_id = wallet_chain_id env; message = scoped_signing_message chain_id message0 in
      bindE (lift (derive_public_key L private_key)) (\<lambda>public_key.
      bindE (lift (sign_message L message private_key)) (\<lambda>signature.
      bindE (println (''chain_id:   '' @ chain_id)) (\<lambda>_.
      bindE (println (''message:    '' @ message)) (\<lambda>_.
      bindE (println (''public_key: '' @ public_key)) (\<lambda>_.
      bindE (println (''signature:  '' @ signature)) (\<lambda>_.
      if hybrid_output env then
        bindE (lift (derive_identity L private_key)) (\<lambda>identity.
        bindE (println (''pq_public_key: '' @ hi_pq_public_key identity)) (\<lambda>_.
        bindE (lift (pq_sign_message L message private_key)) (\<lambda>pq_signature.
        bindE (println (''pq_signature:  '' @ pq_signature)) (\<lambda>_.
        println (''hybrid_address: '' @ hi_address identity)))))
      else ret ())))))))"


section \<open>The commands\<close>

definition sign_transfer :: "'x prims_scheme \<Rightarrow> (string \<Rightarrow> string option) \<Rightarrow> string list \<Rightarrow> (string list, unit) exec" where
  "sign_transfer L env args =
     bindE (arg 1 args) (\<lambda>sender.
     bindE (arg 2 args) (\<lambda>to.
     bindE (num_arg 3 ''amount'' args) (\<lambda>amount.
     bindE (num_arg 4 ''nonce'' args) (\<lambda>nonce.
     bindE (arg 5 args) (\<lambda>private_key.
     sign_and_print L env (transfer_signing_message sender to amount nonce) private_key)))))"

definition sign_vest :: "'x prims_scheme \<Rightarrow> (string \<Rightarrow> string option) \<Rightarrow> string list \<Rightarrow> (string list, unit) exec" where
  "sign_vest L env args =
     bindE (arg 1 args) (\<lambda>sender.
     bindE (arg 2 args) (\<lambda>to.
     bindE (num_arg 3 ''amount'' args) (\<lambda>amount.
     bindE (num_arg 4 ''cliff_blocks'' args) (\<lambda>cliff.
     bindE (num_arg 5 ''duration_blocks'' args) (\<lambda>duration.
     bindE (num_arg 6 ''nonce'' args) (\<lambda>nonce.
     bindE (arg 7 args) (\<lambda>private_key.
     sign_and_print L env (vest_signing_message sender to amount cliff duration nonce) private_key)))))))"

definition sign_token_create :: "'x prims_scheme \<Rightarrow> (string \<Rightarrow> string option) \<Rightarrow> string list \<Rightarrow> (string list, unit) exec" where
  "sign_token_create L env args =
     bindE (arg 1 args) (\<lambda>symbol.
     bindE (arg 2 args) (\<lambda>name.
     bindE (u32_arg 3 ''decimals'' args) (\<lambda>decimals.
     bindE (num_arg 4 ''initial_supply'' args) (\<lambda>initial_supply.
     bindE (num_arg 5 ''nonce'' args) (\<lambda>nonce.
     bindE (arg 6 args) (\<lambda>private_key.
     sign_and_print L env (token_create_signing_message symbol name decimals initial_supply nonce) private_key))))))"

definition sign_token_transfer :: "'x prims_scheme \<Rightarrow> (string \<Rightarrow> string option) \<Rightarrow> string list \<Rightarrow> (string list, unit) exec" where
  "sign_token_transfer L env args =
     bindE (arg 1 args) (\<lambda>token_id.
     bindE (arg 2 args) (\<lambda>to.
     bindE (num_arg 3 ''amount'' args) (\<lambda>amount.
     bindE (num_arg 4 ''nonce'' args) (\<lambda>nonce.
     bindE (arg 5 args) (\<lambda>private_key.
     sign_and_print L env (token_transfer_signing_message token_id to amount nonce) private_key)))))"

definition sign_token_burn :: "'x prims_scheme \<Rightarrow> (string \<Rightarrow> string option) \<Rightarrow> string list \<Rightarrow> (string list, unit) exec" where
  "sign_token_burn L env args =
     bindE (arg 1 args) (\<lambda>token_id.
     bindE (num_arg 2 ''amount'' args) (\<lambda>amount.
     bindE (num_arg 3 ''nonce'' args) (\<lambda>nonce.
     bindE (arg 4 args) (\<lambda>private_key.
     sign_and_print L env (token_burn_signing_message token_id amount nonce) private_key))))"

definition sign_amm_add :: "'x prims_scheme \<Rightarrow> (string \<Rightarrow> string option) \<Rightarrow> string list \<Rightarrow> (string list, unit) exec" where
  "sign_amm_add L env args =
     bindE (arg 1 args) (\<lambda>token_id.
     bindE (num_arg 2 ''amount_hkm'' args) (\<lambda>amount_hkm.
     bindE (num_arg 3 ''amount_token'' args) (\<lambda>amount_token.
     bindE (num_arg 4 ''min_shares'' args) (\<lambda>min_shares.
     bindE (num_arg 5 ''nonce'' args) (\<lambda>nonce.
     bindE (arg 6 args) (\<lambda>private_key.
     sign_and_print L env (amm_add_signing_message token_id amount_hkm amount_token min_shares nonce) private_key))))))"

definition sign_amm_remove :: "'x prims_scheme \<Rightarrow> (string \<Rightarrow> string option) \<Rightarrow> string list \<Rightarrow> (string list, unit) exec" where
  "sign_amm_remove L env args =
     bindE (arg 1 args) (\<lambda>token_id.
     bindE (num_arg 2 ''shares'' args) (\<lambda>shares.
     bindE (num_arg 3 ''min_hkm'' args) (\<lambda>min_hkm.
     bindE (num_arg 4 ''min_token'' args) (\<lambda>min_token.
     bindE (num_arg 5 ''nonce'' args) (\<lambda>nonce.
     bindE (arg 6 args) (\<lambda>private_key.
     sign_and_print L env (amm_remove_signing_message token_id shares min_hkm min_token nonce) private_key))))))"

definition sign_amm_swap :: "'x prims_scheme \<Rightarrow> (string \<Rightarrow> string option) \<Rightarrow> string list \<Rightarrow> (string list, unit) exec" where
  "sign_amm_swap L env args =
     bindE (arg 1 args) (\<lambda>token_id.
     bindE (bool_arg 2 ''hkm_to_token'' args) (\<lambda>hkm_to_token.
     bindE (num_arg 3 ''amount_in'' args) (\<lambda>amount_in.
     bindE (num_arg 4 ''min_out'' args) (\<lambda>min_out.
     bindE (num_arg 5 ''nonce'' args) (\<lambda>nonce.
     bindE (arg 6 args) (\<lambda>private_key.
     sign_and_print L env (amm_swap_signing_message token_id hkm_to_token amount_in min_out nonce) private_key))))))"

definition sign_credential :: "'x prims_scheme \<Rightarrow> (string \<Rightarrow> string option) \<Rightarrow> string list \<Rightarrow> (string list, unit) exec" where
  "sign_credential L env args =
     bindE (arg 1 args) (\<lambda>cred.
     bindE (arg 2 args) (\<lambda>subject.
     bindE (arg 3 args) (\<lambda>data_hash.
     bindE (bool_arg 4 ''revoke'' args) (\<lambda>revoke.
     bindE (num_arg 5 ''nonce'' args) (\<lambda>nonce.
     bindE (arg 6 args) (\<lambda>private_key.
     sign_and_print L env (credential_signing_message
       \<lparr>ca_id = cred, ca_subject = subject, ca_data_hash = data_hash, ca_revoke = revoke\<rparr> nonce) private_key))))))"

definition sign_withdraw :: "'x prims_scheme \<Rightarrow> (string \<Rightarrow> string option) \<Rightarrow> string list \<Rightarrow> (string list, unit) exec" where
  "sign_withdraw L env args =
     bindE (arg 1 args) (\<lambda>address.
     bindE (num_arg 2 ''amount'' args) (\<lambda>amount.
     bindE (num_arg 3 ''nonce'' args) (\<lambda>nonce.
     bindE (arg 4 args) (\<lambda>private_key.
     sign_and_print L env (withdraw_signing_message address amount nonce) private_key))))"

definition sign_stake :: "'x prims_scheme \<Rightarrow> (string \<Rightarrow> string option) \<Rightarrow> string list \<Rightarrow> (string list, unit) exec" where
  "sign_stake L env args =
     bindE (arg 1 args) (\<lambda>address.
     bindE (num_arg 2 ''amount'' args) (\<lambda>amount.
     bindE (num_arg 3 ''nonce'' args) (\<lambda>nonce.
     bindE (arg 4 args) (\<lambda>private_key.
     bindE (lift (derive_vrf_public_key L private_key)) (\<lambda>vrf_public_key.
     bindE (println (''vrf_public_key: '' @ vrf_public_key)) (\<lambda>_.
     sign_and_print L env (stake_signing_message address amount nonce vrf_public_key) private_key))))))"

definition sign_block :: "'x prims_scheme \<Rightarrow> (string \<Rightarrow> string option) \<Rightarrow> string list \<Rightarrow> (string list, unit) exec" where
  "sign_block L env args =
     bindE (arg 1 args) (\<lambda>block_hash.
     bindE (arg 2 args) (\<lambda>private_key.
     bindE (lift (sign_block_hash L block_hash private_key)) (\<lambda>signature.
     bindE (println (''block_hash: '' @ block_hash)) (\<lambda>_.
     bindE (println (''signature:  '' @ signature)) (\<lambda>_.
     if hybrid_output env then
       bindE (lift (pq_sign_block_hash L block_hash private_key)) (\<lambda>pq_signature.
       println (''pq_signature: '' @ pq_signature))
     else ret ())))))"

definition vrf_prove_command :: "'x prims_scheme \<Rightarrow> string list \<Rightarrow> (string list, unit) exec" where
  "vrf_prove_command L args =
     bindE (arg 1 args) (\<lambda>input.
     bindE (arg 2 args) (\<lambda>private_key.
     bindE (lift (vrf_prove L input private_key)) (\<lambda>(vrf_output, vrf_proof).
     bindE (println (''slot_input:  '' @ input)) (\<lambda>_.
     bindE (println (''vrf_output:  '' @ vrf_output)) (\<lambda>_.
     println (''vrf_proof:   '' @ vrf_proof))))))"

text \<open>\<open>fresh_key\<close> is the key that \<open>generate_private_key\<close> comes to.\<close>

definition run_wallet ::
  "'x prims_scheme \<Rightarrow> (string \<Rightarrow> string option) \<Rightarrow> string \<Rightarrow> string list \<Rightarrow> (string list, unit) exec" where
  "run_wallet L env fresh_key args =
     (let command = (case args of [] \<Rightarrow> [] | c # _ \<Rightarrow> c) in
      if command = ''keygen'' then keygen L fresh_key
      else if command = ''identity'' then bindE (arg 1 args) (show_identity L)
      else if command = ''address'' then
        bindE (arg 1 args) (\<lambda>public_key.
        bindE (lift (derive_address L public_key)) (\<lambda>address. println (''address: '' @ address)))
      else if command = ''sign-block'' then sign_block L env args
      else if command = ''sign-transfer'' then sign_transfer L env args
      else if command = ''sign-vest'' then sign_vest L env args
      else if command = ''sign-token-create'' then sign_token_create L env args
      else if command = ''sign-token-transfer'' then sign_token_transfer L env args
      else if command = ''sign-token-burn'' then sign_token_burn L env args
      else if command = ''sign-amm-add'' then sign_amm_add L env args
      else if command = ''sign-amm-remove'' then sign_amm_remove L env args
      else if command = ''sign-amm-swap'' then sign_amm_swap L env args
      else if command = ''vrf-prove'' then vrf_prove_command L args
      else if command = ''sign-stake'' then sign_stake L env args
      else if command = ''sign-credential'' then sign_credential L env args
      else if command = ''sign-withdraw'' then sign_withdraw L env args
      else lift (Inl (Err WALLET_USAGE)))"


section \<open>Minting tokens\<close>

text \<open>The exit status with what goes to standard output; 2 is the usage message, 1 a missing key.\<close>

fun mint_options ::
  "string list \<Rightarrow> token_scope option \<Rightarrow> u64 \<Rightarrow> (nat, token_scope option \<times> u64) result" where
  "mint_options [] scope ttl = Inr (scope, ttl)"
| "mint_options [option] scope ttl = Inl (Err 2)"
| "mint_options (option # value # rest) scope ttl =
     (if option = ''--scope'' then
        (case scope_parse value of Some s \<Rightarrow> mint_options rest (Some s) ttl | None \<Rightarrow> Inl (Err 2))
      else if option = ''--ttl'' then
        (case parse_u64 value of Some n \<Rightarrow> mint_options rest scope n | None \<Rightarrow> Inl (Err 2))
      else Inl (Err 2))"

definition signing_key_name :: "token_scope \<Rightarrow> string" where
  "signing_key_name scope = (case scope of Admin \<Rightarrow> ''ADMIN_TOKEN_SIGNING_KEY'' | P2p \<Rightarrow> ''P2P_TOKEN_SIGNING_KEY'')"

definition mint_token ::
  "'x auth_lib_scheme \<Rightarrow> (string \<Rightarrow> string option) \<Rightarrow> u64 \<Rightarrow> string list \<Rightarrow> (nat, string) result" where
  "mint_token L env now args =
     bindR (mint_options args None 86400) (\<lambda>(scope_option, ttl).
     bindR (ok_or scope_option 2) (\<lambda>scope.
     bindR (ok_or (signing_key_from_env L (env (signing_key_name scope))) 1) (\<lambda>key.
     Inr (generate_token L now key scope ttl))))"


section \<open>What the wallet signs\<close>

text \<open>The value printed after a label, and the fields a client copies into its request.\<close>

fun printed :: "string \<Rightarrow> string list \<Rightarrow> string option" where
  "printed label [] = None"
| "printed label (line # lines) = (case strip_prefix label line of Some v \<Rightarrow> Some v | None \<Rightarrow> printed label lines)"

definition copied_fields :: "string list \<Rightarrow> u64 \<Rightarrow> signed_fields" where
  "copied_fields out nonce =
     \<lparr>sf_nonce = nonce, sf_public_key = printed ''public_key: '' out, sf_signature = printed ''signature:  '' out,
      sf_pq_public_key = printed ''pq_public_key: '' out, sf_pq_signature = printed ''pq_signature:  '' out\<rparr>"

text \<open>What the signature libraries promise of a secret, and whose secret it is.\<close>

definition own_signatures :: "'x prims_scheme \<Rightarrow> string \<Rightarrow> bool" where
  "own_signatures L key \<longleftrightarrow>
     (\<forall>m pk sg. derive_public_key L key = Inr pk \<longrightarrow> sign_message L m key = Inr sg \<longrightarrow> verify_message L m pk sg)
     \<and> (\<forall>m pk sg. derive_pq_public_key L key = Inr pk \<longrightarrow> pq_sign_message L m key = Inr sg \<longrightarrow> pq_verify_message L m pk sg)"

definition key_of :: "'x prims_scheme \<Rightarrow> string \<Rightarrow> string \<Rightarrow> bool" where
  "key_of L key account \<longleftrightarrow>
     (case scheme_of account of
        Some Hybrid \<Rightarrow> map_option hi_address (case derive_identity L key of Inr i \<Rightarrow> Some i | Inl _ \<Rightarrow> None) = Some account
      | Some Classical \<Rightarrow> bindR (derive_public_key L key) (derive_address L) = Inr account
      | None \<Rightarrow> False)"

lemma sign_and_print_ok:
  assumes "sign_and_print L env m key [] = (Inr (), out)"
  obtains pk sg where "derive_public_key L key = Inr pk"
    "sign_message L (scoped_signing_message (wallet_chain_id env) m) key = Inr sg"
    "if hybrid_output env
     then \<exists>i psg. derive_identity L key = Inr i
            \<and> pq_sign_message L (scoped_signing_message (wallet_chain_id env) m) key = Inr psg
            \<and> copied_fields out n = \<lparr>sf_nonce = n, sf_public_key = Some pk, sf_signature = Some sg,
                 sf_pq_public_key = Some (hi_pq_public_key i), sf_pq_signature = Some psg\<rparr>
     else copied_fields out n = \<lparr>sf_nonce = n, sf_public_key = Some pk, sf_signature = Some sg,
                 sf_pq_public_key = None, sf_pq_signature = None\<rparr>"
proof (cases "hybrid_output env")
  case True
  then show thesis
    using assms by (auto simp: sign_and_print_def println_def Let_def exec_ok copied_fields_def strip_prefix_def
        starts_with_def intro: that)
next
  case False
  then show thesis
    using assms by (auto simp: sign_and_print_def println_def Let_def exec_ok copied_fields_def strip_prefix_def
        starts_with_def intro: that)
qed

text \<open>The fields copied from the wallet speak for the account, under both kinds of account.\<close>

lemma wallet_signature_verifies:
  assumes ran: "sign_and_print L env m key [] = (Inr (), out)"
    and own: "own_signatures L key" "key_of L key sender" "hybrid_output env \<longleftrightarrow> scheme_of sender = Some Hybrid"
    and tx: "tx_chain_id tx = wallet_chain_id env" "with_signature (copied_fields out (tx_nonce tx)) tx = tx"
  shows "verify_sender_signature L tx sender m = Inr ()"
proof -
  let ?m = "scoped_signing_message (wallet_chain_id env) m" and ?f = "copied_fields out (tx_nonce tx)"
  obtain pk sg where w: "derive_public_key L key = Inr pk" "sign_message L ?m key = Inr sg"
    "if hybrid_output env
     then \<exists>i psg. derive_identity L key = Inr i \<and> pq_sign_message L ?m key = Inr psg
            \<and> ?f = \<lparr>sf_nonce = tx_nonce tx, sf_public_key = Some pk, sf_signature = Some sg,
                 sf_pq_public_key = Some (hi_pq_public_key i), sf_pq_signature = Some psg\<rparr>
     else ?f = \<lparr>sf_nonce = tx_nonce tx, sf_public_key = Some pk, sf_signature = Some sg,
                 sf_pq_public_key = None, sf_pq_signature = None\<rparr>"
    using sign_and_print_ok [OF ran, of "tx_nonce tx"] .
  have fields: "tx_public_key tx = sf_public_key ?f" "tx_signature tx = sf_signature ?f"
    "tx_pq_public_key tx = sf_pq_public_key ?f" "tx_pq_signature tx = sf_pq_signature ?f"
    by (subst tx(2) [symmetric], simp add: with_signature_def)+
  have v: "verify_message L ?m pk sg" using own(1) w(1,2) by (auto simp: own_signatures_def)
  show ?thesis
  proof (cases "hybrid_output env")
    case True
    then obtain i psg where i: "derive_identity L key = Inr i" "pq_sign_message L ?m key = Inr psg"
      "?f = \<lparr>sf_nonce = tx_nonce tx, sf_public_key = Some pk, sf_signature = Some sg,
             sf_pq_public_key = Some (hi_pq_public_key i), sf_pq_signature = Some psg\<rparr>"
      using w(3) by auto
    then have "derive_pq_public_key L key = Inr (hi_pq_public_key i)"
      "derive_hybrid_address L pk (hi_pq_public_key i) = Inr (hi_address i)"
      using w(1) by (auto simp: derive_identity_def exec_ok)
    then show ?thesis
      using True own i fields v tx(1) by (auto simp: verify_sender_signature_ok key_of_def own_signatures_def)
  next
    case False
    then have "scheme_of sender = Some Classical" "derive_address L pk = Inr sender"
      using own(2,3) w(1) by (auto simp: key_of_def exec_ok split: option.splits account_scheme.splits)
    then show ?thesis
      using False w(3) fields v tx(1) by (auto simp: verify_sender_signature_ok)
  qed
qed

end
