(* ===== verification/Admission.thy ===== *)
theory Admission
  imports Production
begin

text \<open>
  What it takes for a transaction to get from the pool into a block: the state against which a node
  admits it is the state its next plan reaches when it comes to it.
\<close>


lemma include_pending_full:
  "MAX_BLOCK_TXS \<le> length ids \<Longrightarrow> include_pending L v h pending (s, txs, ids) = Inr (s, txs, ids)"
  by (cases pending) simp_all

lemma include_pending_append:
  "include_pending L v h (xs @ ys) acc = bindR (include_pending L v h xs acc) (include_pending L v h ys)"
proof (induction xs arbitrary: acc)
  case (Cons x xs)
  obtain s txs ids where acc: "acc = (s, txs, ids)" by (cases acc)
  show ?case
    by (simp add: acc Cons.IH include_pending_full split: sum.split failure.split prod.split)
qed simp

text \<open>The loop of a plan goes through the states the projection of the pool goes through.\<close>

lemma projection_is_the_plan:
  assumes "project_pending_state L s pending h = (Inr t :: (string, chain_state) result)"
    and "\<forall>x\<in>set pending. verify_for_block L x v = Inr ()"
    and "length ids + length pending \<le> MAX_BLOCK_TXS"
  shows "\<exists>txs' ids'. include_pending L v h pending (s, txs, ids) = (Inr (t, txs', ids') :: ('e, _) result)
    \<and> length ids' \<le> length ids + length pending"
  using assms
proof (induction pending arbitrary: s txs ids)
  case (Cons x pending)
  have verified: "verify_for_block L x v = Inr ()" and room: "\<not> MAX_BLOCK_TXS \<le> length ids"
    using Cons.prems by auto
  obtain r u where run: "apply_verified L x h s = (r, u)" by (cases "apply_verified L x h s")
  then have rest: "project_pending_state L u pending h = (Inr t :: (string, chain_state) result)" "r \<noteq> Inl Panic"
    using Cons.prems(1) by (auto split: sum.splits failure.splits)
  show ?case
  proof (cases r)
    case (Inl e)
    then obtain e' where "r = Inl (Err e')" using rest(2) by (cases e) auto
    then show ?thesis using Cons.IH [OF rest(1), of ids txs] Cons.prems verified room run by fastforce
  next
    case (Inr y)
    then show ?thesis
      using Cons.IH [OF rest(1), of "ids @ [tx_id x]" "txs @ [tx_print L x]"] Cons.prems verified room run by fastforce
  qed
qed simp

lemma verifies_for_any: "tx_type tx \<noteq> Reward \<Longrightarrow> verify_for_block L tx v = verify_for_block L tx w"
  by (simp add: verify_for_block_def split: transaction_type.split)

text \<open>As the pool keeps it.\<close>

definition scoped :: "node \<Rightarrow> transaction \<Rightarrow> transaction" where
  "scoped s tx = tx\<lparr>tx_chain_id := cs_chain_id (bc_state (ns_chain s))\<rparr>"

lemma admit_ok:
  assumes "admit L tx s = (Inr added, s1)" "tx_id tx \<notin> tx_id ` set (ns_pending s)"
  shows "\<exists>t u. project_pending_state L (bc_state (ns_chain s)) (ns_pending s) (as_u64 (length (bc_blocks (ns_chain s))))
       = (Inr t :: (string, chain_state) result)
    \<and> apply_verified L tx (as_u64 (length (bc_blocks (ns_chain s)))) t = (Inr (), u)
    \<and> added \<and> s1 = s\<lparr>ns_pending := ns_pending s @ [tx]\<rparr>"
proof -
  have "\<not> list_ex (\<lambda>queued. tx_id queued = tx_id tx) (ns_pending s)"
    using assms(2) by (auto simp: list_ex_iff image_iff)
  moreover have "fst r = Inr () \<longleftrightarrow> (\<exists>u. r = (Inr () :: unit outcome, u :: chain_state))" for r by (cases r) simp
  ultimately show ?thesis using assms(1) by (auto simp: admit_def exec_ok Let_def)
qed

text \<open>What decides whether a transfer is admitted: the state the pool leads to.\<close>

lemma projection_evolves:
  "project_pending_state L s pending h = (Inr t :: ('e, chain_state) result) \<Longrightarrow> evolves s t"
proof (induction pending arbitrary: s)
  case (Cons x pending)
  obtain r u where run: "apply_verified L x h s = (r, u)" by (cases "apply_verified L x h s")
  with Cons.prems have "project_pending_state L u pending h = (Inr t :: ('e, chain_state) result)"
    by (auto split: sum.splits failure.splits)
  with Cons.IH apply_verified_evolves [OF run] show ?case by (blast intro: evolves_trans)
qed simp

definition can_transfer :: "chain_state \<Rightarrow> string \<Rightarrow> string \<Rightarrow> u64 \<Rightarrow> u64 \<Rightarrow> bool" where
  "can_transfer t sender to amount nonce \<longleftrightarrow>
     (cs_require_hybrid_signatures t \<longrightarrow> scheme_of sender = Some Hybrid) \<and> is_valid_address to
     \<and> unat nonce = unat (nonce_of t sender) + 1
     \<and> unat amount + unat (cs_base_fee t) \<le> unat (balance_of t sender)
     \<and> (to = sender \<or> unat (balance_of t to) + unat amount < 2 ^ 64)"

lemma transfer_applies_iff:
  assumes "tx_type tx = Transfer" "tx_from tx = Some a" "tx_chain_id tx = cs_chain_id t"
  shows "fst (apply_verified L tx h t) = Inr () \<longleftrightarrow> can_transfer t a (tx_to tx) (tx_amount tx) (tx_nonce tx)"
proof -
  let ?x = "tx_amount tx" and ?f = "cs_base_fee t" and ?b = "balance_of t a"
  have some: "fst r = Inr () \<longleftrightarrow> (\<exists>u. r = (Inr () :: unit outcome, u :: chain_state))" for r by (cases r) simp
  show ?thesis
    unfolding some can_transfer_def next_nonce_iff
    using assms affordable_iff [of ?x ?f ?b] self_payment_fits(1) [of ?x ?f ?b]
    by (cases "tx_to tx = a") (auto simp: apply_verified_def exec_ok apply_transfer_ok spend_def)
qed

lemma admit_outcome:
  assumes "length (ns_pending s) < MAX_PENDING_TXS" "tx_id tx \<notin> tx_id ` set (ns_pending s)"
    and "project_pending_state L (bc_state (ns_chain s)) (ns_pending s) (as_u64 (length (bc_blocks (ns_chain s))))
      = (Inr t :: (string, chain_state) result)"
  shows "admit L tx s =
    (case fst (apply_verified L tx (as_u64 (length (bc_blocks (ns_chain s)))) t) of
       Inl Panic \<Rightarrow> (Inl Panic, s)
     | Inl (Err e) \<Rightarrow> (Inl (Err (''Transaction not applicable: '' @ e)), s)
     | Inr _ \<Rightarrow> (Inr True, s\<lparr>ns_pending := ns_pending s @ [tx]\<rparr>))"
proof -
  have "\<not> list_ex (\<lambda>queued. tx_id queued = tx_id tx) (ns_pending s)"
    using assms(2) by (auto simp: list_ex_iff image_iff)
  then show ?thesis
    using assms(1,3)
    by (simp add: admit_def Let_def bindE_def gets_def lift_def require_def modify_def ret_def map_err_def
        split: sum.split failure.split)
qed

lemma queue_transaction_scoped:
  "queue_transaction L W tx s =
     bindE (ensure (tx_type tx \<noteq> Reward) ''Reward transactions cannot be submitted'') (\<lambda>_.
     bindE (lift (map_err (\<lambda>e. ''Invalid transaction: '' @ e) (verify_for_block L (scoped s tx) QUEUE_VALIDATOR))) (\<lambda>_.
     bindE (admit L (scoped s tx)) (\<lambda>added.
     if \<not> added then ret ()
     else bindE (persist_state W) (\<lambda>_. spawn (GossipTransaction (scoped s tx)))))) s"
  unfolding scoped_def by (cases "tx_type tx = Reward") (simp_all add: queue_transaction_def Let_def require_def)

lemma queue_transaction_ok:
  assumes "queue_transaction L W tx s = (Inr (), s1)" "tx_id tx \<notin> tx_id ` set (ns_pending s)"
  shows "\<exists>t u. tx_type tx \<noteq> Reward \<and> verify_for_block L (scoped s tx) QUEUE_VALIDATOR = Inr ()
    \<and> project_pending_state L (bc_state (ns_chain s)) (ns_pending s) (as_u64 (length (bc_blocks (ns_chain s))))
       = (Inr t :: (string, chain_state) result)
    \<and> apply_verified L (scoped s tx) (as_u64 (length (bc_blocks (ns_chain s)))) t = (Inr (), u)
    \<and> ns_pending s1 = ns_pending s @ [scoped s tx] \<and> ns_chain s1 = ns_chain s"
proof -
  have "\<exists>added s2. tx_type tx \<noteq> Reward \<and> verify_for_block L (scoped s tx) QUEUE_VALIDATOR = Inr ()
    \<and> admit L (scoped s tx) s = (Inr added, s2)
    \<and> (if \<not> added then ret () else bindE (persist_state W) (\<lambda>_. spawn (GossipTransaction (scoped s tx)))) s2 = (Inr (), s1)"
    using assms(1) unfolding queue_transaction_scoped by (auto simp: exec_ok)
  then obtain added s2 where q: "tx_type tx \<noteq> Reward" "verify_for_block L (scoped s tx) QUEUE_VALIDATOR = Inr ()"
    "admit L (scoped s tx) s = (Inr added, s2)"
    "(if \<not> added then ret () else bindE (persist_state W) (\<lambda>_. spawn (GossipTransaction (scoped s tx)))) s2 = (Inr (), s1)"
    by blast
  have "tx_id (scoped s tx) \<notin> tx_id ` set (ns_pending s)" using assms(2) by (simp add: scoped_def)
  from admit_ok [OF q(3) this] q(1,2,4) show ?thesis
    by (auto simp: bindE_def persist_state_def spawn_def modify_def split: if_splits)
qed

lemma admitted_is_planned:
  assumes queue: "queue_transaction L W tx s = (Inr (), s1)" and fresh: "tx_id tx \<notin> tx_id ` set (ns_pending s)"
    and pool: "\<forall>x\<in>set (ns_pending s). verify_for_block L x (bp_validator plan) = Inr ()"
    and room: "length (ns_pending s) < MAX_BLOCK_TXS"
    and root: "bc_base_height (ns_chain s) = 0"
    and plan: "plan_block L V (ns_chain s1) (ns_pending s1) producer = Inr plan"
  shows "tx_print L (scoped s tx) \<in> set (bp_transactions plan) \<and> tx_id tx \<in> set (bp_included_ids plan)"
proof -
  let ?h = "as_u64 (length (bc_blocks (ns_chain s)))" and ?v = "bp_validator plan"
  obtain t u where q: "tx_type tx \<noteq> Reward" "verify_for_block L (scoped s tx) QUEUE_VALIDATOR = Inr ()"
    "project_pending_state L (bc_state (ns_chain s)) (ns_pending s) ?h = (Inr t :: (string, chain_state) result)"
    "apply_verified L (scoped s tx) ?h t = (Inr (), u)"
    "ns_pending s1 = ns_pending s @ [scoped s tx]" "ns_chain s1 = ns_chain s"
    using queue_transaction_ok [OF queue fresh] by blast
  have verified: "verify_for_block L (scoped s tx) ?v = Inr ()"
    using q(1,2) verifies_for_any [of "scoped s tx" L ?v QUEUE_VALIDATOR] by (simp add: scoped_def)
  obtain txs ids where pre: "include_pending L ?v ?h (ns_pending s) (bc_state (ns_chain s), [], [])
      = (Inr (t, txs, ids) :: _ outcome)" "length ids \<le> length (ns_pending s)"
    using projection_is_the_plan [OF q(3) pool, of "[]" "[]"] room by auto
  then have all: "include_pending L ?v ?h (ns_pending s1) (bc_state (ns_chain s1), [], [])
      = (Inr (u, txs @ [tx_print L (scoped s tx)], ids @ [tx_id (scoped s tx)]) :: _ outcome)"
    using q(4-6) verified room by (simp add: include_pending_append)
  have "next_index (ns_chain s1) = (Inr ?h :: u64 outcome)"
    using root q(6) by (simp add: next_index_def add_u64_ok)
  with plan all show ?thesis unfolding plan_block_ok by (auto simp: scoped_def)
qed


section \<open>A round of mining that succeeded\<close>

lemma matchE_cases:
  "matchE m f g s = (Inr y, t) \<longleftrightarrow>
     (\<exists>x u. m s = (Inr x, u) \<and> f x u = (Inr y, t)) \<or> (\<exists>e u. m s = (Inl (Err e), u) \<and> g e u = (Inr y, t))"
  by (auto simp: matchE_def split: prod.splits sum.splits failure.splits)

lemma no_block_status: "mr_status (no_block status message) = status"
  by (simp add: no_block_def)

lemma finish_mining_success:
  assumes "finish_mining L W d key plan prev built s = (Inr r, t)" "mr_status r = ''success''"
  shows "\<exists>b. seal_block L key plan (bc_state (ns_chain s)) built = Inr b \<and> latest_hash (ns_chain s) = prev
    \<and> bc_blocks (ns_chain t) = bc_blocks (ns_chain s) @ [b]
    \<and> ns_pending t = filter (\<lambda>tx. tx_id tx \<notin> set (bp_included_ids plan)) (ns_pending s)"
proof -
  have tip: "latest_hash (ns_chain s) = prev"
    using assms by (auto simp: finish_mining_def no_block_status split: if_splits)
  obtain b where b: "seal_block L key plan (bc_state (ns_chain s)) built = Inr b"
    using assms tip by (auto simp: finish_mining_def matchE_cases no_block_status)
  then obtain u where u: "extend_chain L W d b s = (Inr (), u)"
    "bindE (gets (\<lambda>s. tip_index (ns_chain s))) (\<lambda>tip.
             bindE (lift tip) (\<lambda>block_index.
             bindE (modify (\<lambda>s. s\<lparr>ns_pending :=
                      filter (\<lambda>tx. tx_id tx \<notin> set (bp_included_ids plan)) (ns_pending s)\<rparr>)) (\<lambda>_.
             bindE (bump mt_blocks_mined mt_blocks_mined_update 1) (\<lambda>_.
             bindE (persist_state W) (\<lambda>_.
             bindE (spawn (GossipBlocks [b])) (\<lambda>_.
             ret \<lparr>mr_status = ''success'',
                  mr_message = ''Successfully mined block '' @ show_u64 block_index @ '' with ''
                    @ dec_string (length (bp_transactions plan)) @ '' transactions. Validator: '' @ lk_address key,
                  mr_block_index = block_index, mr_transactions_count = length (bp_transactions plan)\<rparr>)))))) u = (Inr r, t)"
    using assms tip by (auto simp: finish_mining_def matchE_cases no_block_status)
  have "bc_blocks (ns_chain u) = bc_blocks (ns_chain s) @ [b] \<and> ns_pending u = ns_pending s"
    using u(1) by (auto simp: extend_chain_def exec_ok commit_block_ok apply_finality_ok split: if_splits)
  then show ?thesis using u(2) b tip
    by (auto simp: exec_ok bump_def persist_state_def spawn_def)
qed

lemma mine_success:
  assumes "mine L W mined_at s = (Inr r, t)" "mr_status r = ''success''"
  shows "\<exists>key plan b. ns_validator_key s = Some key
    \<and> plan_block L W (ns_chain s) (ns_pending s) (Some (lk_address key)) = Inr plan
    \<and> mined_from L mined_at key plan (ns_chain s) b \<and> bc_blocks (ns_chain t) = bc_blocks (ns_chain s) @ [b]
    \<and> ns_pending t = filter (\<lambda>tx. tx_id tx \<notin> set (bp_included_ids plan)) (ns_pending s)"
proof -
  obtain key where key: "ns_validator_key s = Some key"
    using assms by (auto simp: mine_def no_block_status split: option.splits)
  obtain x u where x: "plan_mining L W key s = (Inr x, u)"
    using assms key by (auto simp: mine_def exec_ok)
  show ?thesis
  proof (cases x)
    case (Inl response)
    then have "r = response" using assms(1) key x by (simp add: mine_def)
    then show ?thesis using x Inl assms(2)
      by (auto simp: plan_mining_def matchE_cases no_block_status exec_ok split: if_splits)
  next
    case (Inr p)
    obtain plan n prev d where p: "p = (plan, n, prev, d)" by (cases p)
    have plan: "plan_block L W (ns_chain s) (ns_pending s) (Some (lk_address key)) = Inr plan"
      "next_index (ns_chain s) = (Inr n :: u64 outcome)" "prev = latest_hash (ns_chain s)"
      "d = bc_current_difficulty (ns_chain s)" "u = s"
      using x Inr p by (auto simp: plan_mining_def matchE_cases exec_ok split: if_splits)
    obtain built where built: "build_block L mined_at plan n prev d = Inr built"
      "finish_mining L W (gc_finality_depth (ns_governance s)) key plan prev built s = (Inr r, t)"
      using assms key x Inr p plan(5) by (auto simp: mine_def no_block_status split: sum.splits)
    from finish_mining_success [OF built(2) assms(2)] show ?thesis
      using key plan built(1) unfolding mined_from_def by blast
  qed
qed

end
