(* ===== verification/Node_Samples.thy ===== *)
theory Node_Samples
  imports Chain_Samples Message_Rules Gossip Wallet Admission
begin

text \<open>
  Concrete nodes over the sample library: one that has just started on the sample network, and the
  keys and clocks the worked instances use.
\<close>


section \<open>A node on the sample network\<close>

definition no_env :: "string \<Rightarrow> string option" where
  "no_env = (\<lambda>_. None)"

definition home_snapshot :: app_snapshot where
  "home_snapshot = \<lparr>as_chain = home, as_contracts = fmempty, as_pending_transactions = [], as_peers = [],
     as_governance = default_governance, as_slash_evidence = []\<rparr>"

definition idle :: node where
  "idle = \<lparr>ns_chain = home, ns_contracts = fmempty, ns_pending = [], ns_auth = new_auth_manager, ns_peers = [],
     ns_governance = default_governance, ns_evidence = [], ns_metrics = no_metrics, ns_seen = new_seen_cache 8192,
     ns_book = new_peer_book,
     ns_access = \<lparr>ac_p2p_tokens = [], ac_admin_tokens = [], ac_admin_signing_key = None,
                  ac_p2p_signing_key = None, ac_p2p_require_identity = False\<rparr>,
     ns_validator_key = None, ns_treasury_key = None, ns_saved = Some home_snapshot, ns_tasks = []\<rparr>"

definition local_service :: p2p_service where
  "local_service = \<lparr>sv_node_id = ''node-local'', sv_p2p_token = None, sv_node_private_key = None, sv_max_retries = 2\<rparr>"

definition noon :: world where
  "noon = \<lparr>w_now = GENESIS_TIMESTAMP * 1000000000, w_secs = 1000, w_uuid = ''r'', w_disk = True\<rparr>"

lemma home_rebuilds: "rebuild_state chain_lib home = Inr home"
  using new_chain_in_sync [OF home_born] by (simp add: rebuild_state_ok in_sync_def)

lemma home_tip: "tip_index home = (Inr 0 :: ('e, u64) result)" "next_index home = (Inr 1 :: ('e, u64) result)"
  by (simp_all add: tip_index_def next_index_def home_def add_u64_def checked_add_def as_u64_def sat_sub_def)

lemma home_finality: "apply_finality 6 home = (Inr home :: ('e, blockchain) result)"
  by (simp add: apply_finality_ok home_tip) (simp add: home_def sat_sub_def)

lemma idle_boots: "boot chain_lib no_env None (Some home_snapshot) = Inr (idle, local_service)"
  by (simp add: boot_def boot_chain_def home_snapshot_def home_rebuilds boot_key_def nonempty_def no_env_def
      boot_access_def load_token_list_def signing_key_from_env_def switched_on_def boot_service_def with_identity_def
      default_governance_def home_finality boot_peers_def boot_book_def Let_def)
     (simp add: idle_def local_service_def home_snapshot_def default_governance_def)

text \<open>A block submitted to it.\<close>

lemma idle_extends:
  "\<exists>c. length (bc_blocks c) = 2 \<and> ns_chain (serve A chain_lib [(noon, Submit next_block)] idle) = c"
proof -
  obtain t where v: "validate_block_candidate chain_lib (w_now noon) home next_block = Inr t"
    using next_block_valid by (auto simp: noon_def next_block_def)
  let ?c = "home\<lparr>bc_randomness := next_randomness chain_lib (bc_randomness home) ''00'',
      bc_blocks := [home_block, next_block], bc_state := t\<rparr>"
  have c: "commit_block chain_lib next_block t home = (Inr ?c :: blockchain outcome)"
    by (simp add: commit_block_def tip_index_def next_index_def home_def next_block_def exec_ok as_u64_def bindR_def
        add_u64_def checked_add_def retarget_def RETARGET_INTERVAL_def sat_sub_def)
  have tip: "tip_index ?c = (Inr 1 :: _ outcome)"
    by (simp add: tip_index_def next_index_def home_def add_u64_def checked_add_def as_u64_def sat_sub_def)
  then have "apply_finality 6 ?c = (Inr (?c\<lparr>bc_finalized_height := 0\<rparr>) :: blockchain outcome)"
    by (simp add: apply_finality_ok) (simp add: sat_sub_def home_def word_le_nat_alt)
  then have "extend_chain chain_lib noon 6 next_block idle = (Inr (), idle\<lparr>ns_chain := ?c\<lparr>bc_finalized_height := 0\<rparr>\<rparr>)"
    using v c by (simp add: extend_chain_def idle_def)
  moreover have "tip_index (?c\<lparr>bc_finalized_height := 0\<rparr>) = (Inr 1 :: _ outcome)"
    using tip by (simp add: tip_index_def next_index_def)
  ultimately show ?thesis
    by (simp add: quietly_def submit_block_def matchE_def prune_pending_def bump_def persist_state_def spawn_def)
       (simp add: idle_def default_governance_def no_metrics_def add_u64_def checked_add_def)
qed

section \<open>Mining on it\<close>

definition home_key :: local_validator_key where
  "home_key = \<lparr>lk_address = treasury, lk_public_key = ''00'', lk_vrf_public_key = ''00'', lk_private_key = ''00''\<rparr>"

lemma home_reward: "new_reward ''r'' (GENESIS_TIMESTAMP * 1000000000) treasury 1 = reward_tx"
proof -
  have "block_reward 1 = 3700000000"
    by (simp add: word_unat_eq_iff unat_block_reward reward_nat_def)
  then show ?thesis by (simp add: new_reward_def reward_tx_def)
qed

lemma home_plans_with:
  assumes "include_pending chain_lib treasury 1 pending (home_state, [], []) = (Inr (home_state, txs, ids) :: _ outcome)"
  shows "\<exists>plan. plan_block chain_lib noon home pending (Some treasury) = Inr plan \<and> bp_validator plan = treasury"
proof -
  obtain t where "execute_block chain_lib next_block treasury home_state = Inr t"
    using next_block_executes by blast
  moreover have "blk_transactions next_block = [''r'']" "blk_index next_block = 1" by (simp_all add: next_block_def)
  ultimately obtain u n where "execute_transactions chain_lib treasury 1 [''r''] (home_state, 0) = Inr (u, n)"
    and fin: "end_block 1 treasury u = (Inr (), t)"
    by (auto simp: execute_block_ok simp del: execute_transactions.simps)
  then have run: "apply_verified chain_lib reward_tx 1 home_state = (Inr (), u)"
    unfolding execute_transactions_cons execute_transaction_ok by (auto simp: chain_lib_def)
  have r: "rounds_upto (open_rounds (blk_timestamp home_block) (w_now noon)) = [0]"
    using next_block_rounds by (simp add: noon_def next_block_def)
  have "eligible_slot_for chain_lib (w_now noon) home treasury
      = (Inr (Some (0, slot_input_at_round zeros 1 0)) :: _ outcome)"
    using r by (simp add: eligible_slot_for_ok home_tip Let_def) (simp add: home_def home_selects Let_def)
  then show ?thesis
    using run fin
    using assms
    by (auto simp: plan_block_ok home_tip plan_slot_def noon_def home_reward) (simp add: home_def home_state_def founded_def)
qed

lemma home_plans:
  "\<exists>plan. plan_block chain_lib noon home [] (Some treasury) = Inr plan \<and> bp_validator plan = treasury"
  by (rule home_plans_with) simp

lemma home_info: "fmlookup (cs_stakers home_state) treasury
   = Some \<lparr>si_stake = 5000000, si_public_key = ''00'', si_vrf_public_key = ''00'', si_pq_public_key = []\<rparr>"
  by (simp add: home_state_def founded_def)

lemma home_seals:
  "sign_block_hash chain_lib zeros ''00'' = Inr zeros"
  "vrf_prove chain_lib slot ''00'' = Inr (to_hex slot, to_hex slot)"
  using from_hex_zeros to_hex_zero
  by (simp_all add: sign_block_hash_def sign_digest_def vrf_prove_def keypair_from_secret_def chain_lib_def
      sample_lib_def flip: zeros_def)

lemma home_keys_match:
  "keys_match chain_lib ''00'' \<lparr>si_stake = n, si_public_key = ''00'', si_vrf_public_key = ''00'', si_pq_public_key = []\<rparr>
     zeros slot"
proof -
  have "verify_block_signature chain_lib zeros ''00'' zeros" "vrf_verify chain_lib slot ''00'' (to_hex slot) (to_hex slot)"
    using from_hex_zeros
    by (simp_all add: verify_block_signature_def verify_digest_def vrf_verify_def chain_lib_def sample_lib_def
        from_hex_to_hex)
  then show ?thesis by (simp add: keys_match_def home_seals split: sum.split)
qed

lemma home_mines:
  assumes "bp_validator plan = treasury"
  shows "\<exists>b. mined_from chain_lib (w_now noon) home_key plan home b \<and> blk_hash b = zeros"
proof -
  have "mine_block chain_lib d 2 = Inr (0, zeros)" for d
    using sample_mining by (simp add: chain_lib_def zeros_def)
  then obtain built where built: "build_block chain_lib (w_now noon) plan 1 (latest_hash home) 2 = Inr built" "blk_hash built = zeros"
    by (simp add: build_block_def new_at_def clamp_2 Let_def)
  then have "seal_block chain_lib home_key plan home_state built
      = Inr (with_seals built (to_hex (bp_slot_input plan)) (to_hex (bp_slot_input plan)) zeros None)"
    by (simp add: seal_block_def home_key_def home_seals assms home_info with_seals_def Let_def)
  then show ?thesis
    using built by (auto simp: mined_from_def home_tip) (auto simp: home_def)
qed


text \<open>All the network's one validator needs.\<close>

lemma home_staked: "validator_set home_state \<noteq> []"
proof
  assume "validator_set home_state = []"
  with home_selects [of chain_lib zeros] show False by (simp add: select_staker_with_seed_ok)
qed

lemma home_can_produce:
  "can_produce chain_lib home_key \<lparr>si_stake = n, si_public_key = ''00'', si_vrf_public_key = ''00'', si_pq_public_key = []\<rparr>"
  by (simp add: can_produce_def home_key_def home_seals home_keys_match)

lemma home_mineable: "mineable chain_lib (bc_current_difficulty home)"
proof -
  have "candidate_hash chain_lib data 0 = zeros" for data
    by (simp add: candidate_hash_def chain_lib_def to_hex_zero zeros_def)
  then have "leading_zeros 2 (candidate_hash chain_lib data 0)" for data by (simp add: zeros_lead)
  moreover have "bc_current_difficulty home = 2" by (simp add: home_def)
  ultimately show ?thesis by (auto simp: mineable_def clamp_2)
qed

lemma home_reward_readable: "readable chain_lib (new_reward (w_uuid noon) (w_now noon) treasury 1)"
  using home_reward
  by (simp add: noon_def readable_def chain_lib_def) (simp add: sample_lib_def reward_tx_def new_transaction_def)

text \<open>The network's one validator with an entry of the registry in its pool.\<close>

definition miner :: node where
  "miner = idle\<lparr>ns_validator_key := Some home_key\<rparr>"

lemma anchor_runs: "verify_for_block L anchor_tx v = Inr ()" "apply_verified L anchor_tx h home_state = (Inr (), home_state)"
  by (simp_all add: verify_for_block_def verify_certificate_def apply_verified_def verify_chain_scope_def
      verify_signature_policy_def apply_certificate_def anchor_tx_def new_transaction_def require_def home_state_def founded_def)

lemma anchor_readable: "readable chain_lib anchor_tx"
  by (simp add: readable_def chain_lib_def) (simp add: sample_lib_def anchor_tx_def new_transaction_def)

lemma miner_simps [simp]:
  "ns_chain miner = home" "ns_pending miner = []" "ns_validator_key miner = Some home_key" "ns_metrics miner = no_metrics"
  by (simp_all add: miner_def idle_def)

lemma miner_queues:
  "\<exists>s. queue_transaction chain_lib noon anchor_tx miner = (Inr (), s) \<and> ns_pending s = [anchor_tx]
     \<and> ns_chain s = home \<and> ns_validator_key s = Some home_key \<and> ns_metrics s = no_metrics"
proof -
  have "tx_type anchor_tx = Certificate" "anchor_tx\<lparr>tx_chain_id := cs_chain_id (bc_state home)\<rparr> = anchor_tx"
    by (simp_all add: anchor_tx_def new_transaction_def home_def home_state_def founded_def)
  moreover have "bc_state home = home_state" by (simp add: home_def)
  ultimately show ?thesis
    using anchor_runs(1) [of chain_lib QUEUE_VALIDATOR] anchor_runs(2) [of chain_lib]
    by (simp add: queue_transaction_def admit_def Let_def require_def MAX_PENDING_TXS_def)
       (simp add: bindE_def persist_state_def spawn_def)
qed

lemma anchor_texts: "tx_type anchor_tx = Certificate" "tx_id anchor_tx = ''c''" "tx_print chain_lib anchor_tx = ''c''"
  "tx_print chain_lib (anchor_tx\<lparr>tx_chain_id := cid\<rparr>) = ''c''"
  by (simp_all add: chain_lib_def) (simp_all add: sample_lib_def anchor_tx_def new_transaction_def)

lemma home_values:
  "is_difficulty_in_bounds (bc_current_difficulty home)" "blk_timestamp home_block = w_now noon"
  "bc_base_height home = 0" "bc_blocks home = [home_block]" "bc_state home = home_state"
  by (simp_all add: home_def home_block_def noon_def is_difficulty_in_bounds_def MIN_DIFFICULTY_def MAX_DIFFICULTY_def)

lemma miner_mines:
  assumes "ns_pending s = [anchor_tx]" "ns_chain s = home" "ns_validator_key s = Some home_key" "ns_metrics s = no_metrics"
  shows "\<exists>r t. mine chain_lib noon (w_now noon) s = (Inr r, t) \<and> mr_status r = ''success''"
proof -
  have "include_pending chain_lib treasury 1 [anchor_tx] (home_state, [], []) = (Inr (home_state, [''c''], [''c'']) :: _ outcome)"
    by (simp add: anchor_runs anchor_texts MAX_BLOCK_TXS_def)
  from home_plans_with [OF this]
  obtain plan where plan: "plan_block chain_lib noon home [anchor_tx] (Some treasury) = Inr plan" "bp_validator plan = treasury"
    by blast
  obtain b where b: "mined_from chain_lib (w_now noon) home_key plan home b" "blk_hash b = zeros"
    using home_mines [OF plan(2)] by blast
  have pk: "bp_public_key plan = ''00''"
    by (rule plan_blockE [OF plan(1) home_tip(2)]) (simp add: plan(2) home_info home_values)
  have keys: "keys_match chain_lib (lk_private_key home_key)
      \<lparr>si_stake = 5000000, si_public_key = ''00'', si_vrf_public_key = ''00'', si_pq_public_key = []\<rparr> (blk_hash b) (bp_slot_input plan)"
    using home_keys_match b(2) by (simp add: home_key_def)
  have valid: "is_ok (validate_block_candidate chain_lib (w_now noon) (ns_chain s) b)"
    unfolding assms(2)
    by (rule sealed_plan_validates [OF plan(1) b(1) home_tip(2)])
       (use plan(2) keys home_reward_readable anchor_readable in
         \<open>simp_all add: home_info home_values anchor_texts anchor_runs\<close>)
  have "in_sync chain_lib (ns_chain s)" using new_chain_in_sync [OF home_born] assms(2) by simp
  then obtain c h where "extend_chain chain_lib noon (finality_depth_of s) b s = (Inr (), s\<lparr>ns_chain := c\<rparr>)"
    "tip_index c = (Inr h :: u64 outcome)"
    using valid_block_extends [OF _ valid, of "finality_depth_of s"] assms(2) home_values by auto
  then show ?thesis
    using mine_extends [OF assms(3), of chain_lib noon plan "w_now noon" b c h] plan pk b(1) assms
    by (auto simp: home_key_def no_metrics_def)
qed


section \<open>The node's tokens\<close>

definition door :: auth_lib where
  "door = prims.extend (prims.truncate chain_lib)
     (auth_lib.fields to_hex (\<lambda>s. case from_hex s of Inl _ \<Rightarrow> None | Inr x \<Rightarrow> Some x)
        (\<lambda>_ _. zero_digest) (\<lambda>_. True))"

lemma no_dot_to_hex: "CHR ''.'' \<notin> set (to_hex s)"
proof (induction s)
  case (Cons c s)
  have "CHR ''.'' \<noteq> hex_digit n" if "n < 16" for n
  proof
    assume "CHR ''.'' = hex_digit n"
    then have "hex_digit n = CHR ''.''" by simp
    then have "of_char (hex_digit n) = (46 :: nat)" by simp
    then show False using that by (simp add: hex_digit_def split: if_splits)
  qed
  moreover have "(of_char c :: nat) < 256" by simp
  ultimately show ?case using Cons by (simp add: less_mult_imp_div_less)
qed simp

lemma door_simps [simp]:
  "b64_decode door (b64_encode door x) = Some x" "CHR ''.'' \<notin> set (b64_encode door x)"
  "hex_decode door (hex_encode door x) = Inr x" "utf8_valid door x"
  by (simp_all add: door_def prims.defs auth_lib.defs from_hex_to_hex no_dot_to_hex)
     (simp add: chain_lib_def from_hex_to_hex)

definition guarded :: node where
  "guarded = idle\<lparr>ns_access := (ns_access idle)\<lparr>ac_p2p_tokens := [''peers'']\<rparr>\<rparr>"

text \<open>The same node, with a peer of the best score there is.\<close>

definition well_reputed :: node where
  "well_reputed = guarded\<lparr>ns_book := (ns_book guarded)\<lparr>pb_peers := fmupd ''node-b''
     \<lparr>pr_node_id = ''node-b'', pr_score = 50, pr_good = 50, pr_bad = 0, pr_banned_until = 0\<rparr> fmempty\<rparr>\<rparr>"

definition envelope_of :: "string \<Rightarrow> envelope" where
  "envelope_of version = \<lparr>en_protocol_version = version, en_node_id = ''node-b'', en_message_id = ''m'',
     en_timestamp = w_now noon, en_payload = Ping, en_node_public_key = None, en_signature = None\<rparr>"


section \<open>A pool with a transaction that cannot run\<close>

text \<open>State roots that commit to the nonce of the treasury.\<close>

definition nonce_lib :: net_lib where
  "nonce_lib = chain_lib\<lparr>tx_parse := [''r'' \<mapsto> reward_tx, ''t'' \<mapsto> payment 5 1], sha256 := (\<lambda>x. if starts_with ''nonce'' x then x else zero_digest),
     state_print := (\<lambda>s. ''nonce'' @ show_u64 (nonce_of s treasury))\<rparr>"

lemma nonce_lib_prints:
  "state_print nonce_lib u = state_print nonce_lib w \<Longrightarrow> nonce_of u treasury = nonce_of w treasury"
  by (simp add: nonce_lib_def show_u64_inj)

lemma nonce_lib_hash: "inj_on (\<lambda>x. lower_hex nonce_lib (sha256 nonce_lib x)) (state_print nonce_lib ` S)"
proof (rule inj_onI)
  fix x y
  assume "x \<in> state_print nonce_lib ` S" "y \<in> state_print nonce_lib ` S"
    and "lower_hex nonce_lib (sha256 nonce_lib x) = lower_hex nonce_lib (sha256 nonce_lib y)"
  then have "to_hex x = to_hex y" by (auto simp: nonce_lib_def chain_lib_def starts_with_def)
  then have "from_hex (to_hex x) = from_hex (to_hex y)" by simp
  then show "x = y" by (simp add: from_hex_to_hex)
qed

lemma payment_readable: "readable nonce_lib (payment 5 1)"
  by (simp add: readable_def nonce_lib_def chain_lib_def)
     (simp add: sample_lib_def payment_def new_transaction_def)

text \<open>The treasury has bonded all it had: a payment spends its nonce and then fails.\<close>

lemma poor_payment:
  "\<exists>e t. apply_verified L (payment 5 1) 1 home_state = (Inl (Err e), t)
     \<and> nonce_of t treasury \<noteq> nonce_of home_state treasury"
proof -
  have "verify_chain_scope home_state (payment 5 1) = Inr ()" "verify_signature_policy home_state (payment 5 1) = Inr ()"
    by (simp_all add: verify_chain_scope_ok verify_signature_policy_ok home_state_def founded_def)
  moreover have b: "balance_of home_state treasury = 0" "nonce_of home_state treasury = 0"
    "cs_base_fee home_state = 1000"
    by (simp_all add: home_state_def founded_def balance_of_def nonce_of_def fmfind_def fee_bounds_value
        default_chain_state_def)
  moreover have "nonce_of (home_state\<lparr>cs_nonces := fmupd treasury 1 m\<rparr>) treasury = 1"
    "balance_of (home_state\<lparr>cs_nonces := m\<rparr>) treasury = 0" for m
    using b(1) by (simp_all add: nonce_of_def balance_of_def fmfind_def)
  ultimately show ?thesis
    by (simp add: apply_verified_def apply_transfer_def is_valid_address_def consume_nonce_def debit_def
        total_debit_def add_u64_def checked_add_def)
qed

lemma payment_on_nonce_lib: "verify_for_block nonce_lib (payment n k) v = Inr ()"
proof -
  have "derive_address nonce_lib ''00'' = Inr treasury"
  proof -
    have "from_hex ''00'' = Inr [CHR 0x00]" by code_simp
    moreover have "to_hex [CHR 0x00] = ''00''" by (simp add: hex_digit_0)
    moreover have "to_hex (take 20 zero_digest) = replicate 40 CHR ''0''"
      by (simp add: zero_digest_def to_hex_replicate)
    ultimately show ?thesis
      by (simp add: derive_address_def canonical_public_key_def from_lib_def ADDRESS_PREFIX_def treasury_def
          nonce_lib_def chain_lib_def sample_lib_def starts_with_def)
  qed
  then show ?thesis
    by (simp add: verify_for_block_def verify_transfer_def verify_sender_signature_ok)
       (simp add: payment_def new_transaction_def verify_message_def verify_digest_def from_hex_digit_def
         nonce_lib_def chain_lib_def sample_lib_def)
qed

definition stuck_node :: node where
  "stuck_node = idle\<lparr>ns_validator_key := Some home_key, ns_pending := [payment 5 1]\<rparr>"

lemma stuck_node_simps [simp]:
  "ns_chain stuck_node = home" "ns_pending stuck_node = [payment 5 1]" "ns_validator_key stuck_node = Some home_key"
  by (simp_all add: stuck_node_def idle_def)

lemma home_state_of [simp]: "bc_state home = home_state"
  by (simp add: home_def)

lemma payment_scoped: "scoped stuck_node (payment 5 1) = payment 5 1"
  by (simp add: scoped_def home_state_def founded_def default_chain_state_def payment_def new_transaction_def)

lemma home_rewards_readable: "readable nonce_lib (new_reward (w_uuid noon) (w_now noon) (lk_address home_key) 1)"
  using home_reward
  by (simp add: noon_def home_key_def readable_def nonce_lib_def chain_lib_def)
     (simp add: sample_lib_def reward_tx_def new_transaction_def)


section \<open>A wallet on the network\<close>

lemma wallet_keys:
  "derive_public_key chain_lib ''00'' = Inr ''00''" "sign_message chain_lib m ''00'' = Inr zeros"
proof -
  have "from_hex ''00'' = Inr [CHR 0x00]" by code_simp
  moreover have "to_hex [CHR 0x00] = ''00''" by (simp add: hex_digit_0)
  ultimately show "derive_public_key chain_lib ''00'' = Inr ''00''" "sign_message chain_lib m ''00'' = Inr zeros"
    using to_hex_zero
    by (simp_all add: derive_public_key_def sign_message_def sign_digest_def message_digest_def chain_lib_def
        sample_lib_def flip: zeros_def)
qed

lemma chain_lib_hex: "hex_decode chain_lib = from_hex"
  by (simp add: chain_lib_def)

lemma wallet_owns: "own_signatures chain_lib ''00''" "key_of chain_lib ''00'' treasury"
proof -
  have v: "verify_message chain_lib m ''00'' zeros" for m
    using from_hex_zeros by (simp add: verify_message_def verify_digest_def chain_lib_def sample_lib_def)
  have "trim ''00'' = ''00''" by code_simp
  moreover have "from_hex ''00'' = Inr [CHR 0x00]" by code_simp
  ultimately have "derive_pq_public_key chain_lib ''00'' \<noteq> Inr pk" for pk
    by (simp add: chain_lib_hex derive_pq_public_key_def pq_keypair_def derive_pq_seed_def decode_hex_def exec_ok)
  then show "own_signatures chain_lib ''00''" using v by (simp add: own_signatures_def wallet_keys)
  show "key_of chain_lib ''00'' treasury"
    using treasury_key by (simp add: key_of_def wallet_keys) (simp add: chain_lib_def)
qed

lemma wallet_prints:
  "\<exists>out. run_wallet chain_lib no_env fresh [''sign-transfer'', treasury, customer, show_u64 5, show_u64 1, ''00''] []
     = (Inr (), out)"
  by (simp add: run_wallet_def sign_transfer_def num_arg_def arg_def parse_u64_show sign_and_print_def wallet_keys
      println_def Let_def hybrid_output_def no_env_def)

text \<open>A node of that network at whose tip the treasury holds a balance.\<close>

definition wealthy :: node where
  "wealthy = idle\<lparr>ns_chain := home\<lparr>bc_state := (funded 100000)\<lparr>cs_chain_id := DEFAULT_CHAIN_ID\<rparr>\<rparr>\<rparr>"

lemma wealthy_simps:
  "ns_pending wealthy = []" "nonce_of (bc_state (ns_chain wealthy)) treasury = 0"
  "balance_of (bc_state (ns_chain wealthy)) treasury = 100000" "balance_of (bc_state (ns_chain wealthy)) customer = 0"
  "cs_base_fee (bc_state (ns_chain wealthy)) = 1000" "\<not> cs_require_hybrid_signatures (bc_state (ns_chain wealthy))"
  by (simp_all add: wealthy_def idle_def nonce_of_def balance_of_def)
     (simp_all add: funded_def fmfind_def default_chain_state_def)



section \<open>A node that is behind\<close>

definition hosting :: "blockchain \<Rightarrow> node" where
  "hosting c = idle\<lparr>ns_chain := c, ns_access := (ns_access idle)\<lparr>ac_p2p_tokens := [''t'']\<rparr>\<rparr>"

text \<open>The network with that one peer, asked with its token.\<close>

definition one_peer :: "node \<Rightarrow> network" where
  "one_peer p = \<lparr>nw_peers = \<lambda>_. None,
     nw_head = \<lambda>_. case fst (get_p2p_head door noon (Some ''t'') p) of Inr h \<Rightarrow> h | Inl _ \<Rightarrow> None,
     nw_blocks = \<lambda>_ from limit. case fst (get_p2p_blocks_from door noon (Some ''t'') from (Some limit) p) of
                   Inr bs \<Rightarrow> bs | Inl _ \<Rightarrow> None,
     nw_chain = \<lambda>_. None\<rparr>"

definition behind :: node where
  "behind = idle\<lparr>ns_peers := [''p'']\<rparr>"

definition every_ten_seconds :: sync_config where
  "every_ten_seconds = \<lparr>sy_interval = 10, sy_batch = 256, sy_announce_address = None\<rparr>"

lemma hosting_admits: "authorize_p2p door (w_secs noon) (ns_access (hosting c)) (Some ''t'')"
  by (simp add: authorize_p2p_def hosting_def idle_def constant_time_eq_def)

lemma home_head: "\<exists>head. head_of home = (Inr head :: chain_head outcome) \<and> ch_chain_id head = []
    \<and> ch_root_hash head = zeros \<and> ch_base_height head = 0 \<and> ch_height head = 0"
  by (simp add: head_of_def home_tip)
     (simp add: cumulative_work_def home_def home_block_def work_for_difficulty_def)

lemma two_blocks_head:
  assumes "bc_blocks c = [home_block, next_block]" "same_network home c"
  shows "\<exists>head. head_of c = (Inr head :: chain_head outcome) \<and> ch_chain_id head = []
    \<and> ch_root_hash head = zeros \<and> ch_base_height head = 0 \<and> ch_height head = 1"
proof -
  have c: "bc_base_height c = 0" "bc_genesis_chain_id c = []" using assms(2) by (simp_all add: same_network_def home_def)
  have "tip_index c = (Inr 1 :: u64 outcome)"
    using assms(1) c by (simp add: tip_index_def next_index_def add_u64_def checked_add_def as_u64_def sat_sub_def)
  moreover have "cumulative_work c = (Inr 512 :: nat outcome)"
    using assms(1) by (simp add: cumulative_work_def home_block_def next_block_def work_for_difficulty_def)
  ultimately show ?thesis using assms(1) c by (simp add: head_of_def) (simp add: home_block_def)
qed

lemma hosting_answers:
  assumes "head_of c = (Inr head :: chain_head outcome)"
  shows "answers door noon (Some ''t'') (hosting c) (one_peer (hosting c)) peer"
    and "nw_head (one_peer (hosting c)) peer = Some head"
  using hosting_admits [of c] assms
  by (simp_all add: answers_def one_peer_def get_p2p_blocks_from_def get_p2p_head_def bindE_def gets_def ret_def lift_def Let_def)
     (simp add: hosting_def)+

end
