(* ===== verification/Explorer.thy ===== *)
theory Explorer
  imports Operator
begin

text \<open>
  The endpoints that only read (\<open>src/src/api/routes.rs\<close>): accounts, assets, pools, statistics, the
  explorer with its pages and search, what a node shows to its peers and operators, and plain copies. None of
  them changes the node; those that compute a height can panic on an empty chain.
\<close>


section \<open>Accounts and assets\<close>

record balance_response =
  bl_account :: string
  bl_balance :: u64

definition get_token_balance :: "string \<Rightarrow> node \<Rightarrow> balance_response" where
  "get_token_balance account s = \<lparr>bl_account = account, bl_balance = balance_of (bc_state (ns_chain s)) account\<rparr>"

record token_balance_response =
  tb_token_id :: string
  tb_account :: string
  tb_balance :: u64

definition get_token_holding :: "string \<Rightarrow> string \<Rightarrow> node \<Rightarrow> token_balance_response" where
  "get_token_holding token_id account s =
     \<lparr>tb_token_id = token_id, tb_account = account,
      tb_balance = token_balance_of (bc_state (ns_chain s)) token_id account\<rparr>"

text \<open>\<open>BTreeMap::values\<close>: in the order of the keys.\<close>

definition values_of :: "(string, 'a) fmap \<Rightarrow> 'a list" where
  "values_of m = map (\<lambda>k. the (fmlookup m k)) (keys_of m)"

definition list_tokens :: "node \<Rightarrow> token_info list" where
  "list_tokens s = values_of (cs_tokens (bc_state (ns_chain s)))"

definition get_token :: "string \<Rightarrow> node \<Rightarrow> token_info option" where
  "get_token token_id s = fmlookup (cs_tokens (bc_state (ns_chain s))) token_id"

definition list_pools :: "node \<Rightarrow> pool list" where
  "list_pools s = values_of (cs_pools (bc_state (ns_chain s)))"

definition get_pool :: "string \<Rightarrow> node \<Rightarrow> pool option" where
  "get_pool token_id s = fmlookup (cs_pools (bc_state (ns_chain s))) token_id"

record lp_position_response =
  lr_token_id :: string
  lr_account :: string
  lr_shares :: u64
  lr_total_shares :: u64

definition get_lp_position :: "string \<Rightarrow> string \<Rightarrow> node \<Rightarrow> lp_position_response" where
  "get_lp_position token_id account s =
     (let state = bc_state (ns_chain s) in
      \<lparr>lr_token_id = token_id, lr_account = account, lr_shares = lp_shares_of state token_id account,
       lr_total_shares = (case fmlookup (cs_pools state) token_id of None \<Rightarrow> 0 | Some p \<Rightarrow> pl_total_shares p)\<rparr>)"

record fees_response =
  fr_base_fee :: u64
  fr_target_txs :: u64
  fr_max_block_txs :: nat

definition get_fees :: "node \<Rightarrow> fees_response" where
  "get_fees s = \<lparr>fr_base_fee = cs_base_fee (bc_state (ns_chain s)), fr_target_txs = BASE_FEE_TARGET_TXS,
                 fr_max_block_txs = MAX_BLOCK_TXS\<rparr>"

record validator_info =
  va_address :: string
  va_stake :: u64
  va_public_key :: "string option"

definition list_validators :: "node \<Rightarrow> validator_info list" where
  "list_validators s =
     map (\<lambda>v. \<lparr>va_address = st_address v, va_stake = st_stake v, va_public_key = st_public_key v\<rparr>)
       (validator_set (bc_state (ns_chain s)))"

text \<open>A credential with what the chain commits to.\<close>

record credential_proof =
  cx_status :: string
  cx_credential :: "credential_record option"
  cx_height :: u64
  cx_state_root :: string
  cx_block_hash :: string

definition get_credential_proof :: "'x node_lib_scheme \<Rightarrow> string \<Rightarrow> node \<Rightarrow> credential_proof outcome" where
  "get_credential_proof L cred s =
     (let chain = ns_chain s; credential = fmlookup (cs_credentials (bc_state chain)) cred in
      bindR (tip_index chain) (\<lambda>height.
      Inr \<lparr>cx_status = (if credential \<noteq> None then ''success'' else ''error''), cx_credential = credential,
           cx_height = height, cx_state_root = state_root L (bc_state chain), cx_block_hash = latest_hash chain\<rparr>))"


section \<open>Statistics\<close>

record blockchain_stats =
  bt_total_blocks :: nat
  bt_pending_transactions :: nat
  bt_difficulty :: u64
  bt_is_valid :: bool
  bt_latest_hash :: string
  bt_finalized_height :: u64
  bt_finality_depth :: u64
  bt_state_root :: string
  bt_total_supply :: u64
  bt_burned :: u64
  bt_base_fee :: u64

definition get_blockchain_stats :: "'x node_lib_scheme \<Rightarrow> node \<Rightarrow> blockchain_stats" where
  "get_blockchain_stats L s =
     (let chain = ns_chain s; state = bc_state chain in
      \<lparr>bt_total_blocks = length (bc_blocks chain), bt_pending_transactions = length (ns_pending s),
           bt_difficulty = bc_difficulty chain, bt_is_valid = quick_integrity L chain, bt_latest_hash = latest_hash chain,
           bt_finalized_height = bc_finalized_height chain,
           bt_finality_depth = gc_finality_depth (ns_governance s), bt_state_root = state_root L state,
           bt_total_supply = cs_total_supply state, bt_burned = cs_burned state,
           bt_base_fee = cs_base_fee state\<rparr>)"

record state_summary =
  sm_chain_id :: string
  sm_height :: u64
  sm_state_root :: string
  sm_total_supply :: u64
  sm_burned :: u64
  sm_staked :: u64
  sm_validators :: nat
  sm_accounts :: nat

definition get_state_summary :: "'x node_lib_scheme \<Rightarrow> node \<Rightarrow> state_summary outcome" where
  "get_state_summary L s =
     (let chain = ns_chain s; state = bc_state chain in
      bindR (tip_index chain) (\<lambda>height.
      Inr \<lparr>sm_chain_id = cs_chain_id state, sm_height = height, sm_state_root = state_root L state,
           sm_total_supply = cs_total_supply state, sm_burned = cs_burned state,
           sm_staked = balance_of state STAKING_POOL_ACCOUNT, sm_validators = length (validator_set state),
           sm_accounts = length (keys_of (cs_balances state))\<rparr>))"

record tip_snapshot =
  tn_height :: u64
  tn_block_hash :: string
  tn_state_root :: string
  tn_randomness :: string
  tn_current_difficulty :: u64
  tn_total_supply :: u64
  tn_finalized_height :: u64
  tn_state :: chain_state

definition get_snapshot :: "'x node_lib_scheme \<Rightarrow> node \<Rightarrow> tip_snapshot outcome" where
  "get_snapshot L s =
     (let chain = ns_chain s in
      bindR (tip_index chain) (\<lambda>height.
      Inr \<lparr>tn_height = height, tn_block_hash = latest_hash chain, tn_state_root = state_root L (bc_state chain),
           tn_randomness = bc_randomness chain, tn_current_difficulty = bc_current_difficulty chain,
           tn_total_supply = cs_total_supply (bc_state chain), tn_finalized_height = bc_finalized_height chain,
           tn_state = bc_state chain\<rparr>))"

definition validate_chain :: "'x node_lib_scheme \<Rightarrow> node \<Rightarrow> api_response outcome" where
  "validate_chain L s =
     bindR (is_valid L (ns_chain s)) (\<lambda>valid.
     Inr (if valid then success ''Blockchain is valid.'' else failed ''Blockchain is invalid!''))"


section \<open>The explorer\<close>

record overview =
  ow_total_blocks :: nat
  ow_finalized_height :: u64
  ow_pending_transactions :: nat
  ow_difficulty :: u64
  ow_latest_hash :: string
  ow_peers :: nat
  ow_validators :: nat
  ow_chain_valid :: bool

definition get_explorer_overview :: "'x node_lib_scheme \<Rightarrow> node \<Rightarrow> overview" where
  "get_explorer_overview L s =
     (let chain = ns_chain s in
      \<lparr>ow_total_blocks = length (bc_blocks chain), ow_finalized_height = bc_finalized_height chain,
       ow_pending_transactions = length (ns_pending s), ow_difficulty = bc_difficulty chain,
       ow_latest_hash = latest_hash chain, ow_peers = length (ns_peers s),
       ow_validators = length (validator_set (bc_state chain)), ow_chain_valid = quick_integrity L chain\<rparr>)"

record block_summary =
  bs_index :: u64
  bs_hash :: string
  bs_previous_hash :: string
  bs_timestamp :: string
  bs_tx_count :: nat
  bs_validator :: "string option"
  bs_difficulty :: u64
  bs_nonce :: u64

definition to_block_summary :: "'x prims_scheme \<Rightarrow> block \<Rightarrow> block_summary" where
  "to_block_summary L b =
     \<lparr>bs_index = blk_index b, bs_hash = blk_hash b, bs_previous_hash = blk_previous_hash b,
      bs_timestamp = time_rfc3339 L (blk_timestamp b), bs_tx_count = length (blk_transactions b),
      bs_validator = blk_validator b, bs_difficulty = blk_difficulty b, bs_nonce = blk_nonce b\<rparr>"

record block_detail =
  bd_block :: block
  bd_pow_valid :: bool

definition to_block_detail :: "'x prims_scheme \<Rightarrow> block \<Rightarrow> block_detail" where
  "to_block_detail L b = \<lparr>bd_block = b, bd_pow_valid = has_valid_pow L b\<rparr>"

text \<open>The requested offset and the number of blocks of a page.\<close>

definition sanitize_pagination :: "nat option \<Rightarrow> nat option \<Rightarrow> nat \<times> nat" where
  "sanitize_pagination offset limit =
     (case offset of None \<Rightarrow> 0 | Some n \<Rightarrow> n, max 1 (min 100 (case limit of None \<Rightarrow> 20 | Some n \<Rightarrow> n)))"

record block_list =
  bx_total :: nat
  bx_offset :: nat
  bx_limit :: nat
  bx_blocks :: "block_summary list"

definition get_explorer_blocks :: "'x prims_scheme \<Rightarrow> nat option \<Rightarrow> nat option \<Rightarrow> node \<Rightarrow> block_list" where
  "get_explorer_blocks L offset_param limit_param s =
     (let blocks = bc_blocks (ns_chain s);
          (offset, limit) = sanitize_pagination offset_param limit_param;
          total = length blocks;
          safe_offset = min offset total;
          last_one = min (safe_offset + limit) total;
          page = map (to_block_summary L) (take (last_one - safe_offset) (drop safe_offset (rev blocks)))
      in \<lparr>bx_total = total, bx_offset = safe_offset, bx_limit = limit,
          bx_blocks = sort_key (\<lambda>b. - uint (bs_index b)) page\<rparr>)"

definition get_explorer_block_by_index :: "'x prims_scheme \<Rightarrow> nat \<Rightarrow> node \<Rightarrow> block_detail option" where
  "get_explorer_block_by_index L index s =
     (let blocks = bc_blocks (ns_chain s) in
      if index < length blocks then Some (to_block_detail L (blocks ! index)) else None)"

definition get_explorer_block_by_hash :: "'x prims_scheme \<Rightarrow> string \<Rightarrow> node \<Rightarrow> block_detail option" where
  "get_explorer_block_by_hash L hash s =
     (if 128 < length hash \<or> hash = [] then None
      else map_option (to_block_detail L) (find (\<lambda>b. blk_hash b = hash) (bc_blocks (ns_chain s))))"

record search_response =
  sx_query :: string
  sx_block_by_hash :: "block_detail option"
  sx_block_by_index :: "block_detail option"
  sx_pending_matches :: "transaction list"

definition matches_query :: "string \<Rightarrow> transaction \<Rightarrow> bool" where
  "matches_query query tx \<longleftrightarrow>
     tx_id tx = query \<or> starts_with query (tx_id tx) \<or> contains query (tx_to tx)
     \<or> (case tx_from tx of None \<Rightarrow> False | Some sender \<Rightarrow> contains query sender)"

definition search_explorer :: "'x prims_scheme \<Rightarrow> string \<Rightarrow> node \<Rightarrow> search_response" where
  "search_explorer L query s =
     (if 128 < length query then
        \<lparr>sx_query = query, sx_block_by_hash = None, sx_block_by_index = None, sx_pending_matches = []\<rparr>
      else
        \<lparr>sx_query = query,
         sx_block_by_hash = map_option (to_block_detail L)
           (find (\<lambda>b. blk_hash b = query \<or> starts_with query (blk_hash b)) (bc_blocks (ns_chain s))),
         sx_block_by_index = Option.bind (parse_u64 query) (\<lambda>n. get_explorer_block_by_index L (unat n) s),
         sx_pending_matches = filter (matches_query query) (ns_pending s)\<rparr>)"


section \<open>What peers and operators may read\<close>

definition list_peers :: "'y auth_lib_scheme \<Rightarrow> world \<Rightarrow> string option \<Rightarrow> node \<Rightarrow> string list" where
  "list_peers A W supplied s = (if authorize_p2p A (w_secs W) (ns_access s) supplied then ns_peers s else [])"

definition get_peer_scores :: "'y auth_lib_scheme \<Rightarrow> world \<Rightarrow> string option \<Rightarrow> node \<Rightarrow> peer_record list" where
  "get_peer_scores A W supplied s =
     (if authorize_p2p A (w_secs W) (ns_access s) supplied then snapshot (ns_book s) else [])"

definition list_slash_evidence ::
  "'y auth_lib_scheme \<Rightarrow> world \<Rightarrow> string option \<Rightarrow> node \<Rightarrow> recorded_evidence list" where
  "list_slash_evidence A W supplied s =
     (if authorize_admin A (w_secs W) (ns_access s) supplied then ns_evidence s else [])"

datatype status_code = UNAUTHORIZED | BAD_REQUEST

definition get_checkpoint_bundle ::
  "'y auth_lib_scheme \<Rightarrow> 'x node_lib_scheme \<Rightarrow> world \<Rightarrow> string option \<Rightarrow> node
   \<Rightarrow> (status_code \<times> string, checkpoint_bundle) result" where
  "get_checkpoint_bundle A L W supplied s =
     (if \<not> authorize_p2p A (w_secs W) (ns_access s) supplied then Inl (Err (UNAUTHORIZED, ''Unauthorized''))
      else map_err (Pair BAD_REQUEST) (export_bundle L (ns_chain s)))"



section \<open>Plain copies\<close>

text \<open>The first endpoints answer with Rust's Debug text, which is an argument.\<close>

definition get_blocks :: "(block \<Rightarrow> string) \<Rightarrow> node \<Rightarrow> string list" where
  "get_blocks debug s = map debug (bc_blocks (ns_chain s))"

definition get_block_by_index :: "(block \<Rightarrow> string) \<Rightarrow> nat \<Rightarrow> node \<Rightarrow> string option" where
  "get_block_by_index debug index s =
     (if index < length (bc_blocks (ns_chain s)) then Some (debug (bc_blocks (ns_chain s) ! index)) else None)"

definition get_pending_transactions :: "(transaction \<Rightarrow> string) \<Rightarrow> node \<Rightarrow> string list" where
  "get_pending_transactions debug s = map debug (ns_pending s)"

definition get_pending_transactions_structured :: "node \<Rightarrow> transaction list" where
  "get_pending_transactions_structured s = ns_pending s"

definition get_governance :: "node \<Rightarrow> governance_config" where
  "get_governance s = \<lparr>gc_slash_percent = gc_slash_percent (ns_governance s),
                       gc_finality_depth = gc_finality_depth (ns_governance s)\<rparr>"

definition get_mining_difficulty :: "node \<Rightarrow> u64" where
  "get_mining_difficulty s = bc_current_difficulty (ns_chain s)"

definition get_metrics :: "node \<Rightarrow> metrics" where
  "get_metrics s = ns_metrics s"

end
