(* ===== verification/Poison.thy ===== *)
theory Poison
  imports Admission Node_Runs History
begin

text \<open>
  A pool that keeps a validator from producing blocks. The loop of a plan goes on from what a failed
  transaction has written, and the block it plans does not hold that transaction: here is what
  the two executions, of the plan and of its block, make of the nonces.
\<close>


section \<open>What an accepted transaction does to the nonces\<close>

text \<open>Only the nonce of the sender moves, to the one the transaction names.\<close>

definition nonce_moves :: "transaction \<Rightarrow> string \<Rightarrow> chain_state \<Rightarrow> chain_state \<Rightarrow> bool" where
  "nonce_moves tx b s t \<longleftrightarrow> nonce_of t b = nonce_of s b \<or> tx_from tx = Some b \<and> nonce_of t b = tx_nonce tx"

lemma updates_keep_nonces:
  "cs_nonces (punish to i info n s) = cs_nonces s" "cs_nonces (reduce_token_supply k n s) = cs_nonces s"
  "cs_nonces (drop_token_units k a n s) = cs_nonces s" "cs_nonces (set_token_balance k a v s) = cs_nonces s"
  by (simp_all add: punish_def Let_def deduct_unbonding_def set_staker_def reduce_token_supply_def
      drop_token_units_def set_token_balance_def split: option.split)

lemma steps_keep_nonces:
  "debit a n s = (Inr (), t) \<Longrightarrow> cs_nonces t = cs_nonces s"
  "credit a n s = (Inr (), t) \<Longrightarrow> cs_nonces t = cs_nonces s"
  "try_credit a n s = (Inr (), t) \<Longrightarrow> cs_nonces t = cs_nonces s"
  "debit_token k a n s = (Inr (), t) \<Longrightarrow> cs_nonces t = cs_nonces s"
  "credit_token k a n s = (Inr (), t) \<Longrightarrow> cs_nonces t = cs_nonces s"
  "tok.move k a b n s = (Inr (), t) \<Longrightarrow> cs_nonces t = cs_nonces s"
  "burn_shares k a n s = (Inr (), t) \<Longrightarrow> cs_nonces t = cs_nonces s"
  "grant_shares k a n s = (Inr (), t) \<Longrightarrow> cs_nonces t = cs_nonces s"
  "shrink_pool k h u m s = (Inr (), t) \<Longrightarrow> cs_nonces t = cs_nonces s"
  "grow_pool k h u m first s = (Inr (), t) \<Longrightarrow> cs_nonces t = cs_nonces s"
  "swap_reserves k d x out s = (Inr (), t) \<Longrightarrow> cs_nonces t = cs_nonces s"
  "register_stake tx a pk vk s = (Inr (), t) \<Longrightarrow> cs_nonces t = cs_nonces s"
  by (auto simp: register_stake_ok set_staker_def exec_ok updates_keep_nonces tok.move_def burn_shares_ok take_shares_def grant_shares_ok
      set_lp_shares_def drop_lp_shares_def shrink_pool_ok grow_pool_ok swap_reserves_ok set_pool_def)

lemma payments_spend_nonces:
  "cs_nonces (pay_fee a n s) = fmupd a n (cs_nonces s)" "cs_nonces (pay_amount a n m s) = fmupd a n (cs_nonces s)"
  by (simp_all add: pay_fee_def pay_amount_def spend_def)

lemma nonce_movesI:
  "tx_from tx \<noteq> None \<Longrightarrow> cs_nonces t = fmupd (the (tx_from tx)) (tx_nonce tx) (cs_nonces s) \<Longrightarrow> nonce_moves tx b s t"
  by (auto simp: nonce_moves_def nonce_of_def fmfind_def)

lemma account_arms_nonces:
  "apply_transfer tx s = (Inr (), t) \<Longrightarrow> nonce_moves tx b s t"
  "apply_stake tx s = (Inr (), t) \<Longrightarrow> nonce_moves tx b s t"
  "apply_withdraw L tx h s = (Inr (), t) \<Longrightarrow> nonce_moves tx b s t"
  "apply_vest tx h s = (Inr (), t) \<Longrightarrow> nonce_moves tx b s t"
  by (auto simp: apply_transfer_ok apply_stake_ok apply_withdraw_ok apply_vest_ok exec_ok payments_spend_nonces
      spend_def set_staker_def dest!: steps_keep_nonces(12) intro!: nonce_movesI)

lemma token_arms_nonces:
  "apply_token_create L tx h s = (Inr (), t) \<Longrightarrow> nonce_moves tx b s t"
  "apply_token_transfer tx s = (Inr (), t) \<Longrightarrow> nonce_moves tx b s t"
  "apply_token_burn tx s = (Inr (), t) \<Longrightarrow> nonce_moves tx b s t"
  by (auto simp: apply_token_create_ok apply_token_transfer_ok apply_token_burn_ok updates_keep_nonces
      payments_spend_nonces dest!: steps_keep_nonces(4,6) intro!: nonce_movesI)

lemma pool_arms_nonces:
  "apply_add_liquidity tx s = (Inr (), t) \<Longrightarrow> nonce_moves tx b s t"
  "apply_remove_liquidity tx s = (Inr (), t) \<Longrightarrow> nonce_moves tx b s t"
  "apply_swap tx s = (Inr (), t) \<Longrightarrow> nonce_moves tx b s t"
  by (auto simp: apply_add_liquidity_ok apply_remove_liquidity_ok apply_swap_ok payments_spend_nonces split: if_splits
      dest!: steps_keep_nonces intro!: nonce_movesI)

lemma other_arms_nonces:
  "apply_reward tx s = (Inr (), t) \<Longrightarrow> cs_nonces t = cs_nonces s"
  "apply_slash tx h s = (Inr (), t) \<Longrightarrow> cs_nonces t = cs_nonces s"
  "apply_certificate L tx s = (Inr (), t) \<Longrightarrow> tx_credential tx = None \<Longrightarrow> cs_nonces t = cs_nonces s"
  "apply_certificate L tx s = (Inr (), t) \<Longrightarrow> tx_credential tx \<noteq> None \<Longrightarrow> nonce_moves tx b s t"
  by (auto simp: apply_certificate_ok apply_reward_ok apply_slash_ok updates_keep_nonces intro!: nonce_movesI)

lemma accepted_nonces:
  assumes "apply_verified L tx h s = (Inr (), t)"
  shows "nonce_of t b = nonce_of s b \<or> spends_nonce tx \<and> tx_from tx = Some b \<and> nonce_of t b = tx_nonce tx"
proof -
  have *: "(case tx_type tx of
       Transfer \<Rightarrow> apply_transfer tx | Stake \<Rightarrow> apply_stake tx | Withdraw \<Rightarrow> apply_withdraw L tx h
     | Vest \<Rightarrow> apply_vest tx h | Reward \<Rightarrow> apply_reward tx | TokenCreate \<Rightarrow> apply_token_create L tx h
     | TokenTransfer \<Rightarrow> apply_token_transfer tx | TokenBurn \<Rightarrow> apply_token_burn tx
     | AddLiquidity \<Rightarrow> apply_add_liquidity tx | RemoveLiquidity \<Rightarrow> apply_remove_liquidity tx
     | Swap \<Rightarrow> apply_swap tx | Certificate \<Rightarrow> apply_certificate L tx | Slash \<Rightarrow> apply_slash tx h) s = (Inr (), t)"
    using assms by (auto simp: apply_verified_def exec_ok)
  have "nonce_moves tx b s t" if "spends_nonce tx"
    using * that
    by (cases "tx_type tx")
       (simp_all add: spends_nonce_def, (blast intro: account_arms_nonces token_arms_nonces pool_arms_nonces
         other_arms_nonces(4))+)
  moreover have "cs_nonces t = cs_nonces s" if "\<not> spends_nonce tx"
    using * that
    by (cases "tx_type tx") (simp_all add: spends_nonce_def, (blast intro: other_arms_nonces(1-3))+)
  ultimately show ?thesis
    by (cases "spends_nonce tx") (simp_all add: nonce_moves_def, simp add: nonce_of_def)
qed

text \<open>
  A transaction that two states accept: what one account's nonce has over the other's stays, and a
  nonce that differs is not the one it spends.
\<close>

lemma accepted_twice:
  assumes one: "apply_verified L tx h s = (Inr (), t)" and two: "apply_verified L tx h u = (Inr (), w)"
  shows "nonce_of u a \<le> nonce_of s a \<Longrightarrow> nonce_of w a \<le> nonce_of t a"
    and "nonce_of u a < nonce_of s a \<Longrightarrow> nonce_of w a < nonce_of t a"
proof -
  note moves = accepted_nonces [OF one, of a] accepted_nonces [OF two, of a]
  show "nonce_of w a \<le> nonce_of t a" if "nonce_of u a \<le> nonce_of s a"
  proof (cases "spends_nonce tx \<and> tx_from tx = Some a")
    case True
    note spends = apply_verified_spends [of tx a, unfolded spends_def, rule_format]
    have "tx_nonce tx \<le> nonce_of t a" "tx_nonce tx = nonce_of u a + 1" "unat (nonce_of u a) + 1 < 2 ^ 64"
      using spends [OF _ _ one] spends [OF _ _ two] True by blast+
    moreover have "nonce_of w a = nonce_of u a \<or> nonce_of w a = tx_nonce tx"
      using moves(2) by blast
    ultimately show ?thesis by (auto simp: word_le_nat_alt unat_plus)
  next
    case False
    then show ?thesis using moves that by auto
  qed
  show "nonce_of w a < nonce_of t a" if "nonce_of u a < nonce_of s a"
  proof (cases "spends_nonce tx \<and> tx_from tx = Some a")
    case True
    note spends = apply_verified_spends [of tx a, unfolded spends_def, rule_format]
    have "nonce_of s a = nonce_of u a"
      using spends [OF _ _ one] spends [OF _ _ two] True by (metis add_right_cancel)
    with that show ?thesis by simp
  next
    case False
    then show ?thesis using moves that by auto
  qed
qed


section \<open>The pool that is planned and the block that is executed\<close>

text \<open>
  The loop of a plan, with \<open>k\<close> transactions in the block so far, comes to a transaction that
  verifies and fails after it has moved the nonce of \<open>a\<close>.
\<close>

fun spoils ::
  "'x prims_scheme \<Rightarrow> string \<Rightarrow> u64 \<Rightarrow> string \<Rightarrow> transaction list \<Rightarrow> chain_state \<Rightarrow> nat \<Rightarrow> bool" where
  "spoils L v h a [] s k = False"
| "spoils L v h a (tx # pool) s k =
     (k < MAX_BLOCK_TXS \<and>
      (case verify_for_block L tx v of
         Inl _ \<Rightarrow> spoils L v h a pool s k
       | Inr _ \<Rightarrow>
           (case apply_verified L tx h s of
              (Inl _, t) \<Rightarrow> nonce_of t a \<noteq> nonce_of s a \<or> spoils L v h a pool t k
            | (Inr _, t) \<Rightarrow> spoils L v h a pool t (k + 1))))"

text \<open>Whatever comes in behind such a transaction changes nothing.\<close>

lemma spoils_append: "spoils L v h a pool s k \<Longrightarrow> spoils L v h a (pool @ late) s k"
proof (induction pool arbitrary: s k)
  case (Cons tx pool)
  then show ?case by (fastforce split: sum.splits prod.splits)
qed simp

definition lags :: "string \<Rightarrow> bool \<Rightarrow> chain_state \<Rightarrow> chain_state \<Rightarrow> bool" where
  "lags a strictly w t \<longleftrightarrow> nonce_of w a \<le> nonce_of t a \<and> (strictly \<longrightarrow> nonce_of w a < nonce_of t a)"

lemma lags_past_failure:
  assumes "lags a strictly w s" "evolves s t"
  shows "lags a (strictly \<or> nonce_of t a \<noteq> nonce_of s a) w t"
proof -
  have grows: "nonce_of s a \<le> nonce_of t a" using assms(2) by (simp add: evolves_def)
  have "nonce_of w a < nonce_of t a" if "strictly \<or> nonce_of t a \<noteq> nonce_of s a"
  proof (cases strictly)
    case True
    then show ?thesis using assms(1) grows by (auto simp: lags_def intro: order.strict_trans2)
  next
    case False
    then have "nonce_of s a < nonce_of t a" using that grows by (simp add: less_le)
    then show ?thesis using assms(1) by (auto simp: lags_def intro: order.strict_trans1)
  qed
  then show ?thesis using assms(1) grows by (auto simp: lags_def intro: order_trans)
qed

lemma included_nonces:
  assumes "include_pending L v h pool (s, txs, ids) = (Inr (t, txs', ids') :: ('e, _) result)"
    and "list_all (readable L) pool"
  shows "\<exists>more. txs' = txs @ more \<and> (\<forall>w k u m strictly. execute_transactions L v h more (w, k) = Inr (u, m)
    \<longrightarrow> lags a strictly w s \<longrightarrow> lags a (strictly \<or> spoils L v h a pool s (length ids)) u t)"
  using assms
proof (induction pool arbitrary: s txs ids)
  case Nil
  then show ?case by simp
next
  case (Cons tx pool)
  note IH = Cons.IH [OF _ conjunct2 [OF Cons.prems(2) [unfolded list.pred_inject(2)]]]
  consider (full) "MAX_BLOCK_TXS \<le> length ids" | (refused) e where "\<not> MAX_BLOCK_TXS \<le> length ids" "verify_for_block L tx v = Inl e"
    | (fails) e u where "\<not> MAX_BLOCK_TXS \<le> length ids" "verify_for_block L tx v = Inr ()" "apply_verified L tx h s = (Inl e, u)"
    | (runs) u where "\<not> MAX_BLOCK_TXS \<le> length ids" "verify_for_block L tx v = Inr ()" "apply_verified L tx h s = (Inr (), u)"
    by (cases "verify_for_block L tx v"; cases "apply_verified L tx h s"; cases "fst (apply_verified L tx h s)") auto
  then show ?case
  proof cases
    case full
    with Cons.prems show ?thesis by simp
  next
    case refused
    with Cons.prems(1) have "include_pending L v h pool (s, txs, ids) = (Inr (t, txs', ids') :: ('e, _) result)"
      by (cases e) auto
    from IH [OF this] refused show ?thesis by simp
  next
    case fails
    with Cons.prems(1) have "include_pending L v h pool (u, txs, ids) = (Inr (t, txs', ids') :: ('e, _) result)"
      by (cases e) auto
    from IH [OF this] obtain more where more: "txs' = txs @ more"
      "execute_transactions L v h more (w, k) = Inr (x, m) \<Longrightarrow> lags a strictly w u
       \<Longrightarrow> lags a (strictly \<or> spoils L v h a pool u (length ids)) x t" for w k x m strictly by blast
    have "lags a (strictly \<or> spoils L v h a (tx # pool) s (length ids)) x t"
      if "execute_transactions L v h more (w, k) = Inr (x, m)" "lags a strictly w s" for w k x m strictly
      using more(2) [OF that(1) lags_past_failure [OF that(2) apply_verified_evolves [OF fails(3)]]] fails by simp
    with more(1) show ?thesis by blast
  next
    case runs
    with Cons.prems(1) have "include_pending L v h pool (u, txs @ [tx_print L tx], ids @ [tx_id tx])
        = (Inr (t, txs', ids') :: ('e, _) result)" by simp
    from IH [OF this] obtain more where more: "txs' = (txs @ [tx_print L tx]) @ more"
      "execute_transactions L v h more (w, k) = Inr (x, m) \<Longrightarrow> lags a strictly w u
       \<Longrightarrow> lags a (strictly \<or> spoils L v h a pool u (length (ids @ [tx_id tx]))) x t" for w k x m strictly by blast
    have "lags a (strictly \<or> spoils L v h a (tx # pool) s (length ids)) x t"
      if run: "execute_transactions L v h (tx_print L tx # more) (w, k) = Inr (x, m)" and "lags a strictly w s"
      for w k x m strictly
    proof -
      obtain y n where step: "execute_transaction L v h (tx_print L tx) (w, k) = Inr (y, n)"
        and rest: "execute_transactions L v h more (y, n) = Inr (x, m)"
        using run unfolding execute_transactions_cons by blast
      have "apply_verified L tx h w = (Inr (), y)"
        using step Cons.prems(2) by (auto simp: execute_transaction_ok readable_def)
      with that(2) have "lags a strictly y u"
        using accepted_twice [OF runs(3), of w y a] by (auto simp: lags_def)
      from more(2) [OF rest this] runs show ?thesis by simp
    qed
    with more(1) show ?thesis by (intro exI [of _ "tx_print L tx # more"]) simp
  qed
qed


text \<open>
  The states whose roots a plan and its block meet in: the one the plan ends in, and the one the
  block's transactions end in when they are executed.
\<close>

definition sealed_states ::
  "'x node_lib_scheme \<Rightarrow> world \<Rightarrow> string \<Rightarrow> u64 \<Rightarrow> transaction list \<Rightarrow> chain_state \<Rightarrow> chain_state list" where
  "sealed_states L W v h pool s =
     (case include_pending L v h pool (s, [], []) :: (chain_state \<times> string list \<times> string list) outcome of
        Inl _ \<Rightarrow> []
      | Inr (s1, txs, _) \<Rightarrow>
          let reward = new_reward (w_uuid W) (w_now W) v h;
              planned = snd (end_block h v (snd (apply_verified L reward h s1))) in
          planned # (case execute_transactions L v h (txs @ [tx_print L reward]) (s, 0) of
             Inl _ \<Rightarrow> [] | Inr (u, _) \<Rightarrow> [snd (end_block h v u)]))"

lemma spoiled_plan_fails:
  assumes plan: "plan_block L W chain pool producer = Inr plan" and v: "v = bp_validator plan"
    and h: "next_index chain = (Inr h :: u64 outcome)"
    and spoiled: "spoils L v h a pool (bc_state chain) 0"
    and rd: "readable L (new_reward (w_uuid W) (w_now W) v h)" "list_all (readable L) pool"
    and printed: "\<And>u w. state_print L u = state_print L w \<Longrightarrow> nonce_of u a = nonce_of w a"
    and hashed: "inj_on (\<lambda>x. lower_hex L (sha256 L x)) (state_print L ` set (sealed_states L W v h pool (bc_state chain)))"
    and b: "blk_transactions b = bp_transactions plan" "blk_state_root b = bp_state_root plan" "blk_index b = h"
  shows "execute_block L b v (bc_state chain) \<noteq> Inr post"
proof
  assume ex: "execute_block L b v (bc_state chain) = Inr post"
  let ?reward = "new_reward (w_uuid W) (w_now W) v h"
  obtain s1 txs ids s2 s3 where
    inc: "include_pending L v h pool (bc_state chain, [], []) = (Inr (s1, txs, ids) :: _ outcome)"
    and rew: "apply_verified L ?reward h s1 = (Inr (), s2)" and fin: "end_block h v s2 = (Inr (), s3)"
    and p: "bp_transactions plan = txs @ [tx_print L ?reward]" "bp_state_root plan = state_root L s3"
    using plan_blockE [OF plan h] unfolding v by metis
  obtain u n where run: "execute_transactions L v h (txs @ [tx_print L ?reward]) (bc_state chain, 0) = Inr (u, n)"
    and fin': "end_block h v u = (Inr (), post)" and root: "state_root L post = bp_state_root plan"
    using ex b p by (auto simp: execute_block_ok)
  then obtain w m where txs: "execute_transactions L v h txs (bc_state chain, 0) = Inr (w, m)"
    and last: "execute_transactions L v h [tx_print L ?reward] (w, m) = Inr (u, n)"
    by (auto simp: execute_transactions_append exec_ok simp del: execute_transactions.simps)
  have "apply_verified L ?reward h w = (Inr (), u)"
    using last rd(1) unfolding execute_transactions_cons readable_def by (auto simp: execute_transaction_ok)
  then have ends: "cs_nonces post = cs_nonces w" "cs_nonces s3 = cs_nonces s1"
    using reward_nonces end_block_nonces fin fin' rew by metis+
  have "lags a False (bc_state chain) (bc_state chain)" by (simp add: lags_def)
  then have "lags a True w s1"
    using included_nonces [OF inc rd(2), of a] txs spoiled by fastforce
  then have "nonce_of post a \<noteq> nonce_of s3 a" using ends by (auto simp: lags_def nonce_of_def)
  moreover have "{post, s3} \<subseteq> set (sealed_states L W v h pool (bc_state chain))"
    using inc rew fin run fin' by (simp add: sealed_states_def Let_def)
  then have "state_print L post = state_print L s3"
    by (intro inj_onD [OF hashed root [unfolded p(2) state_root_def]] imageI) simp_all
  ultimately show False using printed by blast
qed


section \<open>A node that is left to mine\<close>

text \<open>
  A round of mining: the reward of the round reads back, and the hash keeps apart the two texts the
  round compares. A user's transaction that comes in between reads back.
\<close>

definition round_reads :: "'x net_lib_scheme \<Rightarrow> world \<Rightarrow> string \<Rightarrow> u64 \<Rightarrow> node \<Rightarrow> bool" where
  "round_reads L W v h s \<longleftrightarrow>
     readable L (new_reward (w_uuid W) (w_now W) v h)
     \<and> inj_on (\<lambda>x. lower_hex L (sha256 L x))
         (state_print L ` set (sealed_states L W v h (ns_pending s) (bc_state (ns_chain s))))"

fun mining_and_queueing ::
  "'y auth_lib_scheme \<Rightarrow> 'x net_lib_scheme \<Rightarrow> string \<Rightarrow> u64 \<Rightarrow> (world \<times> event) list \<Rightarrow> node \<Rightarrow> bool" where
  "mining_and_queueing A L v h [] s = True"
| "mining_and_queueing A L v h ((W, e) # es) s =
     ((case e of MineBlock _ \<Rightarrow> round_reads L W v h s | Queue tx \<Rightarrow> readable L (scoped s tx) | _ \<Rightarrow> False)
      \<and> mining_and_queueing A L v h es (perform A L W e s))"

text \<open>The node holds a pool that spoils its plans.\<close>

definition stalled :: "'x net_lib_scheme \<Rightarrow> local_validator_key \<Rightarrow> u64 \<Rightarrow> string \<Rightarrow> node \<Rightarrow> bool" where
  "stalled L key h a s \<longleftrightarrow> ns_validator_key s = Some key \<and> next_index (ns_chain s) = (Inr h :: u64 outcome)
     \<and> spoils L (lk_address key) h a (ns_pending s) (bc_state (ns_chain s)) 0 \<and> list_all (readable L) (ns_pending s)"

lemma stalled_mines_nothing:
  assumes st: "stalled L key h a s" and round: "round_reads L W (lk_address key) h s"
    and printed: "\<And>u w. state_print L u = state_print L w \<Longrightarrow> nonce_of u a = nonce_of w a"
  shows "snd (mine L W mined_at s) = s"
proof (rule mine_stuck)
  let ?v = "lk_address key"
  note h = st [unfolded stalled_def, THEN conjunct2, THEN conjunct1]
  fix key' plan b
  assume "ns_validator_key s = Some key'"
    and plan: "plan_block L W (ns_chain s) (ns_pending s) (Some (lk_address key')) = Inr plan"
    and mined: "mined_from L mined_at key' plan (ns_chain s) b"
  moreover have "plan_slot L (w_now W) (ns_chain s) (Some (lk_address key')) = Inr (bp_validator plan, bp_slot_input plan)"
    by (rule plan_blockE [OF plan h])
  ultimately have v: "?v = bp_validator plan"
    using st by (auto simp: stalled_def plan_slot_def exec_ok split: option.splits)
  note f = mined_fields [OF mined h]
  have "execute_block L b ?v (bc_state (ns_chain s)) \<noteq> Inr post" for post
    by (rule spoiled_plan_fails [OF plan v h _ _ _ printed _ f(1-3)])
       (use st round in \<open>simp_all add: stalled_def round_reads_def\<close>)
  then show "\<not> is_ok (validate_block_candidate L (w_now W) (ns_chain s) b)"
    using f(5) v by (auto simp: is_ok_def validate_block_candidate_ok validate_block_at_ok split: sum.split)
qed

lemma queueing_appends:
  "\<exists>late. ns_chain (quietly (queue_transaction L W tx) s) = ns_chain s
     \<and> ns_validator_key (quietly (queue_transaction L W tx) s) = ns_validator_key s
     \<and> ns_pending (quietly (queue_transaction L W tx) s) = ns_pending s @ late
     \<and> set late \<subseteq> {scoped s tx}"
proof -
  have admit: "snd (admit L t s) = s \<or> snd (admit L t s) = s\<lparr>ns_pending := ns_pending s @ [t]\<rparr>" for t
    by (simp add: admit_def Let_def bindE_def gets_def lift_def modify_def ret_def split: sum.split)
  obtain r u where a: "admit L (scoped s tx) s = (r, u)" by (cases "admit L (scoped s tx) s")
  then have "u = s \<or> u = s\<lparr>ns_pending := ns_pending s @ [scoped s tx]\<rparr>" using admit [of "scoped s tx"] by simp
  then show ?thesis
    unfolding quietly_def queue_transaction_scoped
    by (auto simp: bindE_def lift_def a persist_state_def spawn_def modify_def ret_def split: sum.split if_splits)
qed

lemma stalled_for_good:
  assumes "stalled L key h a s" and "mining_and_queueing A L (lk_address key) h es s"
    and printed: "\<And>u w. state_print L u = state_print L w \<Longrightarrow> nonce_of u a = nonce_of w a"
  shows "ns_chain (serve A L es s) = ns_chain s \<and> (\<exists>late. ns_pending (serve A L es s) = ns_pending s @ late)"
  using assms(1,2)
proof (induction es arbitrary: s)
  case (Cons x es)
  obtain W e where x: "x = (W, e)" by force
  show ?case
  proof (cases e)
    case (MineBlock t)
    then have "perform A L W e s = s"
      using Cons.prems stalled_mines_nothing [OF Cons.prems(1) _ printed] by (simp add: x quietly_def)
    then show ?thesis using Cons by (simp add: x)
  next
    case (Queue tx)
    obtain late where q: "ns_chain (perform A L W e s) = ns_chain s"
      "ns_validator_key (perform A L W e s) = ns_validator_key s"
      "ns_pending (perform A L W e s) = ns_pending s @ late" "set late \<subseteq> {scoped s tx}"
      using queueing_appends [of L W tx s] Queue by auto
    have "list_all (readable L) late" using q(4) Cons.prems(2) Queue by (auto simp: x list_all_iff)
    then have "stalled L key h a (perform A L W e s)"
      using Cons.prems(1) q by (simp add: stalled_def spoils_append)
    from Cons.IH [OF this] show ?thesis using Cons.prems(2) q by (auto simp: x)
  qed (use Cons.prems(2) in \<open>simp_all add: x\<close>)
qed simp

end
