(* ===== verification/Wire.thy ===== *)
theory Wire
  imports Catchup Boot
begin

text \<open>
  The node as an HTTP client (\<open>src/src/p2p/service.rs\<close>): the requests it sends, what it reads from the
  answers, and the \<open>network\<close> the syncer sees through it. The client of the \<open>reqwest\<close> crate is a
  function from requests to answers, and reading JSON is a record of functions.
\<close>


section \<open>Requests\<close>

datatype http_method = Get | Post | Put | Delete | Options

record http_request =
  hr_method :: http_method
  hr_url :: string
  hr_p2p_token :: "string option"
  hr_timeout_seconds :: nat
  hr_body :: "envelope option"

record http_response =
  hs_status :: nat
  hs_body :: string

type_synonym transport = "http_request \<Rightarrow> http_response option"

record json_lib =
  json_peers :: "string \<Rightarrow> string list option"
  json_head :: "string \<Rightarrow> chain_head option"
  json_blocks :: "string \<Rightarrow> block list option"
  json_chain :: "string \<Rightarrow> blockchain option"

definition CLIENT_TIMEOUT_SECONDS :: nat where "CLIENT_TIMEOUT_SECONDS = 5"
definition RANGE_TIMEOUT_SECONDS :: nat where "RANGE_TIMEOUT_SECONDS = 30"

text \<open>\<open>StatusCode::is_success\<close>.\<close>

definition is_success :: "http_response \<Rightarrow> bool" where
  "is_success r \<longleftrightarrow> 200 \<le> hs_status r \<and> hs_status r < 300"

text \<open>The token goes into a header when the service has one.\<close>

definition authorized :: "p2p_service \<Rightarrow> http_request \<Rightarrow> http_request" where
  "authorized service request =
     (case sv_p2p_token service of
        Some token \<Rightarrow> request\<lparr>hr_p2p_token := Some token\<rparr>
      | None \<Rightarrow> request)"

definition http_get :: "string \<Rightarrow> http_request" where
  "http_get url = \<lparr>hr_method = Get, hr_url = url, hr_p2p_token = None,
     hr_timeout_seconds = CLIENT_TIMEOUT_SECONDS, hr_body = None\<rparr>"

text \<open>\<open>None\<close> when the request fails, the status is no success or the body does not parse.\<close>

definition fetched :: "transport \<Rightarrow> (string \<Rightarrow> 'a option) \<Rightarrow> http_request \<Rightarrow> 'a option" where
  "fetched http parse request =
     (case http request of None \<Rightarrow> None
      | Some response \<Rightarrow> if is_success response then parse (hs_body response) else None)"

definition fetch_peers :: "json_lib \<Rightarrow> transport \<Rightarrow> p2p_service \<Rightarrow> string \<Rightarrow> string list option" where
  "fetch_peers J http service peer =
     fetched http (json_peers J) (authorized service (http_get (trim_slashes peer @ ''/p2p/peers'')))"

definition fetch_head :: "json_lib \<Rightarrow> transport \<Rightarrow> p2p_service \<Rightarrow> string \<Rightarrow> chain_head option" where
  "fetch_head J http service peer =
     fetched http (json_head J) (authorized service (http_get (trim_slashes peer @ ''/p2p/head'')))"

definition range_request :: "p2p_service \<Rightarrow> string \<Rightarrow> u64 \<Rightarrow> nat \<Rightarrow> http_request" where
  "range_request service peer from_height limit =
     (authorized service (http_get (trim_slashes peer @ ''/p2p/blocks/'' @ show_u64 from_height @ ''?limit='' @ dec_string limit)))
       \<lparr>hr_timeout_seconds := RANGE_TIMEOUT_SECONDS\<rparr>"

definition fetch_blocks_from ::
  "json_lib \<Rightarrow> transport \<Rightarrow> p2p_service \<Rightarrow> string \<Rightarrow> u64 \<Rightarrow> nat \<Rightarrow> block list option" where
  "fetch_blocks_from J http service peer from_height limit =
     fetched http (json_blocks J) (range_request service peer from_height limit)"

definition fetch_chain :: "json_lib \<Rightarrow> transport \<Rightarrow> p2p_service \<Rightarrow> string \<Rightarrow> blockchain option" where
  "fetch_chain J http service peer =
     fetched http (json_chain J) (authorized service (http_get (trim_slashes peer @ ''/p2p/chain'')))"


section \<open>Sending envelopes\<close>

definition send_once :: "transport \<Rightarrow> p2p_service \<Rightarrow> string \<Rightarrow> envelope \<Rightarrow> bool" where
  "send_once http service peer e =
     (case http (authorized service \<lparr>hr_method = Post, hr_url = trim_slashes peer @ ''/p2p/protocol'',
                   hr_p2p_token = None, hr_timeout_seconds = CLIENT_TIMEOUT_SECONDS, hr_body = Some e\<rparr>) of
        None \<Rightarrow> False | Some response \<Rightarrow> is_success response)"

definition announce_self ::
  "'x net_lib_scheme \<Rightarrow> transport \<Rightarrow> world \<Rightarrow> p2p_service \<Rightarrow> string \<Rightarrow> string \<Rightarrow> ('e, bool) result" where
  "announce_self L http W service peer our_address =
     bindR (finalize_envelope L (w_uuid W) (w_now W) service
              (new_envelope (w_uuid W) (w_now W) (sv_node_id service) (PeerAnnounce our_address))) (\<lambda>e.
     Inr (send_once http service peer e))"

definition block_envelope :: "'x net_lib_scheme \<Rightarrow> world \<Rightarrow> p2p_service \<Rightarrow> block \<Rightarrow> ('e, envelope) result" where
  "block_envelope L W service b =
     finalize_envelope L (w_uuid W) (w_now W) service
       (new_envelope (w_uuid W) (w_now W) (sv_node_id service) (BlockMsg b))"

text \<open>Each attempt is a request of its own; \<open>http n\<close> answers the one with number \<open>n\<close>.\<close>

definition broadcast_block ::
  "'x net_lib_scheme \<Rightarrow> (nat \<Rightarrow> transport) \<Rightarrow> world \<Rightarrow> p2p_service \<Rightarrow> string list \<Rightarrow> block \<Rightarrow> ('e, u64 \<times> u64) result" where
  "broadcast_block L http W service peers b =
     bindR (block_envelope L W service b) (\<lambda>e.
     broadcast service (\<lambda>peer attempt. send_once (http attempt) service peer e) peers (0, 0))"

definition broadcast_transaction ::
  "'x net_lib_scheme \<Rightarrow> (nat \<Rightarrow> transport) \<Rightarrow> world \<Rightarrow> p2p_service \<Rightarrow> string list \<Rightarrow> transaction \<Rightarrow> ('e, u64 \<times> u64) result" where
  "broadcast_transaction L http W service peers tx =
     bindR (finalize_envelope L (w_uuid W) (w_now W) service
              (new_envelope (w_uuid W) (w_now W) (sv_node_id service) (TransactionMsg tx))) (\<lambda>e.
     broadcast service (\<lambda>peer attempt. send_once (http attempt) service peer e) peers (0, 0))"


section \<open>The network as the syncer sees it\<close>

definition network_over :: "json_lib \<Rightarrow> transport \<Rightarrow> p2p_service \<Rightarrow> network" where
  "network_over J http service =
     \<lparr>nw_peers = fetch_peers J http service, nw_head = fetch_head J http service,
      nw_blocks = fetch_blocks_from J http service, nw_chain = fetch_chain J http service\<rparr>"

text \<open>
  A peer behind HTTP answers as its endpoints do: when the transport brings the requests for its head
  and its blocks to the endpoints with our token, a refusal is no success, and what one side prints
  the other reads.
\<close>

lemma answers_over_http:
  assumes head: "http (authorized service (http_get (trim_slashes peer @ ''/p2p/head'')))
      = (case fst (get_p2p_head A W (sv_p2p_token service) p) of
           Inr (Some h) \<Rightarrow> Some \<lparr>hs_status = 200, hs_body = print_head h\<rparr>
         | _ \<Rightarrow> Some \<lparr>hs_status = 401, hs_body = []\<rparr>)"
    and blocks: "\<And>h n. http (range_request service peer h n)
      = (case fst (get_p2p_blocks_from A W (sv_p2p_token service) h (Some n) p) of
           Inr (Some bs) \<Rightarrow> Some \<lparr>hs_status = 200, hs_body = print_blocks bs\<rparr>
         | _ \<Rightarrow> Some \<lparr>hs_status = 401, hs_body = []\<rparr>)"
    and json: "\<And>h. json_head J (print_head h) = Some h" "\<And>bs. json_blocks J (print_blocks bs) = Some bs"
    and up: "head_of (ns_chain p) = (Inr h0 :: chain_head outcome)"
  shows "answers A W (sv_p2p_token service) p (network_over J http service) peer"
proof -
  have h: "fst (get_p2p_head A W (sv_p2p_token service) p)
      = Inr (if authorize_p2p A (w_secs W) (ns_access p) (sv_p2p_token service) then Some h0 else None)"
    using up by (simp add: get_p2p_head_def bindE_def gets_def lift_def ret_def)
  have b: "\<exists>r. fst (get_p2p_blocks_from A W (sv_p2p_token service) i (Some n) p) = Inr r" for i n
    by (simp add: get_p2p_blocks_from_def bindE_def gets_def ret_def Let_def)
  have "fst (get_p2p_blocks_from A W (sv_p2p_token service) i (Some n) p) = Inr (fetch_blocks_from J http service peer i n)" for i n
  proof -
    obtain r where r: "fst (get_p2p_blocks_from A W (sv_p2p_token service) i (Some n) p) = Inr r" using b by blast
    then show ?thesis using json(2) by (cases r) (simp_all add: fetch_blocks_from_def fetched_def blocks is_success_def)
  qed
  moreover have "fst (get_p2p_head A W (sv_p2p_token service) p) = Inr (fetch_head J http service peer)"
    unfolding fetch_head_def fetched_def head h using json(1) by (simp add: is_success_def)
  ultimately show ?thesis by (simp add: answers_def network_over_def)
qed

end
