(* ===== verification/Node_Properties.thy ===== *)
theory Node_Properties
  imports Node_Samples Explorer Gossip Poison Wire
begin

text \<open>
  The properties of the node: its chain under every sequence of events, block production against
  validation, replayed and forged messages, and the tokens of its interface.
\<close>


section \<open>The node's chain\<close>

text \<open>C4 Whatever happens to a node, its chain stays the replay of its blocks. From any start (a saved
  state, a bundle, a fresh genesis), after any sequence of requests, gossip, mining rounds and sync
  passes, with whatever peers send, the chain has moved only by validated blocks, adopted chains and
  finality updates, on the same network, and is valid.\<close>

theorem node_keeps_its_chain:
  assumes "boot L env bundle saved = Inr (s, service)"
    and "length (bc_blocks (ns_chain (serve A L events s))) < 2 ^ 63"
  shows "runs L (ns_chain s) (ns_chain (serve A L events s))
    \<and> same_network (ns_chain s) (ns_chain (serve A L events s))
    \<and> is_valid L (ns_chain (serve A L events s)) = (Inr True :: (unit, bool) result)
    \<and> rebuild_state L (ns_chain (serve A L events s)) = Inr (ns_chain (serve A L events s))"
proof -
  let ?c = "ns_chain (serve A L events s)"
  have r: "runs L (ns_chain s) ?c" by (rule serve_runs)
  have "in_sync L ?c" using runs_in_sync [OF r _ assms(2)] boot_starts [OF assms(1)] by blast
  then show ?thesis
    using r runs_same_network [OF r] by (simp add: in_sync_def is_valid_def rebuild_state_ok)
qed

theorem node_keeps_its_chain_witness:
  "\<exists>c. length (bc_blocks c) = 2 \<and> rebuild_state chain_lib c = Inr c
     \<and> ns_chain (serve door chain_lib [(noon, Submit next_block)] idle) = c"
proof -
  obtain c where c: "length (bc_blocks c) = 2"
    "ns_chain (serve door chain_lib [(noon, Submit next_block)] idle) = c"
    using idle_extends by blast
  then show ?thesis
    using node_keeps_its_chain [OF idle_boots, of door "[(noon, Submit next_block)]"] by auto
qed


text \<open>C36 The tables a node keeps about its peers and their messages stay well formed. Whatever has
  happened to it since it started, every peer's score is within its bounds, and the cache of messages
  holds each one once, its set and its queue agree, and it never exceeds its 8192 entries.\<close>

theorem node_tables_stay_well_formed:
  assumes "boot L env bundle saved = Inr (s, service)" and t: "t = serve A L events s"
  shows "(\<forall>n r. fmlookup (pb_peers (ns_book t)) n = Some r \<longrightarrow> SCORE_MIN \<le> pr_score r \<and> pr_score r \<le> SCORE_MAX)
    \<and> sc_seen (ns_seen t) = fset_of_list (sc_order (ns_seen t)) \<and> distinct (sc_order (ns_seen t))
    \<and> length (sc_order (ns_seen t)) \<le> 8192"
proof -
  have "keeps_tables s t" unfolding t by (rule keeping.on_serve)
  with boot_starts [OF assms(1)] show ?thesis
    by (auto simp: keeps_tables_def tables_ok_def book_ok_def seen_ok_def score_ok_def)
qed

theorem node_tables_stay_well_formed_witness:
  "\<exists>t. t = serve door chain_lib [(noon, Submit next_block), (noon, Receive None (envelope_of ''0''))] idle
     \<and> distinct (sc_order (ns_seen t)) \<and> length (sc_order (ns_seen t)) \<le> 8192"
  using node_tables_stay_well_formed [OF idle_boots refl] by blast


section \<open>Producing blocks\<close>

text \<open>C32 What one node mines, the others take. A node in step that is an open leader plans a block, mines
  and seals it: its own chain grows by that block, which goes out to its peers; and every node of the
  network with the same blocks accepts it and is then in the same state, and no transaction of the
  block is left in its pool. The pool of the miner must hold nothing that fails halfway, its clock
  must not have run backwards and the block may be two minutes ahead of a peer's clock at most.\<close>

theorem mined_block_spreads:
  assumes miner: "ns_validator_key p = Some key" "in_sync L (ns_chain p)"
    and plan: "plan_block L W (ns_chain p) (ns_pending p) (Some (lk_address key)) = Inr plan"
      "bp_public_key plan = lk_public_key key"
    and mined: "mined_from L mined_at key plan (ns_chain p) b"
    and h: "next_index (ns_chain p) = (Inr h :: u64 outcome)"
    and pool: "settles L (bp_validator plan) h (ns_pending p) (bc_state (ns_chain p))"
    and texts: "list_all (readable L) (new_reward (w_uuid W) (w_now W) (bp_validator plan) h # ns_pending p)"
    and staker: "fmlookup (cs_stakers (bc_state (ns_chain p))) (bp_validator plan) = Some info" "si_vrf_public_key info \<noteq> []"
    and keys: "keys_match L (lk_private_key key) info (blk_hash b) (bp_slot_input plan)"
    and difficulty: "is_difficulty_in_bounds (bc_current_difficulty (ns_chain p))"
    and clock: "blk_timestamp (last (bc_blocks (ns_chain p))) \<le> w_now W" "w_now W \<le> mined_at"
      "mined_at \<le> w_now W + 120 * 10 ^ 9" "mined_at - blk_timestamp (last (bc_blocks (ns_chain p))) < 10 ^ 28"
    and room: "unat (bc_base_height (ns_chain p)) + length (bc_blocks (ns_chain p)) < 2 ^ 62"
      "unat (mt_blocks_mined (ns_metrics p)) + 1 < 2 ^ 64"
    and peer: "in_sync L (ns_chain q)" "same_network (ns_chain q) (ns_chain p)"
      "bc_blocks (ns_chain q) = bc_blocks (ns_chain p)" "authorize_p2p A (w_secs V) (ns_access q) token"
      "mined_at \<le> w_now V + 120 * 10 ^ 9" "unat (mt_blocks_received (ns_metrics q)) + 1 < 2 ^ 64"
  shows "\<exists>r p' q'. mine L W mined_at p = (Inr r, p') \<and> mr_status r = ''success''
    \<and> GossipBlocks [b] \<in> set (ns_tasks p') \<and> bc_blocks (ns_chain p') = bc_blocks (ns_chain p) @ [b]
    \<and> receive_block A L V token b q = (Inr (success ''Block accepted''), q')
    \<and> bc_blocks (ns_chain q') = bc_blocks (ns_chain p') \<and> bc_state (ns_chain q') = bc_state (ns_chain p')
    \<and> (\<forall>tx\<in>set (ns_pending q'). tx_id tx \<notin> included_ids L b)"
proof -
  have valid: "is_ok (validate_block_candidate L (w_now W) (ns_chain p) b)"
    by (rule sealed_plan_validates [OF plan(1) mined h pool texts staker keys difficulty clock])
  obtain c t where c: "extend_chain L W (finality_depth_of p) b p = (Inr (), p\<lparr>ns_chain := c\<rparr>)"
    "bc_blocks c = bc_blocks (ns_chain p) @ [b]" "in_sync L c" "same_network (ns_chain p) c"
    "tip_index c = (Inr t :: u64 outcome)"
    using valid_block_extends [OF miner(2) valid difficulty room(1)] by blast
  obtain r p' where p': "mine L W mined_at p = (Inr r, p')" "mr_status r = ''success''" "ns_chain p' = c"
    "ns_tasks p' = ns_tasks p @ [GossipBlocks [b]]"
    using mine_extends [OF miner(1) plan mined c(1,5) room(2)] by blast
  have net: "same_network (ns_chain q) c" using peer(2) c(4) by (simp add: same_network_def)
  have stamp: "blk_timestamp b \<le> w_now V + seconds MAX_TIMESTAMP_SKEW_SECONDS"
    using mined_fields(4) [OF mined h] peer(5) by (simp add: MAX_TIMESTAMP_SKEW_SECONDS_def seconds_def)
  have blocks: "bc_blocks c = bc_blocks (ns_chain q) @ [b]" using c(2) peer(3) by simp
  have fits: "unat (bc_base_height c) + length (bc_blocks c) < 2 ^ 64" "length (bc_blocks c) < 2 ^ 63"
    using room(1) c(2,4) by (simp_all add: same_network_def)
  obtain q' where "receive_block A L V token b q = (Inr (success ''Block accepted''), q')"
    "bc_blocks (ns_chain q') = bc_blocks c" "bc_state (ns_chain q') = bc_state c"
    "\<forall>tx\<in>set (ns_pending q'). tx_id tx \<notin> included_ids L b"
    using peer_takes_block [OF peer(1) c(3) net blocks stamp fits peer(4,6)] by blast
  with p' c(2) show ?thesis by auto
qed

theorem mined_block_spreads_witness:
  "\<exists>r p' q' b. mine chain_lib noon (w_now noon) (idle\<lparr>ns_validator_key := Some home_key\<rparr>) = (Inr r, p')
    \<and> mr_status r = ''success'' \<and> bc_blocks (ns_chain p') = [home_block, b]
    \<and> receive_block door chain_lib noon (Some ''peers'') b guarded = (Inr (success ''Block accepted''), q')
    \<and> bc_blocks (ns_chain q') = [home_block, b] \<and> bc_state (ns_chain q') = bc_state (ns_chain p')"
proof -
  let ?p = "idle\<lparr>ns_validator_key := Some home_key\<rparr>"
  obtain plan where plan: "plan_block chain_lib noon home [] (Some treasury) = Inr plan" "bp_validator plan = treasury"
    using home_plans by blast
  obtain b where b: "mined_from chain_lib (w_now noon) home_key plan home b" "blk_hash b = zeros"
    using home_mines [OF plan(2)] by blast
  have pk: "bp_public_key plan = ''00''"
    by (rule plan_blockE [OF plan(1) home_tip(2)]) (simp add: plan(2) home_info)
  have keys: "keys_match chain_lib (lk_private_key home_key)
      \<lparr>si_stake = 5000000, si_public_key = ''00'', si_vrf_public_key = ''00'', si_pq_public_key = []\<rparr> (blk_hash b) (bp_slot_input plan)"
    using home_keys_match b(2) by (simp add: home_key_def)
  have nodes: "ns_chain ?p = home" "ns_pending ?p = []" "ns_validator_key ?p = Some home_key" "ns_chain guarded = home"
    "ns_metrics ?p = no_metrics" "ns_metrics guarded = no_metrics" "lk_address home_key = treasury" "lk_public_key home_key = ''00''"
    by (simp_all add: idle_def guarded_def home_key_def)
  have sync: "in_sync chain_lib home" using new_chain_in_sync [OF home_born] .
  have peer: "authorize_p2p door (w_secs noon) (ns_access guarded) (Some ''peers'')"
    by (simp add: authorize_p2p_def guarded_def idle_def)
  have small: "is_difficulty_in_bounds (bc_current_difficulty home)" "blk_timestamp home_block = w_now noon"
    "bc_base_height home = 0" "bc_blocks home = [home_block]"
    by (simp_all add: home_def home_block_def noon_def is_difficulty_in_bounds_def MIN_DIFFICULTY_def MAX_DIFFICULTY_def)
  have "\<exists>r p' q'. mine chain_lib noon (w_now noon) ?p = (Inr r, p') \<and> mr_status r = ''success''
    \<and> GossipBlocks [b] \<in> set (ns_tasks p') \<and> bc_blocks (ns_chain p') = bc_blocks (ns_chain ?p) @ [b]
    \<and> receive_block door chain_lib noon (Some ''peers'') b guarded = (Inr (success ''Block accepted''), q')
    \<and> bc_blocks (ns_chain q') = bc_blocks (ns_chain p') \<and> bc_state (ns_chain q') = bc_state (ns_chain p')
    \<and> (\<forall>tx\<in>set (ns_pending q'). tx_id tx \<notin> included_ids chain_lib b)"
    by (rule mined_block_spreads [where key = home_key and plan = plan and h = 1])
       (use plan pk b(1) keys sync peer home_reward_readable in
         \<open>simp_all add: nodes home_tip home_info small same_network_def no_metrics_def\<close>)
  then show ?thesis using small(4) nodes(1) by fastforce
qed


text \<open>C33 What a node admits, it mines. A transaction that a node has taken into its pool is in the very
  next block the node mines, and then no longer in the pool: the state against which it was admitted
  is the one the plan reaches when it comes to it. For a chain that starts at its genesis, a pool of
  fewer than a hundred transactions that all verify, and an id that is not yet in the pool.\<close>

theorem accepted_transaction_is_mined:
  assumes queue: "queue_transaction L W tx s = (Inr (), s1)" and fresh: "tx_id tx \<notin> tx_id ` set (ns_pending s)"
    and pool: "\<forall>x\<in>set (ns_pending s). \<forall>v. verify_for_block L x v = Inr ()"
    and room: "length (ns_pending s) < MAX_BLOCK_TXS" and root: "bc_base_height (ns_chain s) = 0"
    and mine: "mine L V mined_at s1 = (Inr r, s2)" "mr_status r = ''success''"
  shows "\<exists>b. bc_blocks (ns_chain s2) = bc_blocks (ns_chain s) @ [b]
    \<and> tx_print L (tx\<lparr>tx_chain_id := cs_chain_id (bc_state (ns_chain s))\<rparr>) \<in> set (blk_transactions b)
    \<and> tx_id tx \<notin> tx_id ` set (ns_pending s2)"
proof -
  have chain: "ns_chain s1 = ns_chain s" using queue_transaction_ok [OF queue fresh] by blast
  obtain key plan b where m: "plan_block L V (ns_chain s1) (ns_pending s1) (Some (lk_address key)) = Inr plan"
    "mined_from L mined_at key plan (ns_chain s1) b" "bc_blocks (ns_chain s2) = bc_blocks (ns_chain s1) @ [b]"
    "ns_pending s2 = filter (\<lambda>tx. tx_id tx \<notin> set (bp_included_ids plan)) (ns_pending s1)"
    using mine_success [OF mine] by blast
  obtain h where h: "next_index (ns_chain s1) = (Inr h :: u64 outcome)" using m(2) by (auto simp: mined_from_def)
  have "tx_print L (scoped s tx) \<in> set (bp_transactions plan)" "tx_id tx \<in> set (bp_included_ids plan)"
    using admitted_is_planned [OF queue fresh _ room root m(1)] pool by blast+
  then show ?thesis using m(3,4) mined_fields(1) [OF m(2) h] chain by (auto simp: scoped_def)
qed

theorem accepted_transaction_is_mined_witness:
  "\<exists>s1 r s2 b. queue_transaction chain_lib noon anchor_tx miner = (Inr (), s1)
    \<and> mine chain_lib noon (w_now noon) s1 = (Inr r, s2) \<and> bc_blocks (ns_chain s2) = [home_block, b]
    \<and> ''c'' \<in> set (blk_transactions b) \<and> ''c'' \<notin> tx_id ` set (ns_pending s2)"
proof -
  obtain s1 where s1: "queue_transaction chain_lib noon anchor_tx miner = (Inr (), s1)" "ns_pending s1 = [anchor_tx]"
    "ns_chain s1 = home" "ns_validator_key s1 = Some home_key" "ns_metrics s1 = no_metrics"
    using miner_queues by blast
  obtain r s2 where r: "mine chain_lib noon (w_now noon) s1 = (Inr r, s2)" "mr_status r = ''success''"
    using miner_mines [OF s1(2-5)] by blast
  have "bc_base_height home = 0" "bc_blocks home = [home_block]" by (simp_all add: home_def)
  then show ?thesis
    using accepted_transaction_is_mined [OF s1(1) _ _ _ _ r] s1(1) r(1) anchor_texts
    by (auto simp: MAX_BLOCK_TXS_def)
qed


text \<open>C5 Block production never gets stuck. At every chain a node can come to hold, as long as
  somebody has stake, and at every time: some validator is an open leader, and when validators can
  sign with their registered keys, every text can be mined at the current difficulty, and the pool
  goes through, then the block it plans, mines and seals passes validation and extends the chain.\<close>

theorem production_never_stalls:
  assumes "new_with_genesis_on_chain L cid d tr vk vrf n al hyb pq = Inr c0" and "\<not> internal_account tr"
    and "n \<le> 30000000000000000" and "runs L c0 c" and short: "length (bc_blocks c) \<le> 300000000000"
    and staked: "validator_set (bc_state c) \<noteq> []"
    and keys: "\<And>v info. fmlookup (cs_stakers (bc_state c)) v = Some info \<Longrightarrow> can_produce L (keys v) info"
    and work: "mineable L (bc_current_difficulty c)"
    and h: "h = as_u64 (length (bc_blocks c))"
    and pool: "\<And>v. fmhas (cs_stakers (bc_state c)) v \<Longrightarrow>
      drains L v h pending (bc_state c) \<and> readable L (new_reward (w_uuid W) (w_now W) v h)"
    and clock: "blk_timestamp (last (bc_blocks c)) \<le> w_now W" "w_now W \<le> mined_at"
      "mined_at \<le> now + 120 * 10 ^ 9" "mined_at - blk_timestamp (last (bc_blocks c)) < 10 ^ 28"
  shows "\<exists>v plan b t c'. plan_block L W c pending (Some v) = Inr plan \<and> mined_from L mined_at (keys v) plan c b
    \<and> validate_block_candidate L now c b = Inr t \<and> commit_block L b t c = (Inr c' :: blockchain outcome)
    \<and> bc_blocks c' = bc_blocks c @ [b]"
proof -
  note books = reachable_books [OF assms(1-5)]
  have ne: "bc_blocks c \<noteq> []" using books(1) by (auto simp: in_sync_def validate_full_ok)
  have diff: "is_difficulty_in_bounds (bc_current_difficulty c)" by (rule in_sync_in_bounds [OF books(1,9,10)])
  have len: "unat h = length (bc_blocks c)" unfolding h using short by (intro unat_as_u64_small) simp
  then have nx: "next_index c = (Inr h :: u64 outcome)"
    using books(8) short by (simp add: next_index_def add_u64_ok flip: h)
  have room: "uint (cs_total_supply (bc_state c)) + uint (block_reward h) < 2 ^ 64"
    using books(4,5) block_reward_le [of h] by linarith
  obtain v info input where v: "eligible_slot_for L (w_now W) c v = (Inr (Some (0, input)) :: _ outcome)"
    "fmlookup (cs_stakers (bc_state c)) v = Some info"
    using somebody_eligible [OF books(3) staked ne nx, of L "w_now W"] by blast
  have p: "drains L v h pending (bc_state c)" "readable L (new_reward (w_uuid W) (w_now W) v h)"
    using pool [of v] v(2) by (simp_all add: fmhas_def)
  obtain plan where plan: "plan_block L W c pending (Some v) = Inr plan" "bp_validator plan = v"
    using plan_succeeds [OF books(3) nx v p(1) room] by blast
  obtain b where b: "mined_from L mined_at (keys v) plan c b" "can_produce L (keys v) info"
    "\<exists>x. blk_hash b = sha256_hex L x"
    using mining_succeeds [OF work nx plan(2) v(2) keys [OF v(2)]] keys [OF v(2)] by blast
  have "keys_match L (lk_private_key (keys v)) info (blk_hash b) (bp_slot_input plan)" "si_vrf_public_key info \<noteq> []"
    using b(2,3) by (auto simp: can_produce_def Let_def)
  then have "is_ok (validate_block_candidate L now c b)"
    using p plan(2) v(2) by (intro sealed_plan_validates [OF plan(1) b(1) nx _ _ _ _ _ diff clock])
      (simp_all add: drains_def)
  then obtain t where t: "validate_block_candidate L now c b = Inr t" by (rule is_okE)
  obtain c' where "commit_block L b t c = (Inr c' :: blockchain outcome)" "bc_blocks c' = bc_blocks c @ [b]"
    using commit_succeeds [OF diff, of L b t] books(8) short by auto
  with plan(1) b(1) t show ?thesis by blast
qed


theorem production_never_stalls_witness:
  "\<exists>v plan b t c'. plan_block chain_lib noon home [] (Some v) = Inr plan
    \<and> validate_block_candidate chain_lib (w_now noon) home b = Inr t
    \<and> commit_block chain_lib b t home = (Inr c' :: blockchain outcome) \<and> bc_blocks c' = [home_block, b]"
proof -
  have staked: "validator_set (bc_state home) \<noteq> []"
    using home_staked by (simp add: home_def)
  have keys: "can_produce chain_lib home_key info" if "fmlookup (cs_stakers (bc_state home)) v = Some info" for v info
    using that home_can_produce by (auto simp: home_def home_state_def founded_def split: if_splits)
  have reward: "readable chain_lib (new_reward (w_uuid noon) (w_now noon) v (as_u64 (length (bc_blocks home))))"
    if "fmhas (cs_stakers (bc_state home)) v" for v
    using that home_reward_readable
    by (auto simp: home_def home_state_def founded_def fmhas_def as_u64_def split: if_splits)
  have "\<exists>v plan b t c'. plan_block chain_lib noon home [] (Some v) = Inr plan
    \<and> mined_from chain_lib (w_now noon) ((\<lambda>_. home_key) v) plan home b
    \<and> validate_block_candidate chain_lib (w_now noon) home b = Inr t
    \<and> commit_block chain_lib b t home = (Inr c' :: blockchain outcome) \<and> bc_blocks c' = bc_blocks home @ [b]"
    by (rule production_never_stalls [OF home_born samples_external(1) _ runs.born _ staked keys home_mineable refl])
       (simp_all add: reward, simp_all add: home_def home_block_def noon_def as_u64_def)
  then show ?thesis by (force simp: home_def)
qed


text \<open>C35 One bad transaction in its pool stops a validator from producing blocks. When the loop of the
  node's plan comes to a transaction that verifies but fails after it has moved a nonce, that nonce
  stays in the state whose root the plan commits to, and the block's own transactions do not move it. So, as
  long as state texts show the nonce and the hash keeps apart the two texts that meet in
  a round, the node refuses the block it has mined, and nothing of it changes. It mines nothing in any of
  the rounds that follow, while its users go on queueing: its chain stays as it is, and the pool
  only grows behind what it holds.\<close>

theorem poisoned_pool_stops_mining:
  assumes "ns_validator_key s = Some key" and "next_index (ns_chain s) = (Inr h :: u64 outcome)"
    and "spoils L (lk_address key) h a (ns_pending s) (bc_state (ns_chain s)) 0"
    and "list_all (readable L) (ns_pending s)"
    and "\<And>u w. state_print L u = state_print L w \<Longrightarrow> nonce_of u a = nonce_of w a"
    and "mining_and_queueing A L (lk_address key) h events s"
  shows "ns_chain (serve A L events s) = ns_chain s
    \<and> (\<exists>late. ns_pending (serve A L events s) = ns_pending s @ late)"
  by (rule stalled_for_good [OF _ assms(6,5)]) (simp add: stalled_def assms(1-4))

theorem poisoned_pool_stops_mining_witness:
  "ns_chain (serve door nonce_lib [(noon, Queue (payment 5 1)), (noon, MineBlock 0), (noon, MineBlock 60)] stuck_node) = home"
proof -
  have "ns_chain (serve door nonce_lib [(noon, Queue (payment 5 1)), (noon, MineBlock 0), (noon, MineBlock 60)] stuck_node)
      = ns_chain stuck_node \<and> (\<exists>late. ns_pending (serve door nonce_lib
          [(noon, Queue (payment 5 1)), (noon, MineBlock 0), (noon, MineBlock 60)] stuck_node) = ns_pending stuck_node @ late)"
  proof (rule poisoned_pool_stops_mining)
    obtain e t where "apply_verified nonce_lib (payment 5 1) 1 home_state = (Inl (Err e), t)"
      "nonce_of t treasury \<noteq> nonce_of home_state treasury"
      using poor_payment by blast
    then show "spoils nonce_lib (lk_address home_key) 1 treasury (ns_pending stuck_node) (bc_state (ns_chain stuck_node)) 0"
      using payment_on_nonce_lib by (simp add: MAX_BLOCK_TXS_def)
    show "nonce_of u treasury = nonce_of w treasury" if "state_print nonce_lib u = state_print nonce_lib w" for u w
      using that by (rule nonce_lib_prints)
    show "list_all (readable nonce_lib) (ns_pending stuck_node)" by (simp add: payment_readable)
    show "mining_and_queueing door nonce_lib (lk_address home_key) 1
        [(noon, Queue (payment 5 1)), (noon, MineBlock 0), (noon, MineBlock 60)] stuck_node"
      by (simp add: round_reads_def home_rewards_readable nonce_lib_hash payment_scoped payment_readable)
  qed (simp_all add: home_tip)
  then show ?thesis by simp
qed


section \<open>Catching up\<close>

text \<open>C34 A node that is behind catches up. When the peer it picks lets it in and holds a valid chain of
  the same network that goes on from its own, one pass of the syncer takes every missing block, up to
  the 64 batches of a pass, and leaves the node with the peer's blocks, state, randomness and
  difficulty.\<close>

theorem node_catches_up:
  assumes chains: "in_sync L (ns_chain s)" "in_sync L (ns_chain p)" "same_network (ns_chain s) (ns_chain p)"
    and rest: "bc_blocks (ns_chain p) = bc_blocks (ns_chain s) @ rest" "rest \<noteq> []"
    and peer: "answers A V token p N peer"
    and ours: "head_of (ns_chain s) = (Inr ours :: chain_head outcome)"
    and picked: "best_head N ours (take MAX_PEERS_PER_TICK (ns_peers s)) None = Some (peer, head)"
    and recent: "\<forall>b\<in>set rest. blk_timestamp b \<le> w_now W + 120 * 10 ^ 9"
    and bounds: "length (bc_blocks (ns_chain p)) < 2 ^ 63" "length rest \<le> 64 * served (sy_batch config)"
  shows "\<exists>s'. catch_up L W N config s = (Inr (Advanced (as_u64 (length rest))), s')
    \<and> bc_blocks (ns_chain s') = bc_blocks (ns_chain p) \<and> bc_state (ns_chain s') = bc_state (ns_chain p)
    \<and> bc_randomness (ns_chain s') = bc_randomness (ns_chain p)
    \<and> bc_current_difficulty (ns_chain s') = bc_current_difficulty (ns_chain p)"
proof -
  let ?d = "ns_chain p"
  have head: "nw_head N peer = Some head" using best_head_offered [OF picked] by simp
  have ne: "bc_blocks (ns_chain s) \<noteq> []" "bc_blocks ?d \<noteq> []"
    using chains(1) rest by (auto simp: in_sync_def validate_full_ok)
  note theirs = head_height [OF answered_head [OF peer head] ne(2) bounds(1)]
  have "length (bc_blocks (ns_chain s)) < 2 ^ 63" using bounds(1) rest(1) by simp
  note mine = head_height [OF ours ne(1) this]
  have ahead: "\<not> ch_height head \<le> ch_height ours"
    using theirs mine chains(3) rest ne(1) by (cases rest) (auto simp: word_le_nat_alt same_network_def neq_Nil_conv)
  have serving: "nw_blocks N peer h (sy_batch config) = Some (blocks_from ?d h (as_u64 (served (sy_batch config))))" for h
    using answered_blocks [OF peer] head by simp
  have recent': "\<forall>b\<in>set rest. blk_timestamp b \<le> w_now W + seconds MAX_TIMESTAMP_SKEW_SECONDS"
    using recent by (simp add: seconds_def MAX_TIMESTAMP_SKEW_SECONDS_def)
  have fuel: "length rest \<le> MAX_BATCHES_PER_PASS * served (sy_batch config)" "unat (0 :: u64) + length rest < 2 ^ 64"
    using bounds rest(1) by (simp_all add: MAX_BATCHES_PER_PASS_def)
  obtain s' where s': "download_batches MAX_BATCHES_PER_PASS L W N peer (sy_batch config) (finality_depth_of s) (ch_height head) 0 s
      = (Inr (progress (0 + as_u64 (length rest))), s')" "bc_blocks (ns_chain s') = bc_blocks ?d"
      "in_sync L (ns_chain s')" "same_network (ns_chain s') ?d"
    using endpoint.downloads_everything [OF serving chains(2) _ bounds(1) _ chains(1,3) rest(1) recent' fuel] theirs by blast
  have "unat (as_u64 (length rest)) = length rest" using fuel(2) by (intro unat_as_u64_small) simp
  then have "0 < as_u64 (length rest)" using rest(2) by (simp add: word_less_nat_alt)
  then have "catch_up L W N config s = (Inr (Advanced (as_u64 (length rest))), s')"
    using s'(1) ours picked ahead
    by (cases "ns_peers s") (simp_all add: catch_up_def download_from_def progress_def bindE_def gets_def lift_def)
  moreover have "validate_full L (ns_chain s') = validate_full L ?d"
    using same_network_validates [OF s'(4), of L "bc_blocks ?d"] s'(2)
    by (metis blockchain.surjective blockchain.update_convs(1))
  ultimately show ?thesis using s'(2,3) chains(2) by (simp add: in_sync_def)
qed

theorem node_catches_up_witness:
  "\<exists>c s'. bc_blocks c = [home_block, next_block]
     \<and> catch_up chain_lib noon (one_peer (hosting c)) every_ten_seconds behind = (Inr (Advanced 1), s')
     \<and> bc_blocks (ns_chain s') = [home_block, next_block]"
proof -
  obtain c where c: "runs chain_lib home c" "bc_blocks c = [home_block, next_block]" using home_extended by blast
  have home: "in_sync chain_lib home" by (rule new_chain_in_sync [OF home_born])
  have c_ok: "in_sync chain_lib c" "same_network home c"
    using runs_in_sync [OF c(1) home] c(2) runs_same_network [OF c(1)] by simp_all
  obtain head where head: "head_of c = (Inr head :: chain_head outcome)" "ch_chain_id head = []"
    "ch_root_hash head = zeros" "ch_base_height head = 0" "ch_height head = 1"
    using two_blocks_head [OF c(2) c_ok(2)] by blast
  obtain ours where ours: "head_of home = (Inr ours :: chain_head outcome)" "ch_chain_id ours = []"
    "ch_root_hash ours = zeros" "ch_base_height ours = 0"
    using home_head by blast
  have chain: "ns_chain behind = home" "ns_chain (hosting c) = c" by (simp_all add: behind_def idle_def hosting_def)
  have picked: "best_head (one_peer (hosting c)) ours (take MAX_PEERS_PER_TICK (ns_peers behind)) None = Some (''p'', head)"
    using head ours hosting_answers(2) [OF head(1)]
    by (simp add: behind_def MAX_PEERS_PER_TICK_def on_network_def)
  have "\<exists>s'. catch_up chain_lib noon (one_peer (hosting c)) every_ten_seconds behind
        = (Inr (Advanced (as_u64 (length [next_block]))), s')
      \<and> bc_blocks (ns_chain s') = bc_blocks (ns_chain (hosting c))
      \<and> bc_state (ns_chain s') = bc_state (ns_chain (hosting c))
      \<and> bc_randomness (ns_chain s') = bc_randomness (ns_chain (hosting c))
      \<and> bc_current_difficulty (ns_chain s') = bc_current_difficulty (ns_chain (hosting c))"
    by (rule node_catches_up [OF _ _ _ _ _ hosting_answers(1) [OF head(1)] _ picked])
       (use home c_ok c ours(1) in \<open>simp_all add: chain served_def every_ten_seconds_def MAX_SYNC_BATCH_def
          home_def next_block_def noon_def\<close>)
  then show ?thesis using c(2) chain by (auto simp: as_u64_def)
qed


section \<open>Messages and tokens\<close>

text \<open>C37 A message the node has accepted is recognised: it is refused again until as many newer
  messages as the cache holds have come in, whatever was received before and between.\<close>

theorem replays_are_refused:
  assumes "fst (seen_insert m (insert_all earlier (new_seen_cache n)))"
    and "length later < max n 1"
  shows "\<not> fst (seen_insert m (insert_all later (snd (seen_insert m (insert_all earlier (new_seen_cache n))))))"
proof -
  let ?c = "insert_all earlier (new_seen_cache n)"
  have ok: "seen_ok ?c" "sc_capacity ?c = max n 1"
    using insert_all_ok [OF new_seen_ok, of earlier n] by (simp_all add: new_seen_cache_def)
  let ?d = "snd (seen_insert m ?c)"
  have d: "seen_ok ?d" "sc_capacity ?d = max n 1" using seen_insert_ok [OF ok(1)] ok(2) by simp_all
  obtain us where "sc_order ?d = us @ [m]" using accepted_at_back [OF ok(1)] assms(1) by (metis prod.collapse)
  then have "m \<in> set (sc_order (insert_all later ?d))" using seen_for_long [OF d(1)] assms(2) d(2) by simp
  moreover have "seen_ok (insert_all later ?d)" using insert_all_ok d(1) by blast
  ultimately show ?thesis by (simp add: seen_insert_queue)
qed

theorem replays_are_refused_witness:
  "\<not> fst (seen_insert ''m'' (insert_all [''a'', ''b''] (snd (seen_insert ''m'' (insert_all [''z''] (new_seen_cache 3))))))"
  by (rule replays_are_refused) code_simp+

text \<open>C38 A token that the node issues verifies under the same key for its scope until its time has
  passed, and never for the other scope.\<close>

theorem issued_token_verifies:
  assumes "\<And>x. b64_decode L (b64_encode L x) = Some x" and "\<And>x. CHR ''.'' \<notin> set (b64_encode L x)"
    and "\<And>x. hex_decode L (hex_encode L x) = Inr x" and "utf8_valid L (token_payload issued (sat_add issued ttl) scope)"
  shows "verify_token L now (generate_token L issued key scope ttl) key expected =
    (if scope \<noteq> expected then Inl (Err ScopeMismatch)
     else if now \<le> sat_add issued ttl then Inr () else Inl (Err Expired))"
proof -
  have "splitn 3 CHR '':'' (token_payload issued e scope) = [show_u64 issued, show_u64 e, scope_str scope]" for e
    by (rule token_parts)
  then show ?thesis
    using assms split_once_at [OF assms(2)]
    by (simp add: verify_token_def generate_token_def Let_def part_def parse_u64_show require_def)
qed

theorem issued_token_verifies_witness:
  "verify_token door 90 (generate_token door 30 ''key'' P2p 60) ''key'' P2p = Inr ()"
  by (subst issued_token_verifies) (simp_all add: sat_add_def checked_add_def)


text \<open>C39 Anyone who may speak to a node can have it refuse a peer. Envelopes that name a peer that is not
  banned and fail their checks cost the peer four points each, whoever delivers them; as soon as they
  take its score to ten below zero, its own sound messages are turned away, for ten minutes from the
  first of them at the least. Three are enough for a peer the node has no record of, and fifteen for
  one with the best score a peer can have, which is 50.\<close>

theorem forgeries_ban_a_peer:
  assumes "list_all (forges A L (ns_access s) peer) forgeries" and "\<not> blank peer"
    and "pr_score (peer_entry (ns_book s) peer) + 10 \<le> 4 * int (length forgeries)" and "forgeries \<noteq> []"
    and "\<forall>(W', tok, e')\<in>set forgeries.
      pr_banned_until (peer_entry (ns_book s) peer) \<le> w_secs W' \<and> w_secs W < w_secs W' + BAN_SECONDS"
    and "unat (pr_bad (peer_entry (ns_book s) peer)) + length forgeries < 2 ^ 64"
    and "room_for (length forgeries + 1) s"
    and "en_node_id e = peer" and "authorize_p2p A (w_secs W) (ns_access s) own"
    and "validate_with_identity L (w_now W) e 300 (ac_p2p_require_identity (ns_access s)) = Inr ()"
  shows "fst (receive_protocol_message A L W own e (serve A L (map delivered forgeries) s))
    = Inr (failed ''Peer is banned or not permitted'')"
proof -
  let ?book = "strikes (map (\<lambda>f. w_secs (fst f)) forgeries) peer (ns_book s)"
  obtain m where run: "serve A L (map delivered forgeries) s = s\<lparr>ns_book := ?book, ns_metrics := m\<rparr>"
    and room: "room_for 1 (s\<lparr>ns_metrics := m\<rparr>)"
    using forgeries_strike [OF assms(1,2,7,6)] by blast
  have "\<not> is_accepted (w_secs W) ?book peer"
    using assms(3-5) by (intro banned_after_strikes) auto
  moreover have "add_u64 (mt_protocol_messages_rejected m) 1 = (Inr (mt_protocol_messages_rejected m + 1) :: u64 outcome)"
    using room by (intro add_one_ok [of _ 1]) (simp_all add: room_for_def)
  ultimately show ?thesis
    using assms(8-10) by (simp add: run receive_protocol_message_def matchE_def reject_def bump_def)
qed

theorem forgeries_ban_a_peer_witness:
  "fst (receive_protocol_message door chain_lib noon (Some ''peers'') (envelope_of P2P_PROTOCOL_VERSION)
      (serve door chain_lib (map delivered (replicate 15 (noon, Some ''peers'', envelope_of ''v0''))) well_reputed))
    = Inr (failed ''Peer is banned or not permitted'')"
proof (rule forgeries_ban_a_peer)
  have named: "\<not> blank ''m''" "\<not> blank ''node-b''" by code_simp+
  have auth: "authorize_p2p door n (ns_access well_reputed) (Some ''peers'')" for n
    by (simp add: authorize_p2p_def well_reputed_def guarded_def idle_def)
  have "forged chain_lib noon (ns_access well_reputed) (envelope_of ''v0'')"
    by (simp add: forged_def validate_with_identity_def envelope_of_def P2P_PROTOCOL_VERSION_def require_def)
  then have "forges door chain_lib (ns_access well_reputed) ''node-b'' (noon, Some ''peers'', envelope_of ''v0'')"
    using auth by (simp add: forges_def envelope_of_def noon_def)
  then show "list_all (forges door chain_lib (ns_access well_reputed) ''node-b'')
      (replicate 15 (noon, Some ''peers'', envelope_of ''v0''))"
    by (simp add: list_all_iff)
  show "authorize_p2p door (w_secs noon) (ns_access well_reputed) (Some ''peers'')" by (rule auth)
  show "validate_with_identity chain_lib (w_now noon) (envelope_of P2P_PROTOCOL_VERSION) 300
      (ac_p2p_require_identity (ns_access well_reputed)) = Inr ()"
    by (simp add: validate_with_identity_def envelope_of_def well_reputed_def guarded_def idle_def require_def
        skew_seconds_def named)
  show "\<not> blank ''node-b''" by (rule named)
qed (simp_all add: well_reputed_def guarded_def idle_def peer_entry_def fmfind_def room_for_def no_metrics_def envelope_of_def
    noon_def BAN_SECONDS_def)


section \<open>The wallet and the node\<close>

text \<open>C40 What the wallet signs, the node accepts. The fields that \<open>hikma-wallet sign-transfer\<close> prints,
  copied into a transfer request to a node of the same network, verify for every block, for classical
  accounts and, with the post-quantum half, for quantum-ready ones, so the reply is decided by the
  admission check alone. When the pool has room, holds no transaction of the same id, and leads
  from the state at the tip to \<open>t\<close>, the transfer goes to the end of the pool if in \<open>t\<close> the
  recipient is an address whose balance can take the amount, the nonce is the sender's next one, the
  sender holds the amount and the fee, and the network does not ask a classical account for a
  quantum-ready one; if not, the request fails and the pool stays as it is.\<close>

theorem wallet_transfer_is_accepted:
  assumes ran: "run_wallet L env fresh [''sign-transfer'', sender, to, show_u64 amount, show_u64 nonce, key] [] = (Inr (), out)"
    and own: "own_signatures L key" "key_of L key sender" "hybrid_output env \<longleftrightarrow> scheme_of sender = Some Hybrid"
    and network: "cs_chain_id (bc_state (ns_chain s)) = wallet_chain_id env"
    and r: "r = signed_fields.extend (copied_fields out nonce) (transfer_request.fields sender to amount)"
    and tx: "tx = (transfer_tx W r)\<lparr>tx_chain_id := wallet_chain_id env\<rparr>"
    and "amount \<noteq> 0" "\<not> blank to"
    and message: "message = ''Transfer of '' @ show_u64 amount @ '' from '' @ sender @ '' to '' @ to
                   @ '' queued; it executes when mined into a block''"
  shows "verify_for_block L tx v = Inr ()
    \<and> fst (transfer_tokens L W r s) =
       (case fst (admit L tx s) of
          Inl Panic \<Rightarrow> Inl Panic | Inl (Err e) \<Rightarrow> Inr (failed e) | Inr _ \<Rightarrow> Inr (success message))
    \<and> (\<forall>t. length (ns_pending s) < MAX_PENDING_TXS \<longrightarrow> tx_id tx \<notin> tx_id ` set (ns_pending s)
        \<longrightarrow> project_pending_state L (bc_state (ns_chain s)) (ns_pending s) (as_u64 (length (bc_blocks (ns_chain s))))
              = (Inr t :: chain_state outcome)
        \<longrightarrow> (if can_transfer t sender to amount nonce
             then fst (transfer_tokens L W r s) = Inr (success message)
               \<and> ns_pending (snd (transfer_tokens L W r s)) = ns_pending s @ [tx]
             else fst (transfer_tokens L W r s) \<noteq> Inr (success message)
               \<and> ns_pending (snd (transfer_tokens L W r s)) = ns_pending s))"
proof -
  have "sign_and_print L env (transfer_signing_message sender to amount nonce) key [] = (Inr (), out)"
    using ran by (simp add: run_wallet_def sign_transfer_def num_arg_def arg_def parse_u64_show)
  moreover have fields: "tx_from tx = Some sender" "tx_to tx = to" "tx_amount tx = amount" "tx_nonce tx = nonce"
    "tx_type tx = Transfer" "tx_chain_id tx = wallet_chain_id env" "with_signature (copied_fields out nonce) tx = tx"
    by (simp_all add: tx r transfer_tx_def with_signature_def new_transaction_def copied_fields_def
        signed_fields.defs transfer_request.defs)
  ultimately have "verify_sender_signature L tx sender (transfer_signing_message sender to amount nonce) = Inr ()"
    using own by (intro wallet_signature_verifies) simp_all
  then have v: "verify_for_block L tx v = Inr ()" for v
    using fields by (simp add: verify_for_block_def verify_transfer_def)
  have kept: "rt_amount r = amount" "rt_to r = to" "rt_from r = sender"
    by (simp_all add: r signed_fields.defs transfer_request.defs)
  have kind: "tx_type (transfer_tx W r) \<noteq> Reward"
    by (simp add: transfer_tx_def with_signature_def new_transaction_def)
  have queued: "fst (queue_transaction L W (transfer_tx W r) s) =
      (case fst (admit L tx s) of Inl e \<Rightarrow> Inl e | Inr _ \<Rightarrow> Inr ())"
    "ns_pending (snd (queue_transaction L W (transfer_tx W r) s)) = ns_pending (snd (admit L tx s))"
    using v kind network
    by (cases "admit L tx s";
        auto simp: queue_transaction_def tx [symmetric] bindE_def persist_state_def spawn_def modify_def ret_def
          split: sum.split if_splits)+
  then have reply: "fst (transfer_tokens L W r s) =
      (case fst (admit L tx s) of
         Inl Panic \<Rightarrow> Inl Panic | Inl (Err e) \<Rightarrow> Inr (failed e) | Inr _ \<Rightarrow> Inr (success message))"
    "ns_pending (snd (transfer_tokens L W r s)) = ns_pending (snd (admit L tx s))"
    using assms(8,9) kept message
    by (cases "queue_transaction L W (transfer_tx W r) s";
        auto simp: transfer_tokens_def queue_reply_def matchE_def ret_def split: sum.split failure.split)+
  have "if can_transfer t sender to amount nonce
        then fst (transfer_tokens L W r s) = Inr (success message)
          \<and> ns_pending (snd (transfer_tokens L W r s)) = ns_pending s @ [tx]
        else fst (transfer_tokens L W r s) \<noteq> Inr (success message)
          \<and> ns_pending (snd (transfer_tokens L W r s)) = ns_pending s"
    if room: "length (ns_pending s) < MAX_PENDING_TXS" "tx_id tx \<notin> tx_id ` set (ns_pending s)"
      and t: "project_pending_state L (bc_state (ns_chain s)) (ns_pending s) (as_u64 (length (bc_blocks (ns_chain s))))
        = (Inr t :: chain_state outcome)" for t
  proof -
    have "tx_chain_id tx = cs_chain_id t"
      using projection_evolves [OF t] network fields(6) by (simp add: evolves_def)
    note applies = transfer_applies_iff [OF fields(5,1) this, unfolded fields(2-4)]
    show ?thesis
      unfolding reply admit_outcome [OF room t]
      using applies [of L "as_u64 (length (bc_blocks (ns_chain s)))"]
      by (auto simp: success_def failed_def split: sum.split failure.split)
  qed
  with v reply(1) show ?thesis by blast
qed

theorem wallet_transfer_is_accepted_witness:
  "\<exists>out. run_wallet chain_lib no_env [] [''sign-transfer'', treasury, customer, show_u64 5, show_u64 1, ''00''] [] = (Inr (), out)
     \<and> (let r = signed_fields.extend (copied_fields out 1) (transfer_request.fields treasury customer 5);
            tx = (transfer_tx noon r)\<lparr>tx_chain_id := wallet_chain_id no_env\<rparr> in
         verify_for_block chain_lib tx treasury = Inr ()
         \<and> ns_pending (snd (transfer_tokens chain_lib noon r wealthy)) = [tx])"
proof -
  obtain out where out: "run_wallet chain_lib no_env []
      [''sign-transfer'', treasury, customer, show_u64 5, show_u64 1, ''00''] [] = (Inr (), out)"
    using wallet_prints by blast
  let ?r = "signed_fields.extend (copied_fields out 1) (transfer_request.fields treasury customer 5)"
  let ?tx = "(transfer_tx noon ?r)\<lparr>tx_chain_id := wallet_chain_id no_env\<rparr>"
  have b: "\<not> blank customer" by code_simp
  have n: "cs_chain_id (bc_state (ns_chain wealthy)) = wallet_chain_id no_env"
    by (simp add: wealthy_def wallet_chain_id_def no_env_def nonempty_def)
  have h: "hybrid_output no_env \<longleftrightarrow> scheme_of treasury = Some Hybrid"
    by (simp add: hybrid_output_def no_env_def)
  note c40 = wallet_transfer_is_accepted [OF out wallet_owns h n refl refl _ b refl, of noon treasury]
  have "verify_for_block chain_lib ?tx treasury = Inr ()" using c40 by simp
  moreover have "ns_pending (snd (transfer_tokens chain_lib noon ?r wealthy)) = [?tx]"
    using c40 [THEN conjunct2, THEN conjunct2, rule_format, of "bc_state (ns_chain wealthy)"] wealthy_simps
    by (simp add: MAX_PENDING_TXS_def can_transfer_def is_valid_address_def)
  ultimately show ?thesis using out by (auto simp: Let_def)
qed

end
