(* ===== verification/Disk.thy ===== *)
theory Disk
  imports Boot
begin

text \<open>
  The file of the saved state (\<open>src/src/persistence.rs\<close>): where it is, how a node reads it when it
  starts, and the steps in which a save reaches the disk. A disk holds the directories and files
  that were made on it. The operating system may refuse any step (\<open>os\<close>, with the text of its error), a
  file is written byte by byte, and renaming a file onto another is one step. serde's JSON of a
  snapshot is a parameter. Paths are compared by their names, without resolving \<open>..\<close> or links. Files are
  what the running system shows: what a disk still holds after a loss of power, before the system
  has flushed it, is outside this model.
\<close>


section \<open>Paths\<close>

text \<open>
  A \<open>std::path::Path\<close> as its components: whether it is absolute, and its names, without the empty
  ones and every \<open>.\<close> but a leading one.
\<close>

type_synonym path = "bool \<times> string list"

definition path_of :: "string \<Rightarrow> path" where
  "path_of s =
     (case split_all CHR ''/'' s of
        [] \<Rightarrow> (False, [])
      | p # ps \<Rightarrow> (starts_with ''/'' s, (if p = [] then [] else [p]) @ filter (\<lambda>q. q \<noteq> [] \<and> q \<noteq> ''.'') ps))"

definition parent :: "path \<Rightarrow> path option" where
  "parent p = (case p of (absolute, names) \<Rightarrow> if names = [] then None else Some (absolute, butlast names))"

definition DEFAULT_STATE_PATH :: string where "DEFAULT_STATE_PATH = ''data/state.json''"

definition state_path :: "(string \<Rightarrow> string option) \<Rightarrow> string" where
  "state_path env = (case env ''HIKMALAYER_STATE_PATH'' of None \<Rightarrow> DEFAULT_STATE_PATH | Some v \<Rightarrow> v)"

definition tmp_path :: "string \<Rightarrow> string" where
  "tmp_path path = path @ ''.tmp''"


section \<open>The disk\<close>

record disk =
  dk_dirs :: "path list"
  dk_files :: "(path, string) fmap"

definition is_dir :: "disk \<Rightarrow> path \<Rightarrow> bool" where
  "is_dir d p \<longleftrightarrow> snd p = [] \<or> p \<in> set (dk_dirs d)"

definition in_dir :: "disk \<Rightarrow> path \<Rightarrow> bool" where
  "in_dir d p \<longleftrightarrow> (case parent p of None \<Rightarrow> False | Some q \<Rightarrow> is_dir d q)"

datatype disk_op = MakeDir path | Truncate path | Append path char | Rename path path

primrec apply_op :: "disk_op \<Rightarrow> disk \<Rightarrow> disk option" where
  "apply_op (MakeDir p) d =
     (if is_dir d p then Some d
      else if in_dir d p \<and> \<not> fmhas (dk_files d) p then Some (d\<lparr>dk_dirs := dk_dirs d @ [p]\<rparr>) else None)"
| "apply_op (Truncate p) d =
     (if in_dir d p \<and> \<not> is_dir d p then Some (d\<lparr>dk_files := fmupd p [] (dk_files d)\<rparr>) else None)"
| "apply_op (Append p c) d =
     (case fmlookup (dk_files d) p of None \<Rightarrow> None
      | Some data \<Rightarrow> Some (d\<lparr>dk_files := fmupd p (data @ [c]) (dk_files d)\<rparr>))"
| "apply_op (Rename p q) d =
     (case fmlookup (dk_files d) p of None \<Rightarrow> None
      | Some data \<Rightarrow>
          if in_dir d q \<and> \<not> is_dir d q then Some (d\<lparr>dk_files := fmupd q data (fmdrop p (dk_files d))\<rparr>) else None)"

text \<open>A directory that is already there is never asked for.\<close>

definition needless :: "disk_op \<Rightarrow> disk \<Rightarrow> bool" where
  "needless op d = (case op of MakeDir p \<Rightarrow> is_dir d p | _ \<Rightarrow> False)"

definition os_do :: "(disk_op \<Rightarrow> disk \<Rightarrow> string option) \<Rightarrow> disk_op \<Rightarrow> (disk, unit) exec" where
  "os_do os op d =
     (case (if needless op d then None else os op d, apply_op op d) of
        (None, Some d') \<Rightarrow> (Inr (), d')
      | (Some err, _) \<Rightarrow> (Inl (Err err), d)
      | (None, None) \<Rightarrow> (Inl (Err ''No such file or directory''), d))"


section \<open>Loading and saving\<close>

record snapshot_json =
  snap_print :: "app_snapshot \<Rightarrow> string option"
  snap_parse :: "string \<Rightarrow> app_snapshot option"
  snap_utf8 :: "string \<Rightarrow> bool"

text \<open>
  Reading: a file that is there is read (the code takes an I/O error on it for its absence, which is not
  modelled), and a text that is not UTF-8 or does not parse counts as no state.
\<close>

definition load_state :: "snapshot_json \<Rightarrow> (string \<Rightarrow> string option) \<Rightarrow> disk \<Rightarrow> app_snapshot option" where
  "load_state J env d =
     Option.bind (fmlookup (dk_files d) (path_of (state_path env))) (\<lambda>contents.
     if snap_utf8 J contents then snap_parse J contents else None)"

definition create_dir_all :: "path \<Rightarrow> disk_op list" where
  "create_dir_all p = map (\<lambda>n. MakeDir (fst p, take n (snd p))) [1..<length (snd p) + 1]"

definition write_file :: "path \<Rightarrow> string \<Rightarrow> disk_op list" where
  "write_file p data = Truncate p # map (Append p) data"

definition save_ops :: "snapshot_json \<Rightarrow> string \<Rightarrow> app_snapshot \<Rightarrow> disk_op list" where
  "save_ops J path snap =
     (case parent (path_of path) of None \<Rightarrow> [] | Some dir \<Rightarrow> create_dir_all dir)
     @ (case snap_print J snap of None \<Rightarrow> []
        | Some data \<Rightarrow> write_file (path_of (tmp_path path)) data @ [Rename (path_of (tmp_path path)) (path_of path)])"

definition save_state ::
  "snapshot_json \<Rightarrow> (string \<Rightarrow> string option) \<Rightarrow> (disk_op \<Rightarrow> disk \<Rightarrow> string option) \<Rightarrow> app_snapshot
   \<Rightarrow> (disk, unit) exec" where
  "save_state J env os snap =
     bindE (forE (save_ops J (state_path env) snap) (os_do os)) (\<lambda>_.
     ensure (snap_print J snap \<noteq> None) ''serialization failed'')"

text \<open>The disk a node leaves that dies after \<open>n\<close> steps of a save.\<close>

definition die_saving ::
  "snapshot_json \<Rightarrow> (string \<Rightarrow> string option) \<Rightarrow> (disk_op \<Rightarrow> disk \<Rightarrow> string option) \<Rightarrow> app_snapshot
   \<Rightarrow> nat \<Rightarrow> disk \<Rightarrow> disk" where
  "die_saving J env os snap n d = snd (forE (take n (save_ops J (state_path env) snap)) (os_do os) d)"

text \<open>What is left of a snapshot on the way through its file: the fields marked \<open>serde(skip)\<close> are reset.\<close>

definition persisted_chain :: "blockchain \<Rightarrow> blockchain" where
  "persisted_chain c = c\<lparr>bc_state := default_chain_state, bc_randomness := [], bc_current_difficulty := 0\<rparr>"

definition persisted :: "app_snapshot \<Rightarrow> app_snapshot" where
  "persisted snap = snap\<lparr>as_chain := persisted_chain (as_chain snap)\<rparr>"

text \<open>A node that starts from its disk.\<close>

definition start ::
  "'x node_lib_scheme \<Rightarrow> snapshot_json \<Rightarrow> (string \<Rightarrow> string option) \<Rightarrow> checkpoint_bundle option \<Rightarrow> disk
   \<Rightarrow> (node \<times> p2p_service) outcome" where
  "start L J env bundle d = boot L env bundle (load_state J env d)"


section \<open>What a save does to the file\<close>

lemma split_all_nonempty [simp]: "split_all c xs \<noteq> []"
  by (induction xs) (auto split: list.split)

lemma split_all_append:
  "c \<notin> set ys \<Longrightarrow> split_all c (xs @ ys) = butlast (split_all c xs) @ [last (split_all c xs) @ ys]"
proof (induction xs)
  case Nil
  then have "split_all c ys = [ys]" by (induction ys) auto
  then show ?case by simp
next
  case (Cons x xs)
  then show ?case by (cases "split_all c xs") (auto split: list.split)
qed

lemma tmp_path_apart [simp]: "path_of (tmp_path s) \<noteq> path_of s"
proof -
  obtain p ps where ps: "split_all CHR ''/'' s = p # ps" by (cases "split_all CHR ''/'' s") auto
  have t: "split_all CHR ''/'' (tmp_path s) = butlast (p # ps) @ [last (p # ps) @ ''.tmp'']"
    unfolding tmp_path_def ps [symmetric] by (rule split_all_append) simp
  show ?thesis
  proof (cases ps rule: rev_cases)
    case Nil
    then show ?thesis using ps t by (simp add: path_of_def)
  next
    case (snoc qs q)
    then show ?thesis using ps t by (auto simp: path_of_def butlast_append)
  qed
qed

definition spares :: "path \<Rightarrow> disk_op \<Rightarrow> bool" where
  "spares p op \<longleftrightarrow> (case op of MakeDir _ \<Rightarrow> True | Truncate q \<Rightarrow> q \<noteq> p | Append q _ \<Rightarrow> q \<noteq> p
                  | Rename q r \<Rightarrow> q \<noteq> p \<and> r \<noteq> p)"

lemma os_do_spares:
  "spares p op \<Longrightarrow> fmlookup (dk_files (snd (os_do os op d))) p = fmlookup (dk_files d) p"
  by (cases op) (auto simp: spares_def os_do_def split: option.split if_splits)

lemma forE_spares:
  "list_all (spares p) ops \<Longrightarrow> fmlookup (dk_files (snd (forE ops (os_do os) d))) p = fmlookup (dk_files d) p"
proof (induction ops arbitrary: d)
  case (Cons op ops)
  then show ?case using os_do_spares [of p op os d]
    by (cases "os_do os op d") (auto simp: bindE_def split: sum.split)
qed (simp add: ret_def)

lemma forE_append: "forE (xs @ ys) f = bindE (forE xs f) (\<lambda>_. forE ys f)"
  by (induction xs) (auto simp: bindE_def ret_def fun_eq_iff split: sum.split prod.split)

lemma os_do_ok: "os_do os op d = (Inr (), d') \<Longrightarrow> apply_op op d = Some d'"
  by (auto simp: os_do_def split: option.splits if_splits)

lemma appended:
  "forE (map (Append p) data) (os_do os) d = (Inr (), d') \<Longrightarrow> fmlookup (dk_files d) p = Some old
   \<Longrightarrow> fmlookup (dk_files d') p = Some (old @ data)"
proof (induction data arbitrary: d old)
  case (Cons c data)
  obtain d1 where d1: "os_do os (Append p c) d = (Inr (), d1)" "forE (map (Append p) data) (os_do os) d1 = (Inr (), d')"
    using Cons.prems(1) by (auto simp: exec_ok)
  have "fmlookup (dk_files d1) p = Some (old @ [c])"
    using os_do_ok [OF d1(1)] Cons.prems(2) by (auto split: option.splits)
  then show ?case using Cons.IH [OF d1(2)] by simp
qed (simp add: exec_ok)

lemma written:
  assumes "forE (write_file p data) (os_do os) d = (Inr (), d')"
  shows "fmlookup (dk_files d') p = Some data"
proof -
  obtain d1 where d1: "os_do os (Truncate p) d = (Inr (), d1)" "forE (map (Append p) data) (os_do os) d1 = (Inr (), d')"
    using assms by (auto simp: write_file_def exec_ok)
  have "fmlookup (dk_files d1) p = Some []" using os_do_ok [OF d1(1)] by (auto split: if_splits)
  then show ?thesis using appended [OF d1(2)] by simp
qed


definition target_of :: "(string \<Rightarrow> string option) \<Rightarrow> disk \<Rightarrow> string option" where
  "target_of env d = fmlookup (dk_files d) (path_of (state_path env))"

lemma save_ops_split:
  "\<exists>pre. list_all (spares (path_of path)) pre
     \<and> save_ops J path snap = pre @ (case snap_print J snap of None \<Rightarrow> []
         | Some data \<Rightarrow> write_file (path_of (tmp_path path)) data @ [Rename (path_of (tmp_path path)) (path_of path)])"
  by (rule exI [of _ "case parent (path_of path) of None \<Rightarrow> [] | Some dir \<Rightarrow> create_dir_all dir"])
     (auto simp: save_ops_def create_dir_all_def list_all_iff spares_def split: option.split)

text \<open>Every step before the last one leaves the target alone; the last one puts all of the text there.\<close>

lemma saved_text:
  assumes print: "snap_print J snap = Some data"
    and run: "forE (save_ops J (state_path env) snap) (os_do os) d = (Inr (), d')"
  shows "target_of env d' = Some data"
proof -
  let ?tmp = "path_of (tmp_path (state_path env))"
  obtain d1 d2 where d1: "forE (write_file ?tmp data) (os_do os) d2 = (Inr (), d1)"
    and last: "os_do os (Rename ?tmp (path_of (state_path env))) d1 = (Inr (), d')"
    using run save_ops_split [of "state_path env" J snap] by (auto simp: print forE_append exec_ok)
  show ?thesis
    using os_do_ok [OF last] written [OF d1] by (auto simp: target_of_def split: if_splits)
qed

lemma spared_ops:
  "snap_print J snap = None \<Longrightarrow> list_all (spares (path_of path)) (save_ops J path snap)"
  "snap_print J snap = Some data \<Longrightarrow> list_all (spares (path_of path)) (butlast (save_ops J path snap))"
  by (auto simp: save_ops_def create_dir_all_def write_file_def butlast_append list_all_iff spares_def
      split: option.split)

lemma steps_before_rename:
  assumes "n < length (save_ops J (state_path env) snap) \<or> snap_print J snap = None"
  shows "target_of env (snd (forE (take n (save_ops J (state_path env) snap)) (os_do os) d)) = target_of env d"
proof -
  have "list_all (spares (path_of (state_path env))) (take n (save_ops J (state_path env) snap))"
  proof (cases "snap_print J snap")
    case None
    from spared_ops(1) [OF this] show ?thesis by (auto simp: list_all_iff dest: in_set_takeD)
  next
    case (Some data)
    then have "take n (save_ops J (state_path env) snap) = take n (butlast (save_ops J (state_path env) snap))"
      using assms by (simp add: butlast_conv_take)
    with spared_ops(2) [OF Some] show ?thesis by (auto simp: list_all_iff dest: in_set_takeD)
  qed
  then show ?thesis unfolding target_of_def by (rule forE_spares)
qed

lemma failed_run:
  "fst (forE ops f d) = Inl e \<Longrightarrow> (\<And>op s e. fst (f op s) = Inl e \<Longrightarrow> snd (f op s) = s)
   \<Longrightarrow> \<exists>n<length ops. forE ops f d = (Inl e, snd (forE (take n ops) f d)) \<and> fst (forE (take n ops) f d) = Inr ()"
proof (induction ops arbitrary: d)
  case (Cons op ops)
  show ?case
  proof (cases "f op d")
    case (Pair r d1)
    show ?thesis
    proof (cases r)
      case (Inl e1)
      then show ?thesis using Cons.prems(1) Cons.prems(2) [of op d e1] Pair by (intro exI [of _ 0]) (simp add: bindE_def ret_def)
    next
      case (Inr u)
      then have "fst (forE ops f d1) = Inl e" using Cons.prems(1) Pair by (simp add: bindE_def)
      then obtain n where "n < length ops" "forE ops f d1 = (Inl e, snd (forE (take n ops) f d1))"
        "fst (forE (take n ops) f d1) = Inr ()"
        using Cons.IH Cons.prems(2) by blast
      then show ?thesis using Pair Inr by (intro exI [of _ "Suc n"]) (simp add: bindE_def)
    qed
  qed
qed (simp add: ret_def)

lemma os_do_failed: "fst (os_do os op d) = Inl e \<Longrightarrow> snd (os_do os op d) = d"
  by (auto simp: os_do_def split: option.splits if_splits)


section \<open>The store of a node's snapshots\<close>

text \<open>
  One attempt to save: it comes to an end, with or without success, or the node dies in it. Before
  the next one the node reads the file when it starts.
\<close>

datatype 'os attempt = Saves (the_os: 'os) (the_snap: app_snapshot) | Dies (the_os: 'os) (the_snap: app_snapshot) nat

fun live ::
  "('os \<Rightarrow> app_snapshot \<Rightarrow> ('d, unit) exec) \<Rightarrow> ('os \<Rightarrow> app_snapshot \<Rightarrow> nat \<Rightarrow> 'd \<Rightarrow> 'd)
   \<Rightarrow> 'os attempt list \<Rightarrow> 'd \<Rightarrow> 'd" where
  "live save die [] d = d"
| "live save die (Saves os x # as) d = live save die as (snd (save os x d))"
| "live save die (Dies os x n # as) d = live save die as (die os x n d)"

text \<open>What a node relies on: a save replaces the snapshot as a whole or not at all.\<close>

locale snapshot_store =
  fixes load :: "'d \<Rightarrow> app_snapshot option"
    and save :: "'os \<Rightarrow> app_snapshot \<Rightarrow> ('d, unit) exec"
    and die :: "'os \<Rightarrow> app_snapshot \<Rightarrow> nat \<Rightarrow> 'd \<Rightarrow> 'd"
    and sound :: "app_snapshot \<Rightarrow> bool"
    and keep :: "app_snapshot \<Rightarrow> app_snapshot"
  assumes saved: "sound x \<Longrightarrow> save os x d = (Inr (), d') \<Longrightarrow> load d' = Some (keep x)"
    and refused: "save os x d = (Inl e, d') \<Longrightarrow> load d' = load d"
    and died: "sound x \<Longrightarrow> load (die os x n d) = load d \<or> load (die os x n d) = Some (keep x)"
begin

lemma attempted: "sound x \<Longrightarrow> load (snd (save os x d)) = load d \<or> load (snd (save os x d)) = Some (keep x)"
  using saved [of x os d] refused [of os x d] by (cases "save os x d"; cases "fst (save os x d)") auto

lemma lived:
  "\<forall>a\<in>set as. sound (the_snap a) \<Longrightarrow>
   load (live save die as d) \<in> insert (load d) ((\<lambda>a. Some (keep (the_snap a))) ` set as)"
proof (induction as arbitrary: d)
  case (Cons a as)
  have rest: "load (live save die as u) \<in> insert (load u) ((\<lambda>a. Some (keep (the_snap a))) ` set as)" for u
    using Cons by simp
  have one: "sound (the_snap a)" using Cons.prems by simp
  show ?case
  proof (cases a)
    case (Saves os x)
    then show ?thesis using attempted [of x os d] one rest [of "snd (save os x d)"] by auto
  next
    case (Dies os x n)
    then show ?thesis using died [of x os n d] one rest [of "die os x n d"] by auto
  qed
qed simp

text \<open>After a save that succeeded, the node finds its snapshot or a later one.\<close>

lemma lived_on:
  assumes "sound x" "save os x d = (Inr (), d')" "\<forall>a\<in>set as. sound (the_snap a)"
  shows "load (live save die as d') \<in> (\<lambda>y. Some (keep y)) ` insert x (the_snap ` set as)"
  using lived [OF assms(3), of d'] saved [OF assms(1,2)] by auto

end

text \<open>serde reads back what it wrote.\<close>

definition reads_back :: "snapshot_json \<Rightarrow> app_snapshot \<Rightarrow> bool" where
  "reads_back J snap \<longleftrightarrow>
     (case snap_print J snap of None \<Rightarrow> False
      | Some data \<Rightarrow> snap_utf8 J data \<and> snap_parse J data = Some (persisted snap))"

lemma load_state_target:
  "load_state J env d = Option.bind (target_of env d) (\<lambda>t. if snap_utf8 J t then snap_parse J t else None)"
  by (simp add: load_state_def target_of_def)

lemma save_state_ok:
  "save_state J env os snap d = (Inr (), d') \<longleftrightarrow>
     snap_print J snap \<noteq> None \<and> forE (save_ops J (state_path env) snap) (os_do os) d = (Inr (), d')"
  by (auto simp: save_state_def exec_ok)

interpretation state_file: snapshot_store "load_state J env" "save_state J env" "die_saving J env" "reads_back J" persisted
  for J env
proof unfold_locales
  fix x os d d'
  assume "reads_back J x" and run: "save_state J env os x d = (Inr (), d')"
  then obtain data where "snap_print J x = Some data" "snap_utf8 J data" "snap_parse J data = Some (persisted x)"
    by (auto simp: reads_back_def split: option.splits)
  with run show "load_state J env d' = Some (persisted x)"
    using saved_text by (auto simp: save_state_ok load_state_target)
next
  fix x os d d' e
  assume run: "save_state J env os x d = (Inl e, d')"
  let ?ops = "save_ops J (state_path env) x"
  have "\<exists>n. d' = snd (forE (take n ?ops) (os_do os) d) \<and> (n < length ?ops \<or> snap_print J x = None)"
  proof (cases "fst (forE ?ops (os_do os) d)")
    case (Inl e')
    then obtain n where n: "n < length ?ops" "forE ?ops (os_do os) d = (Inl e', snd (forE (take n ?ops) (os_do os) d))"
      using failed_run [of ?ops "os_do os" d e'] os_do_failed by blast
    then have "d' = snd (forE (take n ?ops) (os_do os) d)" using run by (simp add: save_state_def bindE_def)
    with n(1) show ?thesis by blast
  next
    case (Inr u)
    then show ?thesis using run
      by (intro exI [of _ "length ?ops"]) (auto simp: save_state_def bindE_def lift_def require_def split: prod.splits if_splits)
  qed
  then show "load_state J env d' = load_state J env d"
    using steps_before_rename by (auto simp: load_state_target)
next
  fix x os n d
  assume "reads_back J x"
  then obtain data where x: "snap_print J x = Some data" "snap_utf8 J data" "snap_parse J data = Some (persisted x)"
    by (auto simp: reads_back_def split: option.splits)
  let ?ops = "save_ops J (state_path env) x"
  let ?d' = "die_saving J env os x n d"
  have "target_of env ?d' = target_of env d \<or> target_of env ?d' = Some data"
  proof (cases "n < length ?ops")
    case True
    then show ?thesis using steps_before_rename by (simp add: die_saving_def)
  next
    case False
    then have d': "?d' = snd (forE ?ops (os_do os) d)" by (simp add: die_saving_def)
    show ?thesis
    proof (cases "fst (forE ?ops (os_do os) d)")
      case (Inl e)
      then show ?thesis using failed_run [of ?ops "os_do os" d e] os_do_failed steps_before_rename d' by force
    next
      case (Inr u)
      then show ?thesis using saved_text [OF x(1), of env os d ?d'] d' by (cases "forE ?ops (os_do os) d") auto
    qed
  qed
  then show "load_state J env ?d' = load_state J env d \<or> load_state J env ?d' = Some (persisted x)"
    using x by (auto simp: load_state_target)
qed

end
