(* ===== verification/Restart.thy ===== *)
theory Restart
  imports Disk Node_Samples
begin

text \<open>
  What a node finds again when it starts: the file of its state against every way a save can end,
  the saved snapshot of the node's record against that file, and the node that starts from it.
\<close>


section \<open>A disk at work\<close>

text \<open>JSON of two snapshots, a system that refuses nothing, and one whose disk is full.\<close>

definition pair_json :: "app_snapshot \<Rightarrow> app_snapshot \<Rightarrow> snapshot_json" where
  "pair_json x y = \<lparr>snap_print = (\<lambda>z. Some (if z = x then ''A'' else ''B'')),
     snap_parse = (\<lambda>t. Some (persisted (if t = ''A'' then x else y))), snap_utf8 = (\<lambda>_. True)\<rparr>"

definition calm :: "disk_op \<Rightarrow> disk \<Rightarrow> string option" where
  "calm op d = None"

definition full :: "disk_op \<Rightarrow> disk \<Rightarrow> string option" where
  "full op d = (case op of Append _ _ \<Rightarrow> Some ''No space left on device'' | _ \<Rightarrow> None)"

definition empty_disk :: disk where
  "empty_disk = \<lparr>dk_dirs = [], dk_files = fmempty\<rparr>"

lemma pair_reads_back: "reads_back (pair_json x y) x" "reads_back (pair_json x y) y"
  by (simp_all add: reads_back_def pair_json_def)

lemma default_paths:
  "path_of (state_path no_env) = (False, [''data'', ''state.json''])"
  "path_of (tmp_path (state_path no_env)) = (False, [''data'', ''state.json.tmp''])"
  by (simp_all add: state_path_def no_env_def DEFAULT_STATE_PATH_def tmp_path_def path_of_def starts_with_def)

text \<open>The first save on a new machine makes the directory, and the temporary file is gone afterwards.\<close>

lemma first_save:
  "save_state (pair_json x y) no_env calm x empty_disk
     = (Inr (), \<lparr>dk_dirs = [(False, [''data''])], dk_files = fmupd (False, [''data'', ''state.json'']) ''A'' fmempty\<rparr>)"
proof -
  have "save_ops (pair_json x y) (state_path no_env) x
      = [MakeDir (False, [''data'']), Truncate (False, [''data'', ''state.json.tmp'']),
         Append (False, [''data'', ''state.json.tmp'']) CHR ''A'',
         Rename (False, [''data'', ''state.json.tmp'']) (False, [''data'', ''state.json''])]"
    by (simp add: save_ops_def default_paths parent_def create_dir_all_def write_file_def pair_json_def)
  then show ?thesis
    by (simp add: save_state_def os_do_def calm_def empty_disk_def needless_def is_dir_def in_dir_def parent_def
        pair_json_def bindE_def ret_def lift_def require_def fmap_ext)
qed


section \<open>The node's record of its last save\<close>

definition saved_on :: "snapshot_json \<Rightarrow> (string \<Rightarrow> string option) \<Rightarrow> disk \<Rightarrow> node \<Rightarrow> bool" where
  "saved_on J env d s \<longleftrightarrow> load_state J env d = map_option persisted (ns_saved s)"

text \<open>Saving the node's state on its disk does what the node's model says: \<open>persist_state\<close> records the
  snapshot when the disk takes it and keeps the last one otherwise, and that record stays what the
  node would load from its disk.\<close>

theorem persist_is_the_file:
  assumes "saved_on J env d s" "reads_back J (snapshot_of s)"
    and run: "save_state J env os (snapshot_of s) d = (r, d')" and "w_disk W \<longleftrightarrow> r = Inr ()"
  shows "saved_on J env d' (snd (persist_state W s))"
proof (cases r)
  case (Inl e)
  then have "load_state J env d' = load_state J env d" using run state_file.refused by blast
  then show ?thesis using assms Inl by (simp add: saved_on_def persist_state_def modify_def)
next
  case (Inr u)
  then have "load_state J env d' = Some (persisted (snapshot_of s))" using run assms(2) state_file.saved by auto
  then show ?thesis using assms Inr by (simp add: saved_on_def persist_state_def modify_def)
qed

theorem persist_is_the_file_witness:
  "saved_on (pair_json home_snapshot home_snapshot) no_env
     (snd (save_state (pair_json home_snapshot home_snapshot) no_env calm home_snapshot empty_disk))
     (snd (persist_state noon (idle\<lparr>ns_saved := None\<rparr>)))"
proof -
  have snap: "snapshot_of (idle\<lparr>ns_saved := None\<rparr>) = home_snapshot"
    by (simp add: snapshot_of_def idle_def home_snapshot_def)
  have "saved_on (pair_json home_snapshot home_snapshot) no_env empty_disk (idle\<lparr>ns_saved := None\<rparr>)"
    by (simp add: saved_on_def load_state_def empty_disk_def)
  then show ?thesis
    using persist_is_the_file [of "pair_json home_snapshot home_snapshot" no_env empty_disk
        "idle\<lparr>ns_saved := None\<rparr>" calm "Inr ()" _ noon]
    by (simp add: snap pair_reads_back first_save noon_def)
qed


section \<open>Starting again\<close>

lemma rebuild_persisted: "in_sync L c \<Longrightarrow> rebuild_state L (persisted_chain c) = Inr c"
  by (simp add: rebuild_state_ok persisted_chain_def in_sync_def)

lemma boot_chain_persisted:
  "in_sync L (as_chain snap) \<Longrightarrow> boot_chain L env bundle (Some (persisted snap)) d = Inr (as_chain snap)"
  by (simp add: boot_chain_def persisted_def rebuild_persisted)

text \<open>The keys and the service of a node depend on its environment alone.\<close>

lemma boot_same_env:
  assumes "boot L env bundle saved = Inr (s, service)"
    and "boot_chain L env bundle' saved' 2 = Inr c"
    and "apply_finality (gc_finality_depth (case saved' of None \<Rightarrow> default_governance | Some x \<Rightarrow> as_governance x)) c
           = (Inr c' :: blockchain outcome)"
  shows "\<exists>t. boot L env bundle' saved' = Inr (t, service) \<and> ns_chain t = c'"
  using assms by (auto simp: boot_def bindR_ok Let_def)


lemma fold_extends: "(\<And>x xs. set xs \<subseteq> set (f x xs)) \<Longrightarrow> set xs \<subseteq> set (fold f ys xs)"
  by (induction ys arbitrary: xs) (auto, blast)

lemma boot_peers_known: "set known \<subseteq> set (boot_peers known bootnodes)"
  unfolding boot_peers_def by (auto split: option.split intro!: fold_extends [THEN subsetD] simp: Let_def)

text \<open>What a node shares with the one that saved \<open>snap\<close>.\<close>

definition restores :: "app_snapshot \<Rightarrow> node \<Rightarrow> bool" where
  "restores snap t \<longleftrightarrow>
     bc_blocks (ns_chain t) = bc_blocks (as_chain snap) \<and> bc_state (ns_chain t) = bc_state (as_chain snap)
     \<and> bc_randomness (ns_chain t) = bc_randomness (as_chain snap)
     \<and> bc_current_difficulty (ns_chain t) = bc_current_difficulty (as_chain snap)
     \<and> same_network (as_chain snap) (ns_chain t)
     \<and> ns_contracts t = as_contracts snap \<and> ns_pending t = as_pending_transactions snap
     \<and> ns_governance t = as_governance snap \<and> ns_evidence t = as_slash_evidence snap
     \<and> set (as_peers snap) \<subseteq> set (ns_peers t)"

lemma boot_restores:
  assumes sync: "in_sync L (as_chain snap)"
    and size: "unat (bc_base_height (as_chain snap)) + length (bc_blocks (as_chain snap)) < 2 ^ 63"
    and first: "boot L env bundle saved = Inr (s, service)"
  shows "\<exists>t. boot L env bundle' (Some (persisted snap)) = Inr (t, service) \<and> restores snap t"
proof -
  obtain c' where c': "apply_finality (gc_finality_depth (as_governance snap)) (as_chain snap) = (Inr c' :: blockchain outcome)"
    "c' = (as_chain snap)\<lparr>bc_finalized_height := bc_finalized_height c'\<rparr>"
    using finality_moves [of "as_chain snap"] sync size finality_sets_height by (fastforce simp: in_sync_def validate_full_ok)
  have "\<exists>t. boot L env bundle' (Some (persisted snap)) = Inr (t, service) \<and> ns_chain t = c'"
    by (rule boot_same_env [OF first boot_chain_persisted [OF sync]]) (simp add: persisted_def c'(1))
  then obtain t where t: "boot L env bundle' (Some (persisted snap)) = Inr (t, service)" "ns_chain t = c'" by blast
  have "ns_contracts t = as_contracts snap" "ns_pending t = as_pending_transactions snap"
    "ns_governance t = as_governance snap" "ns_evidence t = as_slash_evidence snap"
    "set (as_peers snap) \<subseteq> set (ns_peers t)"
    using t(1) by (auto simp: boot_def exec_ok Let_def persisted_def intro: boot_peers_known [THEN subsetD])
  moreover have "same_network (as_chain snap) c'" by (subst c'(2)) (simp add: same_network_def)
  moreover have "bc_blocks c' = bc_blocks (as_chain snap)" "bc_state c' = bc_state (as_chain snap)"
    "bc_randomness c' = bc_randomness (as_chain snap)" "bc_current_difficulty c' = bc_current_difficulty (as_chain snap)"
    by (subst c'(2); simp)+
  ultimately show ?thesis using t by (auto simp: restores_def)
qed

lemma served_in_sync:
  assumes "boot L env bundle saved = Inr (s0, service)"
    and "unat (bc_base_height (ns_chain (serve A L events s0))) + length (bc_blocks (ns_chain (serve A L events s0))) < 2 ^ 63"
  shows "in_sync L (ns_chain (serve A L events s0))"
  using assms(2) boot_starts [OF assms(1)] by (intro runs_in_sync [OF serve_runs]) simp_all

lemma start_restores:
  assumes "boot L env bundle saved = Inr (s0, service)"
    and "unat (bc_base_height (ns_chain (serve A L events s0))) + length (bc_blocks (ns_chain (serve A L events s0))) < 2 ^ 63"
    and "load_state J env d = Some (persisted (snapshot_of (serve A L events s0)))"
  shows "\<exists>t. start L J env bundle' d = Inr (t, service) \<and> restores (snapshot_of (serve A L events s0)) t"
proof -
  have c: "as_chain (snapshot_of s) = ns_chain s" for s by (simp add: snapshot_of_def)
  show ?thesis
    unfolding start_def assms(3)
    using boot_restores [of L "snapshot_of (serve A L events s0)"] served_in_sync [OF assms(1,2)] assms(1,2)
    by (simp add: c)
qed

lemma serve_append: "serve A L (xs @ ys) s = serve A L ys (serve A L xs s)"
  by (induction A L xs s rule: serve.induct) simp_all


text \<open>C13 A save replaces the saved state as a whole or not at all. Once a save has succeeded, and
  whatever saves follow it, whether they succeed, are refused by the system at any step or end with
  the death of the process at any step, and whatever temporary files are left behind, the node loads
  that snapshot or one of the later ones: never nothing, and never a part of one.\<close>

theorem state_file_is_never_torn:
  assumes "reads_back J snap" and "save_state J env os snap d = (Inr (), d')"
    and "list_all (\<lambda>a. reads_back J (the_snap a)) attempts"
  shows "load_state J env (live (save_state J env) (die_saving J env) attempts d')
    \<in> (\<lambda>y. Some (persisted y)) ` insert snap (the_snap ` set attempts)"
  using state_file.lived_on [of J snap env os d d' attempts] assms by (simp add: list_all_iff)

theorem state_file_is_never_torn_witness:
  "\<exists>x y d. x \<noteq> y \<and> save_state (pair_json x y) no_env calm x empty_disk = (Inr (), d)
     \<and> load_state (pair_json x y) no_env
         (live (save_state (pair_json x y) no_env) (die_saving (pair_json x y) no_env)
            [Dies calm y 2, Saves full y, Dies calm y 9] d) \<in> {Some (persisted x), Some (persisted y)}"
proof -
  let ?x = "home_snapshot" and ?y = "home_snapshot\<lparr>as_peers := [''p'']\<rparr>"
  show ?thesis
    using state_file_is_never_torn [OF pair_reads_back(1) [of ?x ?y] first_save [of ?x ?y],
        of "[Dies calm ?y 2, Saves full ?y, Dies calm ?y 9]"]
    by (intro exI [of _ ?x] exI [of _ ?y])
       (simp add: first_save pair_reads_back, simp add: home_snapshot_def)
qed

text \<open>C12 A node comes back as it was. Whatever it has gone through since it started, once it has saved
  its state, the node that starts again from its disk does start, with the same identity, the same
  chain (blocks, state, randomness and next difficulty), the pool, certificates, governance and
  evidence it had, and all its peers; and when it dies at any step of a later save, it comes back
  as it was at the one save or as it was at the other.\<close>

theorem restart_recovers:
  assumes boot: "boot L env bundle saved = Inr (s0, service)"
    and s: "s = serve A L events s0" and t: "t = serve A L later s"
    and small: "unat (bc_base_height (ns_chain s)) + length (bc_blocks (ns_chain s)) < 2 ^ 63"
      "unat (bc_base_height (ns_chain t)) + length (bc_blocks (ns_chain t)) < 2 ^ 63"
    and readable: "reads_back J (snapshot_of s)" "reads_back J (snapshot_of t)"
    and save: "save_state J env os (snapshot_of s) d = (Inr (), d')"
  shows "(\<exists>u. start L J env bundle' d' = Inr (u, service) \<and> restores (snapshot_of s) u)
    \<and> (\<exists>u. start L J env bundle' (die_saving J env os' (snapshot_of t) n d') = Inr (u, service)
          \<and> (restores (snapshot_of s) u \<or> restores (snapshot_of t) u))"
proof -
  have old: "\<exists>u. start L J env bundle' x = Inr (u, service) \<and> restores (snapshot_of s) u"
    if "load_state J env x = Some (persisted (snapshot_of s))" for x
    using start_restores [OF boot] small(1) that by (simp add: s)
  have forth: "\<exists>u. start L J env bundle' x = Inr (u, service) \<and> restores (snapshot_of t) u"
    if "load_state J env x = Some (persisted (snapshot_of t))" for x
    using start_restores [OF boot, of A "events @ later"] small(2) that by (simp add: s t serve_append)
  have d': "load_state J env d' = Some (persisted (snapshot_of s))" by (rule state_file.saved [OF readable(1) save])
  show ?thesis
    using old [OF d'] old forth state_file.died [OF readable(2), of env os' n d'] d' by metis
qed

theorem restart_recovers_witness:
  "\<exists>d u. (\<exists>x. save_state (pair_json home_snapshot x) no_env calm home_snapshot empty_disk = (Inr (), d)
      \<and> start chain_lib (pair_json home_snapshot x) no_env None d = Inr (u, local_service))
     \<and> restores home_snapshot u \<and> bc_blocks (ns_chain u) = bc_blocks home"
proof -
  let ?t = "serve door chain_lib [(noon, Submit next_block)] idle"
  let ?J = "pair_json home_snapshot (snapshot_of ?t)"
  have snap: "snapshot_of idle = home_snapshot" by (simp add: snapshot_of_def idle_def home_snapshot_def)
  obtain c where c: "length (bc_blocks c) = 2" "ns_chain ?t = c" using idle_extends by blast
  have "bc_base_height home = 0 \<and> length (bc_blocks home) = 1" by (simp add: home_def)
  moreover have "bc_base_height (ns_chain ?t) = bc_base_height (ns_chain idle)"
    using runs_same_network [OF serve_runs] by (metis same_network_def)
  moreover have "ns_chain idle = home" by (simp add: idle_def)
  ultimately show ?thesis
    using restart_recovers [OF idle_boots, of idle door "[]" ?t "[(noon, Submit next_block)]" ?J calm empty_disk _ None calm 4]
      first_save [of home_snapshot "snapshot_of ?t"] pair_reads_back c
    by (auto simp: snap restores_def home_snapshot_def [THEN arg_cong [of _ _ as_chain]])
qed

end
