(* ===== verification/Routes.thy ===== *)
theory Routes
  imports Wire
begin

text \<open>
  What a node listens to: the tables of its HTTP routes (\<open>api_routes\<close> in \<open>api/routes.rs\<close>, \<open>auth_routes\<close> in
  \<open>auth/routes.rs\<close>, merged in \<open>main.rs\<close>), each route with the name of its handler, the requests its own
  client sends against them, and the end of a login session. Which pattern a path matches is decided
  by the router of the \<open>axum\<close> crate, a parameter.
\<close>


section \<open>The tables\<close>

type_synonym route = "http_method \<times> string \<times> string"

definition api_routes :: "route list" where
  "api_routes =
    [(Post, ''/certificates/issue'', ''issue_certificate''),
     (Post, ''/certificates/verify'', ''verify_certificate''),
     (Post, ''/certificates/attest'', ''attest_certificate''),
     (Post, ''/credentials/issue'', ''issue_credential''),
     (Post, ''/credentials/revoke'', ''revoke_credential''),
     (Get, ''/credentials/{id}'', ''get_credential''),
     (Get, ''/credentials/{id}/proof'', ''get_credential_proof''),
     (Post, ''/tokens/transfer'', ''transfer_tokens''),
     (Post, ''/tokens/faucet'', ''faucet_tokens''),
     (Get, ''/tokens/balance/{account}'', ''get_token_balance''),
     (Get, ''/tokens/nonce/{account}'', ''get_account_nonce''),
     (Post, ''/assets/create'', ''create_token''),
     (Post, ''/assets/transfer'', ''send_token''),
     (Post, ''/assets/burn'', ''burn_token''),
     (Get, ''/assets'', ''list_tokens''),
     (Get, ''/assets/{token_id}'', ''get_token''),
     (Get, ''/assets/{token_id}/balance/{account}'', ''get_token_holding''),
     (Post, ''/dex/add'', ''add_liquidity''),
     (Post, ''/dex/remove'', ''remove_liquidity''),
     (Post, ''/dex/swap'', ''swap''),
     (Get, ''/dex/pools'', ''list_pools''),
     (Get, ''/dex/pool/{token_id}'', ''get_pool''),
     (Get, ''/dex/position/{token_id}/{account}'', ''get_lp_position''),
     (Get, ''/dex/quote/{token_id}/{direction}/{amount_in}'', ''swap_quote''),
     (Get, ''/fees'', ''get_fees''),
     (Get, ''/blocks'', ''get_blocks''),
     (Get, ''/blocks/{index}'', ''get_block_by_index''),
     (Get, ''/blockchain/stats'', ''get_blockchain_stats''),
     (Get, ''/blockchain/state'', ''get_state_summary''),
     (Post, ''/mine'', ''mine_block''),
     (Post, ''/mine/propose'', ''propose_block''),
     (Post, ''/mine/submit'', ''submit_block''),
     (Get, ''/mining/difficulty'', ''get_mining_difficulty''),
     (Post, ''/mining/difficulty'', ''set_mining_difficulty''),
     (Get, ''/blockchain/validate'', ''validate_blockchain''),
     (Get, ''/blocks/{index}/validate'', ''validate_block''),
     (Get, ''/validate'', ''validate_chain''),
     (Get, ''/transactions/pending'', ''get_pending_transactions''),
     (Get, ''/explorer/overview'', ''get_explorer_overview''),
     (Get, ''/explorer/blocks'', ''get_explorer_blocks''),
     (Get, ''/explorer/blocks/index/{index}'', ''get_explorer_block_by_index''),
     (Get, ''/explorer/blocks/hash/{hash}'', ''get_explorer_block_by_hash''),
     (Get, ''/explorer/search/{query}'', ''search_explorer''),
     (Get, ''/explorer/transactions/pending'', ''get_pending_transactions_structured''),
     (Post, ''/staking/deposit'', ''stake_tokens''),
     (Post, ''/staking/withdraw'', ''withdraw_stake''),
     (Get, ''/staking/validators'', ''list_validators''),
     (Get, ''/staking/unbonding/{address}'', ''get_unbonding''),
     (Post, ''/tokens/vest'', ''vest_tokens''),
     (Get, ''/vesting/{address}'', ''get_vesting''),
     (Get, ''/p2p/peers'', ''list_peers''),
     (Post, ''/p2p/peers/register'', ''register_peer''),
     (Post, ''/p2p/block'', ''receive_block''),
     (Post, ''/p2p/blocks'', ''receive_blocks''),
     (Get, ''/p2p/chain'', ''get_p2p_chain''),
     (Get, ''/p2p/head'', ''get_p2p_head''),
     (Get, ''/p2p/blocks/{from_height}'', ''get_p2p_blocks_from''),
     (Get, ''/p2p/peers/scores'', ''get_peer_scores''),
     (Get, ''/snapshot'', ''get_snapshot''),
     (Get, ''/checkpoint'', ''get_checkpoint''),
     (Get, ''/checkpoint/bundle'', ''get_checkpoint_bundle''),
     (Post, ''/p2p/protocol'', ''receive_protocol_message''),
     (Get, ''/governance/config'', ''get_governance''),
     (Post, ''/governance/config'', ''update_governance''),
     (Post, ''/slashing/evidence'', ''submit_slash_evidence''),
     (Get, ''/slashing/evidence'', ''list_slash_evidence''),
     (Post, ''/slashing/equivocation'', ''submit_equivocation''),
     (Get, ''/metrics'', ''get_metrics'')]"

definition auth_routes :: "route list" where
  "auth_routes =
    [(Post, ''/auth/nonce'', ''generate_nonce''),
     (Post, ''/auth/verify'', ''verify_signature''),
     (Delete, ''/auth/logout'', ''logout'')]"

definition app_routes :: "route list" where
  "app_routes = api_routes @ auth_routes"

definition BODY_LIMIT :: nat where "BODY_LIMIT = 1048576"

definition cors_methods :: "http_method list" where
  "cors_methods = [Get, Post, Put, Delete, Options]"

text \<open>The handlers a request can reach.\<close>

definition handlers :: "(string \<Rightarrow> string \<Rightarrow> bool) \<Rightarrow> http_method \<Rightarrow> string \<Rightarrow> string list" where
  "handlers matches verb path =
     map (\<lambda>(_, _, handler). handler) (filter (\<lambda>(v, pat, _). v = verb \<and> matches pat path) app_routes)"


section \<open>Ending a session\<close>

record auth_response =
  at_status :: string
  at_message :: string

definition logout :: "(node, auth_response) exec" where
  "logout = ret \<lparr>at_status = ''success'', at_message = ''Successfully logged out''\<rparr>"


section \<open>What the tables say\<close>

text \<open>The router of axum panics at start on a route that is registered twice.\<close>

lemma routes_registered_once: "distinct (map (\<lambda>(verb, pat, _). (verb, pat)) app_routes)"
  by code_simp

lemma browsers_reach_all: "list_all (\<lambda>(verb, _). verb \<in> set cors_methods) app_routes"
  by code_simp

text \<open>A session outlives its logout.\<close>

lemma logout_keeps_sessions: "snd (logout s) = s"
  by (simp add: logout_def ret_def)


section \<open>The client's requests arrive where they should\<close>

text \<open>The documented rule: segment by segment, where a segment in braces takes any one that is not empty.\<close>

definition segment_matches :: "string \<Rightarrow> string \<Rightarrow> bool" where
  "segment_matches pat seg = (if starts_with ''{'' pat then seg \<noteq> [] else pat = seg)"

definition documented :: "(string \<Rightarrow> string \<Rightarrow> bool) \<Rightarrow> bool" where
  "documented matches \<longleftrightarrow>
     (\<forall>pat path. matches pat path = list_all2 segment_matches (split_all CHR ''/'' pat) (split_all CHR ''/'' path))"

lemma documented_sample: "documented (\<lambda>pat path. list_all2 segment_matches (split_all CHR ''/'' pat) (split_all CHR ''/'' path))"
  by (simp add: documented_def)

definition request_path :: "string \<Rightarrow> http_request \<Rightarrow> string" where
  "request_path peer request = takeWhile (\<lambda>c. c \<noteq> CHR ''?'') (drop (length (trim_slashes peer)) (hr_url request))"

lemma authorized_url [simp]: "hr_url (authorized service request) = hr_url request"
  "hr_method (authorized service request) = hr_method request"
  by (simp_all add: authorized_def split: option.split)

lemma request_path_get [simp]: "request_path peer (authorized service (http_get (trim_slashes peer @ p))) = takeWhile (\<lambda>c. c \<noteq> CHR ''?'') p"
  by (simp add: request_path_def) (simp add: http_get_def)

lemma plain_number: "is_digit c = False \<Longrightarrow> c \<notin> set (show_u64 w)"
  using dec_string_digits [of "unat w"] by (auto simp: show_u64_def list_all_iff)

lemma show_u64_nonempty: "show_u64 w \<noteq> []"
  by (simp add: show_u64_def)

lemma split_all_single: "c \<notin> set s \<Longrightarrow> split_all c s = [s]"
  by (induction s) auto

lemma up_to_query: "takeWhile (\<lambda>c. c \<noteq> CHR ''?'') (show_u64 h @ CHR ''?'' # q) = show_u64 h"
  by (subst takeWhile_append2) (auto simp: plain_number is_digit_def intro: ccontr)

lemma request_path_range:
  "request_path peer (range_request service peer h n) = ''/p2p/blocks/'' @ show_u64 h"
  by (simp add: request_path_def range_request_def authorized_def http_get_def up_to_query split: option.split)

text \<open>The handlers for a path cut into its segments.\<close>

definition routed :: "http_method \<Rightarrow> string list \<Rightarrow> string list" where
  "routed verb segs =
     map (\<lambda>(_, _, handler). handler)
       (filter (\<lambda>(v, pat, _). v = verb \<and> list_all2 segment_matches (split_all CHR ''/'' pat) segs) app_routes)"

lemma documented_handlers: "documented matches \<Longrightarrow> handlers matches verb path = routed verb (split_all CHR ''/'' path)"
  by (simp add: handlers_def routed_def documented_def)

lemma routed_requests:
  "routed Get [[], ''p2p'', ''peers''] = [''list_peers'']" "routed Get [[], ''p2p'', ''head''] = [''get_p2p_head'']"
  "routed Get [[], ''p2p'', ''chain''] = [''get_p2p_chain'']"
  "routed Post [[], ''p2p'', ''protocol''] = [''receive_protocol_message'']"
  by code_simp+

lemma routed_range: "seg \<noteq> [] \<Longrightarrow> routed Get [[], ''p2p'', ''blocks'', seg] = [''get_p2p_blocks_from'']"
  by (simp add: routed_def app_routes_def api_routes_def auth_routes_def segment_matches_def starts_with_def)

text \<open>Every request of \<open>P2PService\<close> is for exactly one handler of the peer it goes to, the one it means.\<close>

lemma requests_find_their_handlers:
  assumes "documented matches"
  shows "handlers matches Get (request_path peer (authorized service (http_get (trim_slashes peer @ ''/p2p/peers'')))) = [''list_peers'']"
    "handlers matches Get (request_path peer (authorized service (http_get (trim_slashes peer @ ''/p2p/head'')))) = [''get_p2p_head'']"
    "handlers matches Get (request_path peer (authorized service (http_get (trim_slashes peer @ ''/p2p/chain'')))) = [''get_p2p_chain'']"
    "handlers matches Get (request_path peer (range_request service peer h n)) = [''get_p2p_blocks_from'']"
    "hr_url request = trim_slashes peer @ ''/p2p/protocol''
       \<Longrightarrow> handlers matches Post (request_path peer request) = [''receive_protocol_message'']"
proof -
  have "split_all CHR ''/'' (show_u64 h) = [show_u64 h]" by (simp add: split_all_single plain_number is_digit_def)
  then show "handlers matches Get (request_path peer (range_request service peer h n)) = [''get_p2p_blocks_from'']"
    by (simp add: documented_handlers [OF assms] request_path_range routed_range show_u64_nonempty)
  show "handlers matches Post (request_path peer request) = [''receive_protocol_message'']"
    if "hr_url request = trim_slashes peer @ ''/p2p/protocol''"
    by (simp add: documented_handlers [OF assms] request_path_def that routed_requests)
qed (simp_all add: documented_handlers [OF assms] routed_requests)

end
