(* ===== verification/Spec2Isabelle.thy ===== *)
theory Spec2Isabelle
  imports Execution_Properties Rule_Properties Chain_Properties Node_Properties Restart Routes
begin

text \<open>
  A verification library for the hikmalayer node (\<open>src/src/\<close>, Rust): a proof-of-stake chain with
  proof-of-work sealed blocks, its transaction rules, and the node that serves, produces, gossips
  and syncs blocks.

  \<^bold>\<open>Parts and theories.\<close>
  \<^item> \<open>Prelude\<close>: results (\<open>('e, 'a) result = 'e failure + 'a\<close>, where a failure is an error value or a
    panic), state-passing computations \<open>('s, 'a) exec\<close> whose state survives an error as the code's
    mutated fields do, checked and saturating \<open>u64\<close> arithmetic, decimal text, the rule collections
    \<open>exec_ok\<close> and \<open>exec_panic\<close>.
  \<^item> \<open>Keys\<close> (\<open>consensus/pos.rs\<close>, \<open>pq.rs\<close>, \<open>hybrid.rs\<close>, \<open>vrf.rs\<close>), \<open>Leader\<close> (\<open>pos.rs\<close>), \<open>Block\<close>
    (\<open>pow.rs\<close>, \<open>blockchain/block.rs\<close>), \<open>Transaction\<close> (\<open>blockchain/transaction.rs\<close>).
  \<^item> \<open>Ledger\<close>, \<open>Transfers\<close>, \<open>Staking\<close>, \<open>Tokens\<close>, \<open>Amm\<close>, \<open>Apply\<close>, \<open>EndBlock\<close>
    (\<open>blockchain/state.rs\<close>): the state record, one definition per arm of \<open>apply_verified\<close>, the
    dispatch, and block-boundary housekeeping.
  \<^item> \<open>Chain\<close>, \<open>Replay\<close> (\<open>blockchain/chain.rs\<close>): validation of one block as header, slot, seal and
    execution checks; committing, finality, construction, full replay, fork choice, bundles.
  \<^item> \<open>Peers\<close> (\<open>p2p/peerbook.rs\<close>, \<open>protocol.rs\<close>, \<open>service.rs\<close>), \<open>Access\<close> (\<open>auth/\<close> with its middleware, the
    authorization checks of \<open>api/routes.rs\<close>, \<open>api/amount.rs\<close>).
  \<^item> \<open>Node\<close>, \<open>Handlers\<close>, \<open>Messages\<close>, \<open>Operator\<close>, \<open>Requests\<close>, \<open>Explorer\<close> (\<open>api/routes.rs\<close>): the
    state behind the handlers (\<open>AppState\<close> is the record \<open>node\<close>) and one computation per handler;
    \<open>Sync\<close> (\<open>p2p/sync.rs\<close>), \<open>Boot\<close> (\<open>main.rs\<close>) and \<open>Wire\<close> (\<open>p2p/service.rs\<close>, the node as an HTTP client).
  \<^item> \<open>Disk\<close> (\<open>persistence.rs\<close>): the file of the saved state and the steps in which a save reaches it;
    \<open>Routes\<close> (\<open>api/routes.rs\<close>, \<open>auth/routes.rs\<close>, \<open>main.rs\<close>): the tables of HTTP routes with their handlers.
  \<^item> \<open>Wallet\<close> (\<open>bin/hikma-wallet.rs\<close>, \<open>bin/mint_token.rs\<close>): the commands as functions of their
    arguments and the environment, with what they print as data.

  The state of a component is a record with the fields of its struct; an operation that takes
  \<open>&mut self\<close> is a computation over that record, and the node's handlers are computations over
  \<open>node\<close>, which hold the parts of \<open>AppState\<close> behind its locks. A handler that releases its locks in
  the middle (mining, sync) is split into its sections, and an interleaving is a list of events.

  \<^bold>\<open>What the lemmas show.\<close>
  \<^item> \<open>Soundness\<close>, \<open>Frames\<close>, \<open>History\<close>: the books of the state (supply, pools, bonded stake, token
    and share totals) balance and stay balanced; what no transaction can undo. The locale
    \<open>account_ledger\<close> of \<open>Ledger\<close> states what moving an amount between accounts promises, \<open>frame\<close>
    and \<open>ledger_frame\<close> carry a preorder on states through every transaction.
  \<^item> \<open>Lifecycle\<close>, \<open>Bundle\<close>, \<open>Election\<close>: the states a chain reaches are those of its replay; fork
    choice, finality and bundles; who may produce which block.
  \<^item> \<open>Effects\<close>, \<open>Node_Runs\<close>: locale \<open>node_order\<close> takes a preorder that a few primitive steps respect
    and yields it for every handler and every sequence of events; it is interpreted on the moves of
    the chain and on the tables of peers and messages. \<open>Production\<close>, \<open>Peer_Rules\<close>,
    \<open>Message_Rules\<close>: what a plan commits to, what the cache and the peer book remember.
  \<^item> \<open>Poison\<close>: what an accepted transaction does to the nonces, and from it that the plan over a
    pool with a transaction that fails half way through (\<open>spoils\<close>) seals a state its block does not
    reach, round after round.
  \<^item> \<open>Admission\<close>, \<open>Progress\<close>, \<open>Gossip\<close> and \<open>Catchup\<close>: that what is admitted to the pool is in the next
    block, that a staked validator can always extend a reachable chain, that every node with the same
    blocks takes over the block it mined, and that a node behind a peer on the same history takes over
    all it lacks.
  \<^item> \<open>Disk\<close> and \<open>Restart\<close>: locale \<open>snapshot_store\<close> states what a node relies on in its disk, that a save
    replaces the snapshot as a whole or not at all; it is interpreted on the steps of \<open>save_state\<close>,
    where the system may refuse any step and the process may die between any two. From it, the field
    \<open>ns_saved\<close> of the node is what its file holds (\<open>persist_is_the_file\<close>), and a node that starts again
    is the one that saved.
  \<^item> \<open>Execution_Properties\<close>, \<open>Rule_Properties\<close>, \<open>Chain_Properties\<close>, \<open>Node_Properties\<close>, \<open>Restart\<close> state the
    properties C1 to C40; \<open>Samples\<close>, \<open>Chain_Samples\<close> and \<open>Node_Samples\<close> hold the concrete
    libraries, states, chains and nodes their worked instances use.

  \<^bold>\<open>Parameters.\<close> Crates that are not under \<open>src/\<close> are fields of the library records \<open>prims\<close>,
  \<open>node_lib\<close>, \<open>net_lib\<close>, \<open>auth_lib\<close>: hashing, hex, secp256k1, ML-DSA, schnorrkel, base64, HMAC, the
  JSON text of transactions, states and payloads, and chrono's text of a time. What a property needs
  of them (a digest of 64 characters, no collision on the texts at hand, state texts that show a nonce, signatures that verify
  under their keys, base64 that decodes what it encodes) is a hypothesis of that property. Random
  values, environment variables, answers of peers (a \<open>network\<close>, or a transport of HTTP requests with a
  \<open>json_lib\<close>) and clocks are arguments; a \<open>world\<close> holds the
  clock, a fresh identifier and whether the disk takes writes during one computation (\<open>Disk\<close> has the
  writes themselves, over an operating system that answers each step; \<open>snapshot_json\<close> is serde's JSON of
  a snapshot). Which path a pattern of \<open>Routes\<close> matches is axum's, with its documented rule as a hypothesis.

  \<^bold>\<open>Bounds.\<close> \<open>u64\<close> and \<open>i64\<close> fields are words of 64 bits; a 128-bit intermediate is a \<open>nat\<close> with its
  bound written out. Overflow of a plain operator is a panic, as in a build with overflow checks.
  Loops are structural recursions; the mining loop counts nonces up to \<open>2 ^ 64\<close> and ends in the
  overflow panic there, and a sync pass has the code's own bound of 64 batches as its fuel.
  A panic in the middle of a chain update leaves the node's chain as it was before the update.

  \<^bold>\<open>Not modelled.\<close> The matching of paths, the CORS headers and the JSON of the HTTP layer; what a disk
  still holds after a loss of power, and an I/O error on a state file that is there; binding the listener and the timer loop around the syncer; the
  parser of floating-point text; and what the programs print besides the wallet's fields.
\<close>

end
